(* ===== verification/Prelude.thy ===== *)
theory Prelude
  imports Main "HOL-Library.Word"
begin

text \<open>
  What every component of the platform shares: Go's error values with their wrapping chain,
  instants and durations, byte strings with the functions of package strings the code calls,
  and the decimal conversions of package strconv. The component theories rest on the lemmas
  collected here in \<open>go_simps\<close> (rewriting of string, number and error operations) and
  \<open>go_dest\<close> (what a successful parse or prefix test says of its input).
\<close>

named_theorems go_simps \<open>rewriting of the Go library operations\<close>
named_theorems go_dest \<open>what a successful library call says of its input\<close>

section \<open>Errors\<close>

text \<open>
  A Go error is its text and the error it wraps (\<open>fmt.Errorf\<close> with \<open>%w\<close>), if any; \<open>errors.Is\<close>
  walks the chain. A nil error is \<open>None\<close>. Texts keep their fixed parts; where the standard
  library renders a foreign value into a text (a quoted number, a foreign error), only the
  fixed part is kept, since no code of the platform reads it back.
\<close>

datatype error = Error (err_text: string) (err_wraps: "error option")

definition errors_New :: "string \<Rightarrow> error" where
  "errors_New msg = Error msg None"

definition errors_Wrap :: "string \<Rightarrow> error \<Rightarrow> error" where
  "errors_Wrap msg e = Error (msg @ err_text e) (Some e)"

fun errors_Is :: "error \<Rightarrow> error \<Rightarrow> bool" where
  "errors_Is (Error m w) target \<longleftrightarrow>
     Error m w = target \<or> (case w of None \<Rightarrow> False | Some e \<Rightarrow> errors_Is e target)"

lemma errors_Is_refl [simp]: "errors_Is e e"
  by (cases e) simp

lemma errors_Is_Wrap [go_simps]:
  "errors_Is (errors_Wrap msg e) target \<longleftrightarrow> errors_Wrap msg e = target \<or> errors_Is e target"
  by (simp add: errors_Wrap_def)

lemma errors_Is_New [go_simps]: "errors_Is (errors_New msg) target \<longleftrightarrow> errors_New msg = target"
  by (simp add: errors_New_def)

section \<open>Time\<close>

text \<open>
  An instant is the number of nanoseconds since the Unix epoch, a duration a number of
  nanoseconds. Go's zero instant is 1 January of year 1. \<open>int64\<close> is the value a signed 64-bit
  result wraps to; \<open>UnixNano\<close> wraps so.
\<close>

type_synonym time = int
type_synonym duration = int
type_synonym uint64 = "64 word"

definition zero_time :: time where
  "zero_time = - 62135596800000000000"

definition IsZero :: "time \<Rightarrow> bool" where
  "IsZero t \<longleftrightarrow> t = zero_time"

definition After :: "time \<Rightarrow> time \<Rightarrow> bool" where
  "After t u \<longleftrightarrow> u < t"

definition int64 :: "int \<Rightarrow> int" where
  "int64 n = sint (word_of_int n :: 64 word)"

definition UnixNano :: "time \<Rightarrow> int" where
  "UnixNano t = int64 t"

text \<open>\<open>time.Unix(0, n).UTC()\<close>.\<close>

definition unixTime :: "int \<Rightarrow> time" where
  "unixTime n = n"

abbreviation "millisecond \<equiv> (1000000 :: duration)"
abbreviation "second \<equiv> (1000000000 :: duration)"
abbreviation "minute \<equiv> (60000000000 :: duration)"

text \<open>Go's integer division truncates towards zero.\<close>

definition go_div :: "int \<Rightarrow> int \<Rightarrow> int" where
  "go_div a b = sgn a * sgn b * (\<bar>a\<bar> div \<bar>b\<bar>)"

definition Milliseconds :: "duration \<Rightarrow> int" where
  "Milliseconds d = go_div d millisecond"

lemma go_div_nonneg [go_simps]: "0 \<le> a \<Longrightarrow> 0 < b \<Longrightarrow> go_div a b = a div b"
  by (cases "a = 0") (simp_all add: go_div_def)

lemma Milliseconds_pos_iff [go_simps]: "0 < d \<Longrightarrow> 0 < Milliseconds d \<longleftrightarrow> millisecond \<le> d"
  by (auto simp: Milliseconds_def go_div_nonneg pos_imp_zdiv_pos_iff)

lemma Milliseconds_nonneg: "0 \<le> d \<Longrightarrow> 0 \<le> Milliseconds d"
  by (simp add: Milliseconds_def go_div_nonneg pos_imp_zdiv_nonneg_iff)

lemma int64_eq [go_simps]: "- (2 ^ 63) \<le> n \<Longrightarrow> n < 2 ^ 63 \<Longrightarrow> int64 n = n"
  by (simp add: int64_def int_word_sint)

lemma int64_range: "- (2 ^ 63) \<le> int64 n \<and> int64 n < 2 ^ 63"
  using sint_greater_eq [of "word_of_int n :: 64 word"] sint_less [of "word_of_int n :: 64 word"]
  by (simp add: int64_def)

lemma uint64_bound: "unat g < 2 ^ 64" for g :: uint64
proof -
  have "unat g < 2 ^ LENGTH(64)" by (rule unsigned_less)
  then show ?thesis by simp
qed

lemma UnixNano_eq [go_simps]: "- (2 ^ 63) \<le> t \<Longrightarrow> t < 2 ^ 63 \<Longrightarrow> UnixNano t = t"
  by (simp add: UnixNano_def int64_eq)

section \<open>Strings\<close>

text \<open>A Go string is a sequence of bytes; a HOL \<open>char\<close> is a byte.\<close>

definition HasPrefix :: "string \<Rightarrow> string \<Rightarrow> bool" where
  "HasPrefix s p \<longleftrightarrow> take (length p) s = p"

definition HasSuffix :: "string \<Rightarrow> string \<Rightarrow> bool" where
  "HasSuffix s p \<longleftrightarrow> length p \<le> length s \<and> drop (length s - length p) s = p"

definition TrimPrefix :: "string \<Rightarrow> string \<Rightarrow> string" where
  "TrimPrefix s p = (if HasPrefix s p then drop (length p) s else s)"

definition TrimSuffix :: "string \<Rightarrow> string \<Rightarrow> string" where
  "TrimSuffix s p = (if HasSuffix s p then take (length s - length p) s else s)"

text \<open>\<open>strings.Split\<close> with a one-byte separator.\<close>

fun Split :: "char \<Rightarrow> string \<Rightarrow> string list" where
  "Split c [] = [[]]"
| "Split c (x # xs) =
     (if x = c then [] # Split c xs
      else (case Split c xs of [] \<Rightarrow> [[x]] | y # ys \<Rightarrow> (x # y) # ys))"

text \<open>
  The UTF-8 encodings of the runes for which \<open>unicode.IsSpace\<close> holds; \<open>strings.TrimSpace\<close>
  removes them at both ends.
\<close>

definition space_runes :: "string list" where
  "space_runes = map (map char_of)
     ([[9], [10], [11], [12], [13], [32], [194, 133], [194, 160], [225, 154, 128],
       [226, 128, 168], [226, 128, 169], [226, 128, 175], [226, 129, 159], [227, 128, 128]]
      @ map (\<lambda>b. [226, 128, b]) [128, 129, 130, 131, 132, 133, 134, 135, 136, 137, 138 :: nat])"

definition strippable :: "string \<Rightarrow> string \<Rightarrow> bool" where
  "strippable s p \<longleftrightarrow> p \<noteq> [] \<and> HasPrefix s p"

function strip :: "string list \<Rightarrow> string \<Rightarrow> string" where
  "strip ps s =
     (case find (strippable s) ps of
        None \<Rightarrow> s
      | Some p \<Rightarrow> strip ps (drop (length p) s))"
  by pat_completeness auto
termination
proof (relation "measure (\<lambda>(ps, s). length s)")
  fix ps s p
  assume "find (strippable s) ps = Some p"
  then have p: "p \<noteq> []" "take (length p) s = p"
    by (auto simp: find_Some_iff strippable_def HasPrefix_def)
  then have "s \<noteq> []" by auto
  with p show "((ps, drop (length p) s), ps, s) \<in> measure (\<lambda>(ps, s). length s)"
    by simp
qed simp

declare strip.simps [simp del]

definition TrimSpace :: "string \<Rightarrow> string" where
  "TrimSpace s = rev (strip (map rev space_runes) (rev (strip space_runes s)))"

text \<open>
  \<open>strings.ToLower\<close>. Besides the ASCII letters, two runes have an ASCII lower case: U+0130
  (bytes C4 B0) gives \<open>i\<close> and U+212A (bytes E2 84 AA) gives \<open>k\<close>. Every other non-ASCII rune
  stays outside ASCII and is left as it is: the code only compares the result with ASCII words.
\<close>

definition lower_byte :: "char \<Rightarrow> char" where
  "lower_byte c = (let n = of_char c :: nat in if 65 \<le> n \<and> n \<le> 90 then char_of (n + 32) else c)"

fun ToLower :: "string \<Rightarrow> string" where
  "ToLower [] = []"
| "ToLower (a # s) =
     (case s of
        b # t \<Rightarrow>
          if (of_char a :: nat) = 196 \<and> (of_char b :: nat) = 176 then CHR ''i'' # ToLower t
          else (case t of
                  c # u \<Rightarrow>
                    if (of_char a :: nat) = 226 \<and> (of_char b :: nat) = 132 \<and> (of_char c :: nat) = 170
                    then CHR ''k'' # ToLower u
                    else lower_byte a # ToLower s
                | [] \<Rightarrow> lower_byte a # ToLower s)
      | [] \<Rightarrow> [lower_byte a])"

lemma HasPrefix_append [simp]: "HasPrefix (p @ s) p"
  by (simp add: HasPrefix_def)

lemma HasPrefix_iff [go_dest]: "HasPrefix s p \<longleftrightarrow> (\<exists>t. s = p @ t)"
  by (metis HasPrefix_append HasPrefix_def append_take_drop_id)

lemma HasSuffix_append [simp]: "HasSuffix (s @ p) p"
  by (simp add: HasSuffix_def)

lemma HasSuffix_iff [go_dest]: "HasSuffix s p \<longleftrightarrow> (\<exists>t. s = t @ p)"
  by (metis HasSuffix_append HasSuffix_def append_take_drop_id)

lemma TrimPrefix_append [simp]: "TrimPrefix (p @ s) p = s"
  by (simp add: TrimPrefix_def)

lemma TrimSuffix_append [simp]: "TrimSuffix (s @ p) p = s"
  by (simp add: TrimSuffix_def)

lemma Split_nonempty [simp]: "Split c s \<noteq> []"
  by (induction s) (auto split: list.splits)

lemma Split_no_sep: "w \<in> set (Split c s) \<Longrightarrow> c \<notin> set w"
  by (induction s arbitrary: w) (force split: list.splits if_splits)+

lemma strip_no_prefix: "p \<in> set ps \<Longrightarrow> p \<noteq> [] \<Longrightarrow> \<not> HasPrefix (strip ps s) p"
proof (induction ps s rule: strip.induct)
  case (1 ps s)
  show ?case
  proof (cases "find (strippable s) ps")
    case None
    then have "\<not> strippable s p" using "1.prems" by (auto simp: find_None_iff)
    with None "1.prems" show ?thesis by (simp add: strip.simps [of ps s] strippable_def)
  next
    case (Some q)
    with 1 show ?thesis by (simp add: strip.simps [of ps s])
  qed
qed

lemma strip_suffix: "\<exists>t. s = t @ strip ps s"
proof (induction ps s rule: strip.induct)
  case (1 ps s)
  show ?case
  proof (cases "find (strippable s) ps")
    case None
    then show ?thesis by (simp add: strip.simps [of ps s])
  next
    case (Some p)
    then obtain t where "drop (length p) s = t @ strip ps (drop (length p) s)"
      using "1.IH" by blast
    then have "s = (take (length p) s @ t) @ strip ps (drop (length p) s)"
      by (metis append.assoc append_take_drop_id)
    moreover have "strip ps s = strip ps (drop (length p) s)"
      by (simp add: strip.simps [of ps s] Some)
    ultimately show ?thesis by metis
  qed
qed

lemma TrimSpace_infix: "\<exists>t u. s = t @ TrimSpace s @ u"
proof -
  obtain t where t: "s = t @ strip space_runes s" using strip_suffix by blast
  obtain u where "rev (strip space_runes s) = u @ strip (map rev space_runes) (rev (strip space_runes s))"
    using strip_suffix by blast
  then have "strip space_runes s = TrimSpace s @ rev u"
    unfolding TrimSpace_def by (metis rev_append rev_rev_ident)
  with t show ?thesis by metis
qed

lemma set_TrimSpace: "set (TrimSpace s) \<subseteq> set s"
  using TrimSpace_infix [of s] by (metis Un_upper1 Un_upper2 order_trans set_append)

lemma strip_fixed: "\<forall>p \<in> set ps. p \<noteq> [] \<longrightarrow> \<not> HasPrefix s p \<Longrightarrow> strip ps s = s"
proof -
  assume "\<forall>p \<in> set ps. p \<noteq> [] \<longrightarrow> \<not> HasPrefix s p"
  then have "find (strippable s) ps = None" by (auto simp: find_None_iff strippable_def)
  then show ?thesis by (simp add: strip.simps)
qed

lemma TrimSpace_fixed:
  "\<forall>p \<in> set space_runes. p \<noteq> [] \<longrightarrow> \<not> HasPrefix s p \<and> \<not> HasPrefix (rev s) (rev p) \<Longrightarrow> TrimSpace s = s"
  by (simp add: TrimSpace_def strip_fixed)

lemma TrimSpace_Nil [simp]: "TrimSpace [] = []"
  by (rule TrimSpace_fixed) (simp add: HasPrefix_def)

lemma TrimSpace_idem [simp]: "TrimSpace (TrimSpace s) = TrimSpace s"
proof (rule TrimSpace_fixed, intro ballI impI conjI)
  fix p assume p: "p \<in> set space_runes" "p \<noteq> []"
  obtain u where "rev (strip space_runes s) = u @ strip (map rev space_runes) (rev (strip space_runes s))"
    using strip_suffix by blast
  then have "strip space_runes s = TrimSpace s @ rev u"
    unfolding TrimSpace_def by (metis rev_append rev_rev_ident)
  then show "\<not> HasPrefix (TrimSpace s) p"
    using strip_no_prefix [OF p, of s] by (auto simp: HasPrefix_iff)
  show "\<not> HasPrefix (rev (TrimSpace s)) (rev p)"
    using p by (simp add: TrimSpace_def strip_no_prefix)
qed

text \<open>A visible ASCII character: no space starts or ends with one.\<close>

definition visible :: "char \<Rightarrow> bool" where
  "visible c \<longleftrightarrow> (let n = of_char c :: nat in 33 \<le> n \<and> n \<le> 126)"

lemma space_runes_invisible: "p \<in> set space_runes \<Longrightarrow> p \<noteq> [] \<and> \<not> visible (hd p) \<and> \<not> visible (last p)"
  by (auto simp: space_runes_def visible_def)

lemma TrimSpace_visible: "visible (hd s) \<Longrightarrow> visible (last s) \<Longrightarrow> TrimSpace s = s"
proof (rule TrimSpace_fixed, intro ballI impI conjI)
  fix p assume p: "p \<in> set space_runes" and s: "visible (hd s)" "visible (last s)"
  note inv = space_runes_invisible [OF p]
  show "\<not> HasPrefix s p" using inv s(1) by (auto simp: HasPrefix_iff)
  show "\<not> HasPrefix (rev s) (rev p)"
  proof
    assume "HasPrefix (rev s) (rev p)"
    then have "\<exists>t. s = t @ p" by (metis HasPrefix_iff rev_append rev_rev_ident)
    with inv s(2) show False by auto
  qed
qed

section \<open>Decimal numbers\<close>

text \<open>
  \<open>strconv.ParseUint\<close>, \<open>ParseInt\<close> and \<open>Atoi\<close> in base 10 at 64 bits: an optional sign where the
  type is signed, at least one digit, digits only; a value out of range is \<open>ErrRange\<close>, found as
  soon as the digits read so far overflow. \<open>showNat\<close> and \<open>showInt\<close> are the decimal formatting
  that \<open>fmt.Sprint\<close> and the Redis client apply to integers.
\<close>

datatype num_error = ErrSyntax | ErrRange

definition digit_char :: "nat \<Rightarrow> char" where
  "digit_char d = char_of (48 + d)"

definition digit_val :: "char \<Rightarrow> nat option" where
  "digit_val c = (let n = of_char c in if 48 \<le> n \<and> n \<le> (57 :: nat) then Some (n - 48) else None)"

fun showNat :: "nat \<Rightarrow> string" where
  "showNat n = (if n < 10 then [digit_char n] else showNat (n div 10) @ [digit_char (n mod 10)])"

declare showNat.simps [simp del]

definition showInt :: "int \<Rightarrow> string" where
  "showInt i = (if i < 0 then CHR ''-'' # showNat (nat (- i)) else showNat (nat i))"

fun uint_loop :: "nat \<Rightarrow> string \<Rightarrow> num_error + nat" where
  "uint_loop n [] = Inr n"
| "uint_loop n (c # cs) =
     (case digit_val c of
        None \<Rightarrow> Inl ErrSyntax
      | Some d \<Rightarrow> if 10 * n + d < 2 ^ 64 then uint_loop (10 * n + d) cs else Inl ErrRange)"

definition ParseUint :: "string \<Rightarrow> num_error + nat" where
  "ParseUint s = (if s = [] then Inl ErrSyntax else uint_loop 0 s)"

definition ParseInt :: "string \<Rightarrow> num_error + int" where
  "ParseInt s =
     (if s = [] then Inl ErrSyntax
      else let neg = (hd s = CHR ''-'');
               body = (if hd s = CHR ''+'' \<or> hd s = CHR ''-'' then tl s else s)
           in case ParseUint body of
                Inl e \<Rightarrow> Inl e
              | Inr un \<Rightarrow>
                  if \<not> neg \<and> 2 ^ 63 \<le> un then Inl ErrRange
                  else if neg \<and> 2 ^ 63 < un then Inl ErrRange
                  else Inr (if neg then - int un else int un))"

abbreviation Atoi :: "string \<Rightarrow> num_error + int" where
  "Atoi \<equiv> ParseInt"

lemma digit_val_char [simp]: "d < 10 \<Longrightarrow> digit_val (digit_char d) = Some d"
  by (simp add: digit_val_def digit_char_def)

lemma showNat_nonempty [simp]: "showNat n \<noteq> []"
  by (subst showNat.simps) simp

lemma uint_loop_append:
  "uint_loop n (xs @ ys) = (case uint_loop n xs of Inl e \<Rightarrow> Inl e | Inr m \<Rightarrow> uint_loop m ys)"
  by (induction xs arbitrary: n) (auto split: option.splits)

lemma uint_loop_showNat: "n < 2 ^ 64 \<Longrightarrow> uint_loop 0 (showNat n) = Inr n"
proof (induction n rule: showNat.induct)
  case (1 n)
  show ?case
  proof (cases "n < 10")
    case True
    then show ?thesis by (simp add: showNat.simps [of n])
  next
    case False
    have "10 * (n div 10) + n mod 10 = n" by simp
    with False 1 show ?thesis
      by (simp add: showNat.simps [of n] uint_loop_append)
  qed
qed

lemma ParseUint_showNat [go_simps]: "n < 2 ^ 64 \<Longrightarrow> ParseUint (showNat n) = Inr n"
  by (simp add: ParseUint_def uint_loop_showNat)

lemma digit_char_not_sign: "d < 10 \<Longrightarrow> digit_char d \<noteq> CHR ''+'' \<and> digit_char d \<noteq> CHR ''-''"
  by (auto dest!: arg_cong [where f = digit_val]) (simp_all add: digit_val_def)

lemma hd_showNat: "\<exists>d < 10. hd (showNat n) = digit_char d"
proof (induction n rule: showNat.induct)
  case (1 n)
  then show ?case by (cases "n < 10") (auto simp: showNat.simps [of n] hd_append)
qed

lemma ParseInt_showInt [go_simps]:
  assumes "- (2 ^ 63) \<le> i" and "i < 2 ^ 63"
  shows "ParseInt (showInt i) = Inr i"
proof (cases "i < 0")
  case True
  with assms show ?thesis
    by (simp add: ParseInt_def showInt_def Let_def ParseUint_showNat nat_less_iff)
next
  case False
  have "hd (showNat (nat i)) \<noteq> CHR ''+''" "hd (showNat (nat i)) \<noteq> CHR ''-''"
    using hd_showNat [of "nat i"] digit_char_not_sign by metis+
  with False assms show ?thesis
    by (auto simp: ParseInt_def showInt_def Let_def ParseUint_showNat nat_less_iff nat_le_iff)
qed

lemma ParseInt_range [go_dest]: "ParseInt s = Inr i \<Longrightarrow> - (2 ^ 63) \<le> i \<and> i < 2 ^ 63"
  by (auto simp: ParseInt_def Let_def split: if_splits sum.splits)

lemma uint_loop_range: "uint_loop n s = Inr m \<Longrightarrow> n < 2 ^ 64 \<Longrightarrow> m < 2 ^ 64"
  by (induction s arbitrary: n) (auto split: option.splits if_splits)

lemma ParseUint_range [go_dest]: "ParseUint s = Inr n \<Longrightarrow> n < 2 ^ 64"
  by (auto simp: ParseUint_def split: if_splits dest: uint_loop_range)

lemma showNat_inject [simp]:
  assumes "m < 2 ^ 64" and "n < 2 ^ 64"
  shows "showNat m = showNat n \<longleftrightarrow> m = n"
proof
  assume "showNat m = showNat n"
  then have "ParseUint (showNat m) = ParseUint (showNat n)" by simp
  with assms show "m = n" by (simp add: ParseUint_showNat)
qed simp

section \<open>Protocol versions\<close>

text \<open>The versions of the OCPP library the code names; any other value of its string type is kept as text.\<close>

datatype version = OCPP16 | OCPP201 | OCPP21 | Other_version string

end
