(* ===== verification/Redis.thy ===== *)
theory Redis
  imports Prelude
begin

text \<open>
  The Redis service the platform talks to. The server is not part of the repository: it is the
  parameter \<open>exec\<close> of every definition that uses it, and what the code relies on is the
  documented behaviour of the commands it sends, stated on the server's visible keyspace as the
  locale \<open>redis_service\<close>. The theory also models what is in the repository's hands: a call
  inside a Lua script, and the fate of a round trip. A store with absolute deadlines and lazy
  expiry shows that the contract can be met.
\<close>

section \<open>Commands, replies, keyspace\<close>

type_synonym fields = "string \<rightharpoonup> string"

datatype redis_cmd =
    EXISTS string
  | HGET string string
  | HMGET string "string list"
  | HSET string "(string \<times> string) list"
  | INCR string
  | PEXPIRE string int
  | PTTL string
  | DEL string
  | GET string
  | SETPX string string int
  | LPUSH string string
  | RPOP string
  | XADD string nat fields
  | XGROUP_CREATE string string
  | XREADGROUP string string string nat
  | XAUTOCLAIM string string string int nat
  | XACK string string nat

datatype redis_reply =
    RErr string
  | RNil
  | ROK
  | RInt int
  | RBulk string
  | RArr "redis_reply list"
  | RMsgs "(nat \<times> fields) list"

text \<open>
  A stream keeps its entries by increasing id, and per consumer group the last id delivered and
  the pending entries with their consumer and idle time in milliseconds.
\<close>

record xgroup =
  xg_last :: nat
  xg_pending :: "(nat \<times> string \<times> int) list"

record xstream =
  xs_last :: nat
  xs_entries :: "(nat \<times> fields) list"
  xs_groups :: "string \<rightharpoonup> xgroup"

datatype rvalue = VString string | VHash fields | VList "string list" | VStream xstream

text \<open>The visible keyspace: each live key with its value and, if it expires, the milliseconds left.\<close>

type_synonym keyspace = "string \<rightharpoonup> rvalue \<times> nat option"

definition wrongtype :: redis_reply where
  "wrongtype = RErr ''WRONGTYPE Operation against a key holding the wrong kind of value''"

fun hset_all :: "(string \<times> string) list \<Rightarrow> fields \<Rightarrow> fields" where
  "hset_all [] h = h"
| "hset_all ((f, v) # fvs) h = hset_all fvs (h(f \<mapsto> v))"

definition bulk :: "string option \<Rightarrow> redis_reply" where
  "bulk v = (case v of None \<Rightarrow> RNil | Some s \<Rightarrow> RBulk s)"

definition empty_stream :: xstream where
  "empty_stream = \<lparr>xs_last = 0, xs_entries = [], xs_groups = Map.empty\<rparr>"

section \<open>Documented behaviour of the commands\<close>

text \<open>Entries of a group that a read may deliver next.\<close>

definition undelivered :: "xstream \<Rightarrow> xgroup \<Rightarrow> (nat \<times> fields) list" where
  "undelivered s g = filter (\<lambda>(i, _). xg_last g < i) (xs_entries s)"

definition read_group :: "string \<Rightarrow> nat \<Rightarrow> xstream \<Rightarrow> xgroup \<Rightarrow> (nat \<times> fields) list \<times> xgroup" where
  "read_group consumer n s g =
     (let ms = take n (undelivered s g)
      in (ms, if ms = [] then g
              else g\<lparr>xg_last := fst (last ms),
                     xg_pending := xg_pending g @ map (\<lambda>(i, _). (i, consumer, 0)) ms\<rparr>))"

text \<open>
  \<open>XAUTOCLAIM\<close> takes up to \<open>n\<close> pending entries idle for at least \<open>idle\<close>; an entry no longer in
  the stream is dropped from the pending list instead of being returned.
\<close>

fun autoclaim ::
  "string \<Rightarrow> int \<Rightarrow> nat \<Rightarrow> (nat \<rightharpoonup> fields) \<Rightarrow> (nat \<times> string \<times> int) list \<Rightarrow>
   (nat \<times> fields) list \<times> (nat \<times> string \<times> int) list" where
  "autoclaim consumer idle n ents [] = ([], [])"
| "autoclaim consumer idle n ents ((i, c, t) # ps) =
     (if n = 0 \<or> t < idle
      then (case autoclaim consumer idle n ents ps of (ms, qs) \<Rightarrow> (ms, (i, c, t) # qs))
      else (case ents i of
              None \<Rightarrow> autoclaim consumer idle n ents ps
            | Some f \<Rightarrow>
                (case autoclaim consumer idle (n - 1) ents ps of
                   (ms, qs) \<Rightarrow> ((i, f) # ms, (i, consumer, 0) # qs))))"

definition kv_exec :: "redis_cmd \<Rightarrow> keyspace \<Rightarrow> redis_reply \<times> keyspace" where
  "kv_exec c kv =
     (case c of
        EXISTS k \<Rightarrow> (RInt (if kv k = None then 0 else 1), kv)
      | HGET k f \<Rightarrow>
          (case kv k of
             None \<Rightarrow> (RNil, kv)
           | Some (VHash h, _) \<Rightarrow> (bulk (h f), kv)
           | Some _ \<Rightarrow> (wrongtype, kv))
      | HMGET k fs \<Rightarrow>
          (case kv k of
             None \<Rightarrow> (RArr (map (\<lambda>_. RNil) fs), kv)
           | Some (VHash h, _) \<Rightarrow> (RArr (map (\<lambda>f. bulk (h f)) fs), kv)
           | Some _ \<Rightarrow> (wrongtype, kv))
      | HSET k fvs \<Rightarrow>
          (case kv k of
             None \<Rightarrow> (RInt (int (length fvs)), kv(k \<mapsto> (VHash (hset_all fvs Map.empty), None)))
           | Some (VHash h, d) \<Rightarrow>
               (RInt (int (length (filter (\<lambda>(f, _). h f = None) fvs))),
                kv(k \<mapsto> (VHash (hset_all fvs h), d)))
           | Some _ \<Rightarrow> (wrongtype, kv))
      | INCR k \<Rightarrow>
          (case kv k of
             None \<Rightarrow> (RInt 1, kv(k \<mapsto> (VString (showInt 1), None)))
           | Some (VString s, d) \<Rightarrow>
               (case ParseInt s of
                  Inl _ \<Rightarrow> (RErr ''ERR value is not an integer or out of range'', kv)
                | Inr n \<Rightarrow>
                    if n = 2 ^ 63 - 1 then (RErr ''ERR increment or decrement would overflow'', kv)
                    else (RInt (n + 1), kv(k \<mapsto> (VString (showInt (n + 1)), d))))
           | Some _ \<Rightarrow> (wrongtype, kv))
      | PEXPIRE k ms \<Rightarrow>
          (case kv k of
             None \<Rightarrow> (RInt 0, kv)
           | Some (v, _) \<Rightarrow>
               if ms \<le> 0 then (RInt 1, kv(k := None)) else (RInt 1, kv(k \<mapsto> (v, Some (nat ms)))))
      | PTTL k \<Rightarrow>
          (case kv k of
             None \<Rightarrow> (RInt (- 2), kv)
           | Some (_, None) \<Rightarrow> (RInt (- 1), kv)
           | Some (_, Some d) \<Rightarrow> (RInt (int d), kv))
      | DEL k \<Rightarrow> (RInt (if kv k = None then 0 else 1), kv(k := None))
      | GET k \<Rightarrow>
          (case kv k of
             None \<Rightarrow> (RNil, kv)
           | Some (VString s, _) \<Rightarrow> (RBulk s, kv)
           | Some _ \<Rightarrow> (wrongtype, kv))
      | SETPX k v ms \<Rightarrow>
          if ms \<le> 0 then (RErr ''ERR invalid expire time in 'set' command'', kv)
          else (ROK, kv(k \<mapsto> (VString v, Some (nat ms))))
      | LPUSH k v \<Rightarrow>
          (case kv k of
             None \<Rightarrow> (RInt 1, kv(k \<mapsto> (VList [v], None)))
           | Some (VList l, d) \<Rightarrow> (RInt (int (length l) + 1), kv(k \<mapsto> (VList (v # l), d)))
           | Some _ \<Rightarrow> (wrongtype, kv))
      | RPOP k \<Rightarrow>
          (case kv k of
             None \<Rightarrow> (RNil, kv)
           | Some (VList l, d) \<Rightarrow>
               if l = [] then (RNil, kv)
               else (RBulk (last l), kv(k := (if butlast l = [] then None else Some (VList (butlast l), d))))
           | Some _ \<Rightarrow> (wrongtype, kv))
      | XADD k n f \<Rightarrow>
          (case kv k of
             None \<Rightarrow>
               (RInt 1, kv(k \<mapsto> (VStream (empty_stream\<lparr>xs_last := 1, xs_entries := [(1, f)]\<rparr>), None)))
           | Some (VStream s, d) \<Rightarrow>
               (RInt (int (Suc (xs_last s))),
                kv(k \<mapsto> (VStream (s\<lparr>xs_last := Suc (xs_last s),
                                   xs_entries := xs_entries s @ [(Suc (xs_last s), f)]\<rparr>), d)))
           | Some _ \<Rightarrow> (wrongtype, kv))
      | XGROUP_CREATE k g \<Rightarrow>
          (case kv k of
             None \<Rightarrow>
               (ROK, kv(k \<mapsto> (VStream (empty_stream\<lparr>xs_groups :=
                                  [g \<mapsto> \<lparr>xg_last = 0, xg_pending = []\<rparr>]\<rparr>), None)))
           | Some (VStream s, d) \<Rightarrow>
               (case xs_groups s g of
                  Some _ \<Rightarrow> (RErr ''BUSYGROUP Consumer Group name already exists'', kv)
                | None \<Rightarrow>
                    (ROK, kv(k \<mapsto> (VStream (s\<lparr>xs_groups := (xs_groups s)(g \<mapsto>
                                        \<lparr>xg_last = 0, xg_pending = []\<rparr>)\<rparr>), d))))
           | Some _ \<Rightarrow> (wrongtype, kv))
      | XREADGROUP k g consumer n \<Rightarrow>
          (case kv k of
             Some (VStream s, d) \<Rightarrow>
               (case xs_groups s g of
                  None \<Rightarrow> (RErr ''NOGROUP No such key or consumer group'', kv)
                | Some gr \<Rightarrow>
                    (case read_group consumer n s gr of
                       (ms, gr') \<Rightarrow>
                         (if ms = [] then RNil else RMsgs ms,
                          kv(k \<mapsto> (VStream (s\<lparr>xs_groups := (xs_groups s)(g \<mapsto> gr')\<rparr>), d)))))
           | None \<Rightarrow> (RErr ''NOGROUP No such key or consumer group'', kv)
           | Some _ \<Rightarrow> (wrongtype, kv))
      | XAUTOCLAIM k g consumer idle n \<Rightarrow>
          (case kv k of
             Some (VStream s, d) \<Rightarrow>
               (case xs_groups s g of
                  None \<Rightarrow> (RErr ''NOGROUP No such key or consumer group'', kv)
                | Some gr \<Rightarrow>
                    (case autoclaim consumer idle n (map_of (xs_entries s)) (xg_pending gr) of
                       (ms, ps) \<Rightarrow>
                         (RMsgs ms,
                          kv(k \<mapsto> (VStream (s\<lparr>xs_groups := (xs_groups s)(g \<mapsto> gr\<lparr>xg_pending := ps\<rparr>)\<rparr>), d)))))
           | None \<Rightarrow> (RErr ''NOGROUP No such key or consumer group'', kv)
           | Some _ \<Rightarrow> (wrongtype, kv))
      | XACK k g i \<Rightarrow>
          (case kv k of
             None \<Rightarrow> (RInt 0, kv)
           | Some (VStream s, d) \<Rightarrow>
               (case xs_groups s g of
                  None \<Rightarrow> (RInt 0, kv)
                | Some gr \<Rightarrow>
                    (RInt (int (length (filter (\<lambda>(j, _). j = i) (xg_pending gr)))),
                     kv(k \<mapsto> (VStream (s\<lparr>xs_groups := (xs_groups s)(g \<mapsto>
                            gr\<lparr>xg_pending := filter (\<lambda>(j, _). j \<noteq> i) (xg_pending gr)\<rparr>)\<rparr>), d))))
           | Some _ \<Rightarrow> (wrongtype, kv)))"

text \<open>
  \<open>XADD\<close> picks an entry id above the last one, and with an approximate length limit may drop old
  entries as long as the limit number of entries stays. Every other command is deterministic.
\<close>

definition xadd_allowed :: "string \<Rightarrow> nat \<Rightarrow> fields \<Rightarrow> keyspace \<Rightarrow> redis_reply \<Rightarrow> keyspace \<Rightarrow> bool" where
  "xadd_allowed k n f kv rep kv' \<longleftrightarrow>
     (case kv k of
        None \<Rightarrow>
          (\<exists>i > 0. rep = RInt (int i) \<and>
             kv' = kv(k \<mapsto> (VStream (empty_stream\<lparr>xs_last := i, xs_entries := [(i, f)]\<rparr>), None)))
      | Some (VStream s, d) \<Rightarrow>
          (\<exists>i j. xs_last s < i \<and> (j = 0 \<or> n + j \<le> Suc (length (xs_entries s))) \<and> rep = RInt (int i) \<and>
             kv' = kv(k \<mapsto> (VStream (s\<lparr>xs_last := i, xs_entries := drop j (xs_entries s @ [(i, f)])\<rparr>), d)))
      | Some _ \<Rightarrow> rep = wrongtype \<and> kv' = kv)"

definition redis_spec :: "redis_cmd \<Rightarrow> keyspace \<Rightarrow> redis_reply \<Rightarrow> keyspace \<Rightarrow> bool" where
  "redis_spec c kv rep kv' \<longleftrightarrow>
     (case c of XADD k n f \<Rightarrow> xadd_allowed k n f kv rep kv' | _ \<Rightarrow> (rep, kv') = kv_exec c kv)"

text \<open>
  The contract of the service: every command moves the visible keyspace as documented. A client
  learns nothing else about the server's state.
\<close>

locale redis_service =
  fixes exec :: "redis_cmd \<Rightarrow> 'r \<Rightarrow> redis_reply \<times> 'r"
    and view :: "'r \<Rightarrow> keyspace"
  assumes exec_spec: "exec c r = (rep, r') \<Longrightarrow> redis_spec c (view r) rep (view r')"
begin

lemma exec_kv:
  "exec c r = (rep, r') \<Longrightarrow> (\<forall>k n f. c \<noteq> XADD k n f) \<Longrightarrow>
   rep = fst (kv_exec c (view r)) \<and> view r' = snd (kv_exec c (view r))"
  using exec_spec [of c r rep r'] by (cases c) (auto simp: redis_spec_def dest: sym)

end

section \<open>Scripts and round trips\<close>

text \<open>
  One \<open>redis.call\<close> of a Lua script: an error reply ends the script with that error, keeping what
  earlier calls did. Scripts run without interleaving.
\<close>

definition redis_call ::
  "(redis_cmd \<Rightarrow> 'r \<Rightarrow> redis_reply \<times> 'r) \<Rightarrow> redis_cmd \<Rightarrow>
   (redis_reply \<Rightarrow> 'r \<Rightarrow> redis_reply \<times> 'r) \<Rightarrow> 'r \<Rightarrow> redis_reply \<times> 'r" where
  "redis_call exec c k r =
     (case exec c r of
        (RErr e, r') \<Rightarrow> (RErr e, r')
      | (rep, r') \<Rightarrow> k rep r')"

text \<open>
  The fate of a client's round trip: delivered, lost before the server saw it, or executed with
  the reply lost. In the last two cases the client gets the transport's error.
\<close>

datatype fate = Delivered | Lost_request error | Lost_reply error

definition round_trip :: "fate \<Rightarrow> ('r \<Rightarrow> redis_reply \<times> 'r) \<Rightarrow> 'r \<Rightarrow> (error + redis_reply) \<times> 'r" where
  "round_trip fate cmd r =
     (case fate of
        Lost_request err \<Rightarrow> (Inl err, r)
      | Lost_reply err \<Rightarrow> (Inl err, snd (cmd r))
      | Delivered \<Rightarrow>
          (case cmd r of
             (RErr e, r') \<Rightarrow> (Inl (errors_New e), r')
           | (rep, r') \<Rightarrow> (Inr rep, r')))"

text \<open>\<open>fmt.Sprint\<close> of a reply element as the client library hands it to Go: nil, int64 or string.\<close>

definition sprint :: "redis_reply \<Rightarrow> string" where
  "sprint rep =
     (case rep of
        RInt n \<Rightarrow> showInt n
      | RBulk s \<Rightarrow> s
      | _ \<Rightarrow> ''<nil>'')"

lemma snd_round_trip_cases:
  obtains "snd (round_trip fate cmd r) = r" | "snd (round_trip fate cmd r) = snd (cmd r)"
  by (cases fate; cases "cmd r"; cases "fst (cmd r)") (auto simp: round_trip_def)

lemma round_trip_Inr:
  "round_trip fate cmd r = (Inr rep, r') \<longleftrightarrow> fate = Delivered \<and> cmd r = (rep, r') \<and> (\<forall>e. rep \<noteq> RErr e)"
  by (cases fate; cases "cmd r"; cases "fst (cmd r)") (auto simp: round_trip_def)

section \<open>A store that meets the contract\<close>

text \<open>Keys with absolute deadlines in milliseconds; a key past its deadline is not visible.\<close>

record store =
  st_now :: int
  st_data :: "string \<rightharpoonup> rvalue \<times> int option"

definition st_view :: "store \<Rightarrow> keyspace" where
  "st_view st k =
     (case st_data st k of
        None \<Rightarrow> None
      | Some (v, None) \<Rightarrow> Some (v, None)
      | Some (v, Some t) \<Rightarrow> if st_now st \<le> t then Some (v, Some (nat (t - st_now st))) else None)"

definition st_put :: "int \<Rightarrow> keyspace \<Rightarrow> string \<rightharpoonup> rvalue \<times> int option" where
  "st_put now kv k =
     (case kv k of
        None \<Rightarrow> None
      | Some (v, d) \<Rightarrow> Some (v, map_option (\<lambda>n. now + int n) d))"

definition st_exec :: "redis_cmd \<Rightarrow> store \<Rightarrow> redis_reply \<times> store" where
  "st_exec c st =
     (case kv_exec c (st_view st) of
        (rep, kv) \<Rightarrow> (rep, st\<lparr>st_data := st_put (st_now st) kv\<rparr>))"

lemma st_view_put: "st_view (st\<lparr>st_data := st_put (st_now st) kv\<rparr>) = kv"
  by (rule ext) (auto simp: st_view_def st_put_def split: option.splits)

lemma kv_exec_spec: "redis_spec c kv (fst (kv_exec c kv)) (snd (kv_exec c kv))"
proof (cases c)
  case (XADD k n f)
  show ?thesis
  proof (cases "kv k")
    case None
    then show ?thesis by (simp add: XADD redis_spec_def xadd_allowed_def kv_exec_def)
  next
    case (Some vd)
    obtain v d where vd: "vd = (v, d)" by (cases vd)
    show ?thesis
    proof (cases v)
      case (VStream s)
      have "\<exists>i j. xs_last s < i \<and> (j = 0 \<or> n + j \<le> Suc (length (xs_entries s))) \<and>
          i = Suc (xs_last s) \<and> j = 0"
        by simp
      with Some VStream show ?thesis
        by (fastforce simp: vd XADD redis_spec_def xadd_allowed_def kv_exec_def)
    qed (simp_all add: Some vd XADD redis_spec_def xadd_allowed_def kv_exec_def)
  qed
qed (simp_all add: redis_spec_def)

interpretation store: redis_service st_exec st_view
proof
  fix c st rep st'
  assume "st_exec c st = (rep, st')"
  then have "rep = fst (kv_exec c (st_view st))" "st_view st' = snd (kv_exec c (st_view st))"
    by (auto simp: st_exec_def st_view_put split: prod.splits)
  then show "redis_spec c (st_view st) rep (st_view st')"
    by (simp add: kv_exec_spec)
qed

end
