(* ===== verification/Calendar.thy ===== *)
theory Calendar
  imports Prelude "HOL-Library.Monad_Syntax"
begin

text \<open>
  What the program uses of Go's calendar: the proleptic Gregorian date of an instant, \<open>Format\<close>
  with the layouts \<open>RFC3339\<close> and \<open>RFC3339Nano\<close> for instants in UTC, and \<open>Parse\<close> with \<open>RFC3339\<close>,
  in the lenient form of \<open>time.Parse\<close> and the strict form that JSON decoding uses. Parsing a
  formatted instant gives it back.
\<close>

section \<open>Dates\<close>

text \<open>Days are counted from 1 January of year 1.\<close>

definition leap_year :: "int \<Rightarrow> bool" where
  "leap_year y \<longleftrightarrow> y mod 4 = 0 \<and> (y mod 100 \<noteq> 0 \<or> y mod 400 = 0)"

definition days_before_year :: "int \<Rightarrow> int" where
  "days_before_year y = 365 * (y - 1) + (y - 1) div 4 - (y - 1) div 100 + (y - 1) div 400"

definition days_in_month :: "int \<Rightarrow> nat \<Rightarrow> int" where
  "days_in_month y m =
     (if m = 2 then (if leap_year y then 29 else 28) else if m \<in> {4, 6, 9, 11} then 30 else 31)"

lemma div_Suc_int: "0 < (k::int) \<Longrightarrow> (z + 1) div k = z div k + (if (z + 1) mod k = 0 then 1 else 0)"
proof -
  assume k: "0 < k"
  have r: "0 \<le> z mod k" "z mod k < k" using k by simp_all
  have e: "z = k * (z div k) + z mod k" by simp
  show ?thesis
  proof (cases "z mod k + 1 = k")
    case True
    then have "z + 1 = k * (z div k) + k" using e by linarith
    then have "z + 1 = (z div k + 1) * k" by (metis distrib_right mult.commute mult_1)
    then show ?thesis using k by (metis dvd_eq_mod_eq_0 dvd_triv_right nonzero_mult_div_cancel_right less_irrefl)
  next
    case False
    then have b: "z mod k + 1 < k" "0 \<le> z mod k + 1" using r by linarith+
    have e': "z + 1 = k * (z div k) + (z mod k + 1)" using e by linarith
    have "(z + 1) div k = z div k" "(z + 1) mod k = z mod k + 1"
      using int_div_pos_eq [OF e' b(2,1)] int_mod_pos_eq [OF e' b(2,1)] by simp_all
    then show ?thesis using r by simp
  qed
qed

lemma days_before_Suc:
  "days_before_year (y + 1) = days_before_year y + (if leap_year y then 366 else 365)"
proof -
  have "y div k = (y - 1) div k + (if y mod k = 0 then 1 else 0)" if "0 < k" for k :: int
    using div_Suc_int [OF that, of "y - 1"] by simp
  note step = this [of 4] this [of 100] this [of 400]
  have "y mod 400 = 0 \<Longrightarrow> y mod 100 = 0" "y mod 100 = 0 \<Longrightarrow> y mod 4 = 0"
    using dvd_trans [of 100 400 y] dvd_trans [of 4 100 y] by (simp_all add: dvd_eq_mod_eq_0)
  moreover have "days_before_year (y + 1) = 365 * y + y div 4 - y div 100 + y div 400"
    by (simp add: days_before_year_def)
  ultimately show ?thesis
    using step unfolding days_before_year_def [of y] leap_year_def by (smt (verit))
qed

function year_scan :: "int \<Rightarrow> int \<Rightarrow> int" where
  "year_scan y d = (if d < days_before_year (y + 1) then y else year_scan (y + 1) d)"
  by pat_completeness auto
termination
  by (relation "measure (\<lambda>(y, d). nat (d - days_before_year y))") (auto simp: days_before_Suc split: if_splits)

declare year_scan.simps [simp del]

text \<open>The scan for the year starts at a year that is not too late, a few years away.\<close>

definition year_of :: "int \<Rightarrow> int" where
  "year_of d = year_scan (if 0 \<le> d then d div 366 + 1 else d div 365) d"

function month_scan :: "int \<Rightarrow> nat \<Rightarrow> int \<Rightarrow> nat \<times> int" where
  "month_scan y m r =
     (if 12 \<le> m \<or> r < days_in_month y m then (m, r + 1) else month_scan y (Suc m) (r - days_in_month y m))"
  by pat_completeness auto
termination
  by (relation "measure (\<lambda>(y, m, r). 12 - m)") auto

declare month_scan.simps [simp del]

definition civil :: "int \<Rightarrow> int \<times> nat \<times> int" where
  "civil d = (let y = year_of d in (y, month_scan y 1 (d - days_before_year y)))"

fun days_before_month :: "int \<Rightarrow> nat \<Rightarrow> int" where
  "days_before_month y 0 = 0"
| "days_before_month y (Suc m) = (if m = 0 then 0 else days_before_month y m + days_in_month y m)"

definition date_days :: "int \<Rightarrow> nat \<Rightarrow> int \<Rightarrow> int" where
  "date_days y m d = days_before_year y + days_before_month y m + d - 1"

lemma year_scan_in:
  "days_before_year y \<le> d \<Longrightarrow>
   days_before_year (year_scan y d) \<le> d \<and> d < days_before_year (year_scan y d + 1)"
  by (induction y d rule: year_scan.induct) (simp add: year_scan.simps)

lemma year_of_in: "days_before_year (year_of d) \<le> d \<and> d < days_before_year (year_of d + 1)"
proof -
  have "days_before_year (d div 366 + 1) \<le> d" if "0 \<le> d"
  proof -
    let ?z = "d div 366"
    have z: "0 \<le> ?z" "366 * ?z \<le> d" using that by simp_all
    have "?z div 4 \<le> ?z div 1" "?z div 400 \<le> ?z div 100" using z(1) by (intro zdiv_mono2; simp)+
    then show ?thesis using z by (simp add: days_before_year_def)
  qed
  moreover have "days_before_year (d div 365) \<le> d" if "\<not> 0 \<le> d"
  proof -
    let ?z = "d div 365 - 1"
    have z: "?z < 0" "365 * ?z + 365 \<le> d" using that by simp_all
    have "?z div 4 \<le> ?z div 100" "?z div 400 \<le> 0" using z(1) by linarith+
    moreover have "days_before_year (d div 365) = 365 * ?z + ?z div 4 - ?z div 100 + ?z div 400"
      by (simp only: days_before_year_def)
    ultimately show ?thesis using z by linarith
  qed
  ultimately show ?thesis unfolding year_of_def by (intro year_scan_in) (auto split: if_splits)
qed

lemma days_in_year: "days_before_month y 13 = (if leap_year y then 366 else 365)"
  by (simp add: eval_nat_numeral days_in_month_def)

lemma days_before_month_Suc: "0 < m \<Longrightarrow> days_before_month y (Suc m) = days_before_month y m + days_in_month y m"
  by simp

lemma days_in_month_pos: "0 < days_in_month y m"
  by (simp add: days_in_month_def)

lemma month_scan_in:
  assumes "0 < m" "m \<le> 12" "0 \<le> r" "r < days_before_month y 13 - days_before_month y m"
    and "month_scan y m r = (m', d)"
  shows "m \<le> m' \<and> m' \<le> 12 \<and> 1 \<le> d \<and> d \<le> days_in_month y m' \<and>
    days_before_month y m' + d - 1 = days_before_month y m + r"
  using assms
proof (induction y m r rule: month_scan.induct)
  case (1 y m r)
  show ?case
  proof (cases "12 \<le> m \<or> r < days_in_month y m")
    case True
    have "days_before_month y 13 = days_before_month y 12 + days_in_month y 12"
      using days_before_month_Suc [of 12 y] by (simp del: days_before_month.simps)
    then show ?thesis
      using True "1.prems" by (auto simp: month_scan.simps [of y m r] simp del: days_before_month.simps)
  next
    case False
    then have "month_scan y (Suc m) (r - days_in_month y m) = (m', d)"
      using "1.prems"(5) by (simp add: month_scan.simps [of y m r])
    then show ?thesis
      using "1.IH" [OF False] False "1.prems" days_before_month_Suc [of m y]
      by (simp del: days_before_month.simps)
  qed
qed

definition valid_date :: "int \<Rightarrow> nat \<Rightarrow> int \<Rightarrow> bool" where
  "valid_date y m d \<longleftrightarrow> 1 \<le> m \<and> m \<le> 12 \<and> 1 \<le> d \<and> d \<le> days_in_month y m"

lemma civil_correct:
  assumes "civil n = (y, m, d)"
  shows "valid_date y m d \<and> date_days y m d = n"
proof -
  have y: "y = year_of n" and md: "month_scan y 1 (n - days_before_year y) = (m, d)"
    using assms by (auto simp: civil_def Let_def)
  have r: "0 \<le> n - days_before_year y" "n - days_before_year y < days_before_month y 13 - days_before_month y 1"
    using year_of_in [of n] unfolding y days_in_year days_before_Suc by simp_all
  from month_scan_in [OF _ _ r md] show ?thesis by (simp add: valid_date_def date_days_def)
qed

section \<open>Formatting\<close>

text \<open>Days from 1 January of year 1 to 1 January 1970.\<close>

definition unix_days :: int where
  "unix_days = 719162"

definition clock :: "time \<Rightarrow> nat \<times> nat \<times> nat" where
  "clock t = (let s = nat (t div second mod 86400) in (s div 3600, s div 60 mod 60, s mod 60))"

definition pad2 :: "nat \<Rightarrow> string" where
  "pad2 n = [digit_char (n div 10 mod 10), digit_char (n mod 10)]"

definition year_text :: "int \<Rightarrow> string" where
  "year_text y =
     (let s = showNat (nat \<bar>y\<bar>) in (if y < 0 then ''-'' else '''') @ replicate (4 - length s) (CHR ''0'') @ s)"

definition date_time :: "time \<Rightarrow> string" where
  "date_time t =
     (case (civil (t div second div 86400 + unix_days), clock t) of
        ((y, m, d), (hour, mi, sec)) \<Rightarrow>
          year_text y @ ''-'' @ pad2 m @ ''-'' @ pad2 (nat d) @ ''T'' @
          pad2 hour @ '':'' @ pad2 mi @ '':'' @ pad2 sec)"

definition format_RFC3339 :: "time \<Rightarrow> string" where
  "format_RFC3339 t = date_time t @ ''Z''"

fun digits :: "nat \<Rightarrow> nat \<Rightarrow> string" where
  "digits 0 n = []"
| "digits (Suc k) n = digits k (n div 10) @ [digit_char (n mod 10)]"

definition fraction :: "nat \<Rightarrow> string" where
  "fraction ns =
     (if ns = 0 then '''' else ''.'' @ rev (dropWhile (\<lambda>c. c = CHR ''0'') (rev (digits 9 ns))))"

definition format_RFC3339Nano :: "time \<Rightarrow> string" where
  "format_RFC3339Nano t = date_time t @ fraction (nat (t mod second)) @ ''Z''"

section \<open>Parsing\<close>

text \<open>The pieces consume a prefix of the input and return the rest.\<close>

definition expect :: "char \<Rightarrow> string \<Rightarrow> string option" where
  "expect c s = (case s of x # r \<Rightarrow> if x = c then Some r else None | [] \<Rightarrow> None)"

definition getdigit :: "string \<Rightarrow> (nat \<times> string) option" where
  "getdigit s = (case s of c # r \<Rightarrow> map_option (\<lambda>d. (d, r)) (digit_val c) | [] \<Rightarrow> None)"

text \<open>\<open>getnum\<close>: two digits, or one digit where the form is not fixed.\<close>

definition getnum :: "bool \<Rightarrow> string \<Rightarrow> (nat \<times> string) option" where
  "getnum fixed s = do {
     (a, r) \<leftarrow> getdigit s;
     (case getdigit r of
        Some (b, r') \<Rightarrow> Some (10 * a + b, r')
      | None \<Rightarrow> if fixed then None else Some (a, r))
   }"

definition getyear :: "string \<Rightarrow> (nat \<times> string) option" where
  "getyear s = do {
     (a, r1) \<leftarrow> getdigit s; (b, r2) \<leftarrow> getdigit r1; (c, r3) \<leftarrow> getdigit r2; (d, r4) \<leftarrow> getdigit r3;
     Some (1000 * a + 100 * b + 10 * c + d, r4)
   }"

definition is_digit :: "char \<Rightarrow> bool" where
  "is_digit c \<longleftrightarrow> digit_val c \<noteq> None"

definition digits_value :: "string \<Rightarrow> nat" where
  "digits_value s = foldl (\<lambda>n c. 10 * n + (case digit_val c of Some d \<Rightarrow> d | None \<Rightarrow> 0)) 0 s"

text \<open>\<open>parseNanoseconds\<close> keeps nine digits and scales by the missing ones.\<close>

definition getfraction :: "bool \<Rightarrow> string \<Rightarrow> nat \<times> string" where
  "getfraction strict s =
     (case s of
        c # d # r \<Rightarrow>
          if (c = CHR ''.'' \<or> \<not> strict \<and> c = CHR '','') \<and> is_digit d
          then (let ds = take 9 (takeWhile is_digit (d # r))
                in (digits_value ds * 10 ^ (9 - length ds), dropWhile is_digit (d # r)))
          else (0, s)
      | _ \<Rightarrow> (0, s))"

text \<open>The zone: \<open>Z\<close>, or a signed offset in hours and minutes; the result is in seconds.\<close>

definition getzone :: "bool \<Rightarrow> string \<Rightarrow> (int \<times> string) option" where
  "getzone strict s =
     (case s of
        [] \<Rightarrow> None
      | c # r \<Rightarrow>
          if c = CHR ''Z'' then Some (0, r)
          else do {
            (hr, r1) \<leftarrow> getnum True r;
            r2 \<leftarrow> expect (CHR '':'') r1;
            (mm, r3) \<leftarrow> getnum True r2;
            if hr > (if strict then 23 else 24) \<or> mm > (if strict then 59 else 60) then None
            else if c = CHR ''+'' then Some (int (hr * 60 + mm) * 60, r3)
            else if c = CHR ''-'' then Some (- (int (hr * 60 + mm) * 60), r3)
            else None
          })"

definition parse_RFC3339 :: "bool \<Rightarrow> string \<Rightarrow> time option" where
  "parse_RFC3339 strict s = do {
     (year, s1) \<leftarrow> getyear s;
     s2 \<leftarrow> expect (CHR ''-'') s1;
     (month, s3) \<leftarrow> getnum True s2;
     s4 \<leftarrow> expect (CHR ''-'') s3;
     (day, s5) \<leftarrow> getnum True s4;
     s6 \<leftarrow> expect (CHR ''T'') s5;
     (hour, s7) \<leftarrow> getnum strict s6;
     s8 \<leftarrow> expect (CHR '':'') s7;
     (mi, s9) \<leftarrow> getnum True s8;
     s10 \<leftarrow> expect (CHR '':'') s9;
     (sec, s11) \<leftarrow> getnum True s10;
     let (ns, s12) = getfraction strict s11;
     (off, s13) \<leftarrow> getzone strict s12;
     if s13 \<noteq> [] \<or> \<not> valid_date (int year) month (int day) \<or> 23 < hour \<or> 59 < mi \<or> 59 < sec then None
     else Some ((((date_days (int year) month (int day) - unix_days) * 86400
                  + int (hour * 3600 + mi * 60 + sec) - off) * second) + int ns)
   }"
section \<open>Round trips\<close>

lemma getdigit_digit [simp]: "d < 10 \<Longrightarrow> getdigit (digit_char d # r) = Some (d, r)"
  by (simp add: getdigit_def)

lemma expect_same [simp]: "expect c (c # r) = Some r"
  by (simp add: expect_def)

lemma getnum_pad2: "n < 100 \<Longrightarrow> getnum fixed (pad2 n @ r) = Some (n, r)"
  by (simp add: getnum_def pad2_def)

lemma digits_4: "digits 4 n =
    [digit_char (n div 1000 mod 10), digit_char (n div 100 mod 10), digit_char (n div 10 mod 10), digit_char (n mod 10)]"
proof -
  have "digits (Suc (Suc (Suc (Suc 0)))) n = digits 4 n" by (rule arg_cong2 [of _ _ _ _ digits]) simp_all
  then show ?thesis by (simp add: div_mult2_eq [symmetric])
qed

lemma year_text_digits: "n < 10000 \<Longrightarrow> year_text (int n) = digits 4 n"
proof -
  assume n: "n < 10000"
  have s: "showNat n =
     (if n < 10 then [digit_char n]
      else if n < 100 then [digit_char (n div 10), digit_char (n mod 10)]
      else if n < 1000 then [digit_char (n div 100), digit_char (n div 10 mod 10), digit_char (n mod 10)]
      else [digit_char (n div 1000), digit_char (n div 100 mod 10), digit_char (n div 10 mod 10), digit_char (n mod 10)])"
    using n by (auto simp: showNat.simps div_mult2_eq [symmetric] div_less_iff_less_mult)
  have z: "digit_char 0 = CHR ''0''" by (simp add: digit_char_def char_of_def bit_0)
  consider "n < 10" | "10 \<le> n" "n < 100" | "100 \<le> n" "n < 1000" | "1000 \<le> n" using n by linarith
  then show ?thesis
    by cases (use n z in \<open>simp_all add: digits_4 s year_text_def Let_def numeral_2_eq_2 numeral_3_eq_3\<close>)
qed

lemma getyear_text: "n < 10000 \<Longrightarrow> getyear (year_text (int n) @ r) = Some (n, r)"
proof -
  assume n: "n < 10000"
  have m: "n div 1000 mod 10 = n div 1000" "n div 1000 < 10" using n by simp_all
  have "10 * (n div 10) + n mod 10 = n" by simp
  moreover have "10 * (n div 100) + n div 10 mod 10 = n div 10" "10 * (n div 1000) + n div 100 mod 10 = n div 100"
    using mult_div_mod_eq [of 10 "n div 10"] mult_div_mod_eq [of 10 "n div 10 div 10"]
    by (simp_all add: div_mult2_eq [symmetric])
  ultimately have "1000 * (n div 1000) + 100 * (n div 100 mod 10) + 10 * (n div 10 mod 10) + n mod 10 = n"
    by linarith
  then show ?thesis
    by (simp add: year_text_digits n getyear_def digits_4 m)
qed

lemma digits_length [simp]: "length (digits k n) = k"
  by (induction k arbitrary: n) auto

lemma digits_are [simp]: "c \<in> set (digits k n) \<Longrightarrow> is_digit c"
  by (induction k arbitrary: n) (auto simp: is_digit_def)

lemma digits_value_append: "digits_value (s @ t) = digits_value s * 10 ^ length t + digits_value t"
proof (induction t rule: rev_induct)
  case Nil
  then show ?case by (simp add: digits_value_def)
next
  case (snoc c t)
  have "digits_value (u @ [c]) = 10 * digits_value u + (case digit_val c of Some d \<Rightarrow> d | None \<Rightarrow> 0)" for u
    by (simp add: digits_value_def)
  note this [of "s @ t"] this [of t]
  then show ?case using snoc by (simp add: algebra_simps)
qed

lemma digits_value_zeros: "digits_value (replicate k (CHR ''0'')) = 0"
  by (induction k) (simp_all add: digits_value_def digit_val_def)

lemma digits_value_digits: "n < 10 ^ k \<Longrightarrow> digits_value (digits k n) = n"
proof (induction k arbitrary: n)
  case 0
  then show ?case by (simp add: digits_value_def)
next
  case (Suc k)
  have "n div 10 < 10 ^ k" using Suc.prems by (simp add: div_less_iff_less_mult mult.commute)
  moreover have "digits_value [digit_char (n mod 10)] = n mod 10" by (simp add: digits_value_def)
  ultimately show ?case using Suc.IH [of "n div 10"] by (simp add: digits_value_append)
qed

lemma getfraction_fraction:
  assumes "ns < 1000000000"
  shows "getfraction strict (fraction ns @ ''Z'') = (ns, ''Z'')"
proof (cases "ns = 0")
  case True
  then show ?thesis by (simp add: fraction_def getfraction_def)
next
  case False
  let ?ds = "rev (dropWhile (\<lambda>c. c = CHR ''0'') (rev (digits 9 ns)))"
  let ?zs = "rev (takeWhile (\<lambda>c. c = CHR ''0'') (rev (digits 9 ns)))"
  have split: "digits 9 ns = ?ds @ ?zs"
    by (metis rev_append rev_rev_ident takeWhile_dropWhile_id)
  have zs: "?zs = replicate (length ?zs) (CHR ''0'')"
    by (rule replicate_eqI [symmetric, THEN sym]) (auto dest: set_takeWhileD)
  have len: "length ?ds + length ?zs = 9"
    using arg_cong [OF split, of length] by simp
  have "ns = digits_value (digits 9 ns)" using assms by (simp add: digits_value_digits)
  also have "\<dots> = digits_value ?ds * 10 ^ length ?zs + digits_value ?zs"
    using arg_cong [OF split, of digits_value] by (simp only: digits_value_append)
  also have "digits_value ?zs = 0" using digits_value_zeros zs by metis
  finally have val: "digits_value ?ds * 10 ^ (9 - length ?ds) = ns" using len by (metis add_diff_cancel_left' add_0_right)
  then obtain d r where dr: "?ds = d # r"
    using False by (cases ?ds) (auto simp: digits_value_def)
  have "is_digit c" if "c \<in> set ?ds" for c
    using that arg_cong [OF split, of set] digits_are [of c 9 ns] by auto
  moreover have Z: "\<not> is_digit (CHR ''Z'')" by (simp add: is_digit_def digit_val_def)
  ultimately have dig: "takeWhile is_digit (?ds @ ''Z'') = ?ds" "dropWhile is_digit (?ds @ ''Z'') = ''Z''" "is_digit d"
    using dr takeWhile_append2 [of ?ds is_digit "''Z''"] dropWhile_append2 [of ?ds is_digit "''Z''"] Z by simp_all
  have "getfraction strict (fraction ns @ ''Z'') =
      (digits_value (take 9 ?ds) * 10 ^ (9 - length (take 9 ?ds)), ''Z'')"
    using dig False unfolding dr by (simp add: fraction_def getfraction_def dr Let_def)
  then show ?thesis using val len by simp
qed

lemma clock_parts:
  assumes "clock t = (hour, mi, sec)"
  shows "hour < 24 \<and> mi < 60 \<and> sec < 60 \<and> int (hour * 3600 + mi * 60 + sec) = t div second mod 86400"
proof -
  define s where "s = nat (t div second mod 86400)"
  have s: "int s = t div second mod 86400" "s < 86400" by (simp_all add: s_def nat_less_iff)
  have p: "hour = s div 3600" "mi = s div 60 mod 60" "sec = s mod 60"
    using assms by (simp_all add: clock_def s_def Let_def)
  have "60 * (s div 60) + s mod 60 = s" by simp
  moreover have "60 * (s div 3600) + s div 60 mod 60 = s div 60"
    using mult_div_mod_eq [of 60 "s div 60"] by (simp add: div_mult2_eq [symmetric])
  ultimately have "hour * 3600 + mi * 60 + sec = s" unfolding p by linarith
  then show ?thesis using s p by auto
qed

text \<open>An instant whose year has four digits, the years that JSON encoding accepts.\<close>

definition four_digit_year :: "time \<Rightarrow> bool" where
  "four_digit_year t \<longleftrightarrow> 0 \<le> fst (civil (t div second div 86400 + unix_days)) \<and>
     fst (civil (t div second div 86400 + unix_days)) \<le> 9999"

lemma parse_date_time:
  assumes "four_digit_year t" "getfraction strict rest = (ns, ''Z'')"
  shows "parse_RFC3339 strict (date_time t @ rest) = Some (t div second * second + int ns)"
proof -
  obtain y m d where c: "civil (t div second div 86400 + unix_days) = (y, m, d)" by (metis prod.exhaust)
  obtain hour mi sec where k: "clock t = (hour, mi, sec)" by (metis prod.exhaust)
  have y: "0 \<le> y" "y \<le> 9999" using assms(1) c by (simp_all add: four_digit_year_def)
  then obtain n where n: "y = int n" "n < 10000" by (cases y) auto
  note v = civil_correct [OF c]
  have md: "m < 100" "nat d < 100" "int (nat d) = d"
    using v by (auto simp: valid_date_def days_in_month_def split: if_splits)
  note kp = clock_parts [OF k]
  have "(date_days y m d - unix_days) * 86400 + int (hour * 3600 + mi * 60 + sec) = t div second"
    using v kp by simp
  then show ?thesis
    using v kp n md assms(2)
    by (simp add: parse_RFC3339_def date_time_def c k getyear_text getnum_pad2 getzone_def)
qed

theorem parse_RFC3339Nano: "four_digit_year t \<Longrightarrow> parse_RFC3339 strict (format_RFC3339Nano t) = Some t"
  using parse_date_time [OF _ getfraction_fraction, of t "nat (t mod second)" strict]
  by (simp add: format_RFC3339Nano_def nat_less_iff)

theorem parse_RFC3339_seconds:
  "four_digit_year t \<Longrightarrow> parse_RFC3339 strict (format_RFC3339 t) = Some (t div second * second)"
  using parse_date_time [of t strict "''Z''" 0] by (simp add: format_RFC3339_def getfraction_def)

end
