(* ===== verification/JSON_Strings.thy ===== *)
theory JSON_Strings
  imports Calendar
begin

text \<open>
  String tokens of \<open>encoding/json\<close>: quoting with the coercion to valid UTF-8, the scanner that
  checks a token, and unquoting. The scanner accepts every quoted string, and unquoting a quoted
  string that is valid UTF-8 gives it back.
\<close>

section \<open>UTF-8\<close>

text \<open>Strings are bytes; \<open>byte\<close> is the number of a byte.\<close>

abbreviation byte :: "char \<Rightarrow> nat" where
  "byte c \<equiv> of_char c"

definition continuation :: "char \<Rightarrow> bool" where
  "continuation c \<longleftrightarrow> 128 \<le> byte c \<and> byte c \<le> 191"

text \<open>The length of the well-formed rune a string starts with, 0 if there is none.\<close>

fun rune_len :: "string \<Rightarrow> nat" where
  "rune_len [] = 0"
| "rune_len (a # s) =
     (if byte a < 128 then 1
      else if 194 \<le> byte a \<and> byte a \<le> 223 then
        (case s of b # _ \<Rightarrow> if continuation b then 2 else 0 | [] \<Rightarrow> 0)
      else if 224 \<le> byte a \<and> byte a \<le> 239 then
        (case s of
           b # c # _ \<Rightarrow>
             if continuation b \<and> continuation c \<and> (byte a = 224 \<longrightarrow> 160 \<le> byte b) \<and> (byte a = 237 \<longrightarrow> byte b \<le> 159)
             then 3 else 0
         | _ \<Rightarrow> 0)
      else if 240 \<le> byte a \<and> byte a \<le> 244 then
        (case s of
           b # c # d # _ \<Rightarrow>
             if continuation b \<and> continuation c \<and> continuation d \<and>
                (byte a = 240 \<longrightarrow> 144 \<le> byte b) \<and> (byte a = 244 \<longrightarrow> byte b \<le> 143)
             then 4 else 0
         | _ \<Rightarrow> 0)
      else 0)"

definition encode_rune :: "nat \<Rightarrow> string" where
  "encode_rune n = map char_of
     (if n < 128 then [n]
      else if n < 2048 then [192 + n div 64, 128 + n mod 64]
      else if 55296 \<le> n \<and> n \<le> 57343 \<or> 1114111 < n then [239, 191, 189]
      else if n < 65536 then [224 + n div 4096, 128 + n div 64 mod 64, 128 + n mod 64]
      else [240 + n div 262144, 128 + n div 4096 mod 64, 128 + n div 64 mod 64, 128 + n mod 64])"

definition replacement :: string where
  "replacement = map char_of [239, 191, 189 :: nat]"

function valid_utf8 :: "string \<Rightarrow> bool" where
  "valid_utf8 s = (if s = [] then True else if rune_len s = 0 then False else valid_utf8 (drop (rune_len s) s))"
  by pat_completeness auto
termination
  by (relation "measure length") (auto simp: neq_Nil_conv)

declare valid_utf8.simps [simp del]

lemma rune_len_ascii [simp]: "byte a < 128 \<Longrightarrow> rune_len (a # s) = 1"
  by simp

lemma rune_len_pos_bound: "rune_len s \<le> length s"
  by (cases s rule: rune_len.cases) (auto split: list.splits)

text \<open>The runes U+2028 and U+2029, which the encoder escapes.\<close>

definition line_separator :: "string \<Rightarrow> nat option" where
  "line_separator s =
     (case s of
        a # b # c # _ \<Rightarrow>
          if byte a = 226 \<and> byte b = 128 \<and> (byte c = 168 \<or> byte c = 169) then Some (byte c - 160) else None
      | _ \<Rightarrow> None)"

section \<open>String tokens\<close>

abbreviation quote_char :: char where
  "quote_char \<equiv> CHR 0x22"

abbreviation backslash :: char where
  "backslash \<equiv> CHR 0x5C"

definition hex_digit :: "nat \<Rightarrow> char" where
  "hex_digit n = (if n < 10 then char_of (48 + n) else char_of (87 + n))"

definition hex_val :: "char \<Rightarrow> nat option" where
  "hex_val c =
     (if 48 \<le> byte c \<and> byte c \<le> 57 then Some (byte c - 48)
      else if 97 \<le> byte c \<and> byte c \<le> 102 then Some (byte c - 87)
      else if 65 \<le> byte c \<and> byte c \<le> 70 then Some (byte c - 55)
      else None)"

definition unicode_escape :: "nat \<Rightarrow> string" where
  "unicode_escape n = [backslash, CHR ''u'', hex_digit (n div 4096 mod 16), hex_digit (n div 256 mod 16),
     hex_digit (n div 16 mod 16), hex_digit (n mod 16)]"

definition html_unsafe :: "char \<Rightarrow> bool" where
  "html_unsafe c \<longleftrightarrow> c = CHR ''<'' \<or> c = CHR ''>'' \<or> c = CHR ''&''"

definition escape_ascii :: "char \<Rightarrow> string" where
  "escape_ascii c =
     (if c = quote_char \<or> c = backslash then [backslash, c]
      else if byte c = 8 then [backslash, CHR ''b'']
      else if byte c = 12 then [backslash, CHR ''f'']
      else if byte c = 10 then [backslash, CHR ''n'']
      else if byte c = 13 then [backslash, CHR ''r'']
      else if byte c = 9 then [backslash, CHR ''t'']
      else if byte c < 32 \<or> html_unsafe c then unicode_escape (byte c)
      else [c])"

text \<open>\<open>appendString\<close> between the quotes.\<close>

function quote_body :: "string \<Rightarrow> string" where
  "quote_body [] = []"
| "quote_body (c # s) =
     (if byte c < 128 then escape_ascii c @ quote_body s
      else
        (case rune_len (c # s) of
           0 \<Rightarrow> unicode_escape 65533 @ quote_body s
         | Suc n \<Rightarrow>
             (case line_separator (c # s) of
                Some k \<Rightarrow> unicode_escape (8224 + k)
              | None \<Rightarrow> take (Suc n) (c # s)) @ quote_body (drop n s)))"
  by pat_completeness auto
termination
  by (relation "measure length") auto

definition quote :: "string \<Rightarrow> string" where
  "quote s = [quote_char] @ quote_body s @ [quote_char]"

text \<open>\<open>getu4\<close>: the value of a four-digit escape at the start of a string.\<close>

definition getu4 :: "string \<Rightarrow> nat option" where
  "getu4 s =
     (case s of
        a # u # h1 # h2 # h3 # h4 # _ \<Rightarrow>
          if a = backslash \<and> u = CHR ''u'' then
            (case (hex_val h1, hex_val h2, hex_val h3, hex_val h4) of
               (Some w, Some x, Some y, Some z) \<Rightarrow> Some (((w * 16 + x) * 16 + y) * 16 + z)
             | _ \<Rightarrow> None)
          else None
      | _ \<Rightarrow> None)"

definition simple_escape :: "char \<Rightarrow> bool" where
  "simple_escape e \<longleftrightarrow>
     e \<in> {CHR ''b'', CHR ''f'', CHR ''n'', CHR ''r'', CHR ''t'', backslash, CHR ''/'', quote_char}"

text \<open>
  The scanner. \<open>scan_piece\<close> is the length of the byte or escape a token continues with, 0 if it is
  not allowed; \<open>scan_string\<close> is the token up to the closing quote, with escapes checked but kept.
\<close>

definition scan_piece :: "string \<Rightarrow> nat" where
  "scan_piece s =
     (case s of
        [] \<Rightarrow> 0
      | c # r \<Rightarrow>
          if byte c < 32 \<or> c = quote_char then 0
          else if c = backslash then
            (case r of
               [] \<Rightarrow> 0
             | e # _ \<Rightarrow>
                 if e = CHR ''u'' then (if getu4 s = None then 0 else 6)
                 else if simple_escape e then 2 else 0)
          else 1)"

function scan_string :: "string \<Rightarrow> (string \<times> string) option" where
  "scan_string s =
     (case s of
        [] \<Rightarrow> None
      | c # r \<Rightarrow>
          if c = quote_char then Some ([], r)
          else if scan_piece s = 0 then None
          else map_option (\<lambda>(t, u). (take (scan_piece s) s @ t, u)) (scan_string (drop (scan_piece s) s)))"
  by pat_completeness auto
termination
  by (relation "measure length") auto

declare scan_string.simps [simp del]

text \<open>\<open>unquoteBytes\<close> on the body of a scanned token.\<close>

definition unescape_char :: "char \<Rightarrow> char" where
  "unescape_char e =
     (if e = CHR ''b'' then char_of (8::nat) else if e = CHR ''f'' then char_of (12::nat)
      else if e = CHR ''n'' then char_of (10::nat) else if e = CHR ''r'' then char_of (13::nat)
      else if e = CHR ''t'' then char_of (9::nat) else e)"

function unquote :: "string \<Rightarrow> string" where
  "unquote [] = []"
| "unquote (c # s) =
     (if c = backslash then
        (case getu4 (c # s) of
           Some rr \<Rightarrow>
             (if 55296 \<le> rr \<and> rr \<le> 57343 then
                (case getu4 (drop 5 s) of
                   Some rr1 \<Rightarrow>
                     if rr \<le> 56319 \<and> 56320 \<le> rr1 \<and> rr1 \<le> 57343
                     then encode_rune (65536 + (rr - 55296) * 1024 + (rr1 - 56320)) @ unquote (drop 11 s)
                     else replacement @ unquote (drop 5 s)
                 | None \<Rightarrow> replacement @ unquote (drop 5 s))
              else encode_rune rr @ unquote (drop 5 s))
         | None \<Rightarrow> (case s of [] \<Rightarrow> [] | e # r \<Rightarrow> unescape_char e # unquote r))
      else if byte c < 128 then c # unquote s
      else
        (case rune_len (c # s) of
           0 \<Rightarrow> replacement @ unquote s
         | Suc n \<Rightarrow> take (Suc n) (c # s) @ unquote (drop n s)))"
  by pat_completeness auto
termination
  by (relation "measure length") auto

subsection \<open>Quoting is inverted by the scanner and by unquoting\<close>

lemma hex_digit_val [simp]: "n < 16 \<Longrightarrow> hex_val (hex_digit n) = Some n"
  by (simp add: hex_val_def hex_digit_def)

lemma hex_digit_plain [simp]: "n < 16 \<Longrightarrow> hex_digit n \<noteq> quote_char"  "n < 16 \<Longrightarrow> hex_digit n \<noteq> backslash"
  by (auto dest!: arg_cong [where f = hex_val]) (simp_all add: hex_val_def)

lemma getu4_escape [simp]: "n < 65536 \<Longrightarrow> getu4 (unicode_escape n @ s) = Some n"
proof -
  assume n: "n < 65536"
  have e: "n div 16 * 16 + n mod 16 = n" "n div 256 * 16 + n div 16 mod 16 = n div 16"
    "n div 4096 * 16 + n div 256 mod 16 = n div 256" "n div 4096 mod 16 = n div 4096"
    using n div_mult_mod_eq [of "n div 16" 16] div_mult_mod_eq [of "n div 16 div 16" 16]
    by (simp_all add: div_mult2_eq [symmetric] del: div_mult_mod_eq)
  have "getu4 (unicode_escape n @ s) =
      Some (((n div 4096 mod 16 * 16 + n div 256 mod 16) * 16 + n div 16 mod 16) * 16 + n mod 16)"
    by (simp add: getu4_def unicode_escape_def del: mod_less)
  then show ?thesis by (simp only: e)
qed

lemma scan_quote_char [simp]: "scan_string (quote_char # r) = Some ([], r)"
  by (simp add: scan_string.simps [of "quote_char # r"])

text \<open>A piece that the scanner passes over.\<close>

definition scans_over :: "string \<Rightarrow> bool" where
  "scans_over p \<longleftrightarrow> (\<forall>s. scan_string (p @ s) = map_option (\<lambda>(t, u). (p @ t, u)) (scan_string s))"

lemma scans_over_append: "scans_over p \<Longrightarrow> scans_over q \<Longrightarrow> scans_over (p @ q)"
  unfolding scans_over_def
proof
  fix s
  assume "\<forall>s. scan_string (p @ s) = map_option (\<lambda>(t, u). (p @ t, u)) (scan_string s)"
    and "\<forall>s. scan_string (q @ s) = map_option (\<lambda>(t, u). (q @ t, u)) (scan_string s)"
  then show "scan_string ((p @ q) @ s) = map_option (\<lambda>(t, u). ((p @ q) @ t, u)) (scan_string s)"
    by (cases "scan_string s") (simp_all add: case_prod_beta)
qed

lemma scans_over_Nil [simp]: "scans_over []"
  by (simp add: scans_over_def option.map_id)

text \<open>Tokens are made of pieces, whatever follows them.\<close>

definition is_piece :: "string \<Rightarrow> bool" where
  "is_piece p \<longleftrightarrow> p \<noteq> [] \<and> scan_piece p = length p"

lemma getu4_shape:
  assumes "getu4 s = Some n"
  obtains h1 h2 h3 h4 r where "s = [backslash, CHR ''u'', h1, h2, h3, h4] @ r"
    "\<And>r'. getu4 ([backslash, CHR ''u'', h1, h2, h3, h4] @ r') = Some n"
proof -
  have "\<exists>a u h1 h2 h3 h4 r. s = a # u # h1 # h2 # h3 # h4 # r"
    using assms unfolding getu4_def by (simp split: list.splits)
  then obtain a u h1 h2 h3 h4 r where s: "s = a # u # h1 # h2 # h3 # h4 # r" by blast
  show thesis
    by (rule that [of h1 h2 h3 h4 r]) (use assms s in \<open>auto simp: getu4_def split: if_splits\<close>)
qed

lemma getu4_append: "getu4 p = Some n \<Longrightarrow> getu4 (p @ s) = Some n"
  by (erule getu4_shape) simp

lemma scan_piece_append: "is_piece p \<Longrightarrow> scan_piece (p @ s) = length p"
proof -
  assume p: "is_piece p"
  then obtain c r where c: "p = c # r" by (cases p) (auto simp: is_piece_def)
  show ?thesis
  proof (cases "c = backslash")
    case False
    then show ?thesis using p c by (auto simp: is_piece_def scan_piece_def split: if_splits)
  next
    case bs: True
    then obtain e r' where e: "r = e # r'" using p c by (cases r) (auto simp: is_piece_def scan_piece_def)
    show ?thesis
    proof (cases "e = CHR ''u''")
      case True
      then obtain n where "getu4 p = Some n" using p c bs e by (auto simp: is_piece_def scan_piece_def split: if_splits)
      then have "getu4 p \<noteq> None" "getu4 (p @ s) \<noteq> None" using getu4_append by auto
      then show ?thesis using p True unfolding is_piece_def scan_piece_def c bs e by (auto split: if_splits)
    next
      case False
      then show ?thesis using p unfolding is_piece_def scan_piece_def c bs e by simp
    qed
  qed
qed

lemma is_piece_take:
  assumes "scan_piece s \<noteq> 0"
  shows "is_piece (take (scan_piece s) s) \<and> scan_piece s \<le> length s \<and> hd s \<noteq> quote_char \<and> s \<noteq> []"
proof (cases "scan_piece s = 6")
  case True
  then obtain n where "getu4 s = Some n" by (auto simp: scan_piece_def split: list.splits if_splits)
  then show ?thesis
  proof (rule getu4_shape)
    fix h1 h2 h3 h4 r
    assume s: "s = [backslash, CHR ''u'', h1, h2, h3, h4] @ r"
      "\<And>r'. getu4 ([backslash, CHR ''u'', h1, h2, h3, h4] @ r') = Some n"
    show ?thesis using True s(2) [of "[]"] by (simp add: s(1) is_piece_def scan_piece_def)
  qed
next
  case False
  obtain c r where s: "s = c # r" using assms by (cases s) (auto simp: scan_piece_def)
  have c: "32 \<le> byte c" "c \<noteq> quote_char" using assms by (simp_all add: s scan_piece_def split: if_splits)
  show ?thesis
  proof (cases "c = backslash")
    case True
    then obtain e r' where e: "r = e # r'" "simple_escape e" "e \<noteq> CHR ''u''"
      using assms False by (cases r) (auto simp: s scan_piece_def split: if_splits)
    then have "scan_piece s = 2" using True by (simp add: s scan_piece_def)
    then show ?thesis using e True by (simp add: s is_piece_def scan_piece_def)
  next
    case plain: False
    then have "scan_piece s = 1" using c by (simp add: s scan_piece_def)
    then show ?thesis using c plain by (simp add: s is_piece_def scan_piece_def)
  qed
qed

lemma scans_over_piece: "is_piece p \<Longrightarrow> scans_over p"
proof -
  assume p: "is_piece p"
  then have "hd p \<noteq> quote_char" "p \<noteq> []"
    by (auto simp: is_piece_def scan_piece_def split: list.splits if_splits)
  then have "scan_string (p @ s) = map_option (\<lambda>(t, u). (p @ t, u)) (scan_string s)" for s
    using scan_piece_append [OF p, of s] by (subst scan_string.simps) (cases p; simp)
  then show ?thesis by (simp add: scans_over_def)
qed

lemma is_piece_plain: "32 \<le> byte c \<Longrightarrow> c \<noteq> quote_char \<Longrightarrow> c \<noteq> backslash \<Longrightarrow> is_piece [c]"
  by (simp add: is_piece_def scan_piece_def)

lemma is_piece_escape: "n < 65536 \<Longrightarrow> is_piece (unicode_escape n)"
  using getu4_escape [of n "[]"] by (simp add: is_piece_def scan_piece_def unicode_escape_def)

lemma is_piece_simple: "simple_escape e \<Longrightarrow> is_piece [backslash, e]"
  by (auto simp: is_piece_def scan_piece_def simple_escape_def)

lemmas scans_over_plain = scans_over_piece [OF is_piece_plain]
  and scans_over_escape = scans_over_piece [OF is_piece_escape]

lemma scans_over_high: "\<forall>c \<in> set p. 128 \<le> byte c \<Longrightarrow> scans_over p"
proof (induction p)
  case (Cons c p)
  then have "scans_over [c]" by (intro scans_over_plain) auto
  from scans_over_append [OF this, of p] Cons show ?case by simp
qed simp

lemma scans_over_escape_ascii: "scans_over (escape_ascii c)"
proof -
  have "byte c < 65536" by (rule less_trans [OF nat_of_char_less_256]) simp
  then show ?thesis
    using scans_over_escape [of "byte c"] scans_over_plain [of c] scans_over_piece [OF is_piece_simple]
    by (simp add: escape_ascii_def simple_escape_def not_less)
qed

lemma rune_bytes_high:
  assumes "rune_len (c # s) = Suc n" "128 \<le> byte c"
  shows "\<forall>x \<in> set (take (Suc n) (c # s)). 128 \<le> byte x"
  using assms by (auto simp: continuation_def split: if_splits list.splits)

lemma line_separator_range: "line_separator s = Some k \<Longrightarrow> 8224 + k < 65536"
  by (auto simp: line_separator_def split: list.splits if_splits)

lemma scans_over_quote_body: "scans_over (quote_body s)"
proof (induction s rule: quote_body.induct)
  case 1
  then show ?case by simp
next
  case (2 c s)
  show ?case
  proof (cases "byte c < 128")
    case True
    then show ?thesis using 2(1) scans_over_append [OF scans_over_escape_ascii] by simp
  next
    case high: False
    show ?thesis
    proof (cases "rune_len (c # s)")
      case 0
      then show ?thesis using high 2(2) [OF high 0] scans_over_append [OF scans_over_escape [of 65533]] by (simp del: rune_len.simps)
    next
      case (Suc n)
      have "scans_over (take (Suc n) (c # s))"
        using rune_bytes_high [OF Suc] high by (intro scans_over_high) simp
      then have "scans_over (case line_separator (c # s) of Some k \<Rightarrow> unicode_escape (8224 + k) | None \<Rightarrow> take (Suc n) (c # s))"
        using scans_over_escape line_separator_range by (auto split: option.split)
      from scans_over_append [OF this 2(3) [OF high Suc]] show ?thesis
        using high Suc by (simp del: rune_len.simps)
    qed
  qed
qed

lemma scan_quote: "scan_string (quote_body s @ quote_char # r) = Some (quote_body s, r)"
  using scans_over_quote_body [of s] by (simp add: scans_over_def)
lemma getu4_other: "e \<noteq> CHR ''u'' \<Longrightarrow> getu4 (backslash # e # r) = None"
  by (simp add: getu4_def split: list.split)

lemma unquote_escape:
  "n < 65536 \<Longrightarrow> \<not> (55296 \<le> n \<and> n \<le> 57343) \<Longrightarrow> unquote (unicode_escape n @ t) = encode_rune n @ unquote t"
  using getu4_escape [of n t] by (cases "55296 \<le> n") (simp_all add: unicode_escape_def)

lemma encode_rune_ascii: "byte c < 128 \<Longrightarrow> encode_rune (byte c) = [c]"
  by (simp add: encode_rune_def)

lemma unquote_escape_ascii:
  assumes "byte c < 128"
  shows "unquote (escape_ascii c @ t) = c # unquote t"
proof -
  have c: "c = char_of (byte c)" by simp
  have short: "unquote ([backslash, e] @ t) = unescape_char e # unquote t" if "e \<noteq> CHR ''u''" for e
    using that by (simp add: getu4_other)
  consider "c = quote_char \<or> c = backslash" | "byte c = 8" | "byte c = 12" | "byte c = 10" | "byte c = 13" | "byte c = 9"
    | "c \<noteq> quote_char" "c \<noteq> backslash" "byte c \<notin> {8, 9, 10, 12, 13}" by auto
  then show ?thesis
  proof cases
    case 1
    then show ?thesis using short [of c] by (auto simp: escape_ascii_def unescape_char_def)
  next
    case 7
    show ?thesis
    proof (cases "byte c < 32 \<or> html_unsafe c")
      case True
      then show ?thesis
        using 7 assms unquote_escape [of "byte c" t] encode_rune_ascii [OF assms] by (simp add: escape_ascii_def)
    next
      case False
      then show ?thesis using 7 assms by (simp add: escape_ascii_def)
    qed
  next
    case 2
    then have "escape_ascii c = [backslash, CHR ''b'']" by (auto simp: escape_ascii_def)
    moreover have "c = unescape_char (CHR ''b'')" using c 2 by (simp add: unescape_char_def)
    ultimately show ?thesis using short [of "CHR ''b''"] by (simp del: unquote.simps)
  next
    case 3
    then have "escape_ascii c = [backslash, CHR ''f'']" by (auto simp: escape_ascii_def)
    moreover have "c = unescape_char (CHR ''f'')" using c 3 by (simp add: unescape_char_def)
    ultimately show ?thesis using short [of "CHR ''f''"] by (simp del: unquote.simps)
  next
    case 4
    then have "escape_ascii c = [backslash, CHR ''n'']" by (auto simp: escape_ascii_def)
    moreover have "c = unescape_char (CHR ''n'')" using c 4 by (simp add: unescape_char_def)
    ultimately show ?thesis using short [of "CHR ''n''"] by (simp del: unquote.simps)
  next
    case 5
    then have "escape_ascii c = [backslash, CHR ''r'']" by (auto simp: escape_ascii_def)
    moreover have "c = unescape_char (CHR ''r'')" using c 5 by (simp add: unescape_char_def)
    ultimately show ?thesis using short [of "CHR ''r''"] by (simp del: unquote.simps)
  next
    case 6
    then have "escape_ascii c = [backslash, CHR ''t'']" by (auto simp: escape_ascii_def)
    moreover have "c = unescape_char (CHR ''t'')" using c 6 by (simp add: unescape_char_def)
    ultimately show ?thesis using short [of "CHR ''t''"] by (simp del: unquote.simps)
  qed
qed

lemma rune_len_take: "rune_len (c # s) = Suc n \<Longrightarrow> rune_len (take (Suc n) (c # s) @ t) = Suc n"
  by (auto split: if_splits list.splits)

lemma unquote_rune:
  assumes "rune_len (c # s) = Suc n" "128 \<le> byte c"
  shows "unquote (take (Suc n) (c # s) @ t) = take (Suc n) (c # s) @ unquote t"
proof -
  have len: "length (take n s) = n" using assms(1) rune_len_pos_bound [of "c # s"] by (simp del: rune_len.simps)
  have nb: "c \<noteq> backslash" using assms(2) by auto
  have "rune_len (c # take n s @ t) = Suc n" using rune_len_take [OF assms(1), of t] by (simp del: rune_len.simps)
  then show ?thesis
    using nb assms(2) len by (simp del: rune_len.simps)
qed

lemma line_separator_rune:
  assumes "line_separator (c # s) = Some k"
  shows "rune_len (c # s) = 3 \<and> take 3 (c # s) = encode_rune (8224 + k) \<and> 8224 + k < 65536 \<and> 8224 + k < 55296"
proof -
  obtain b d r where s: "s = b # d # r" "byte c = 226" "byte b = 128" "byte d = 168 \<or> byte d = 169" "k = byte d - 160"
    using assms by (auto simp: line_separator_def split: list.splits if_splits)
  have "c = char_of (226::nat)" "b = char_of (128::nat)" "d = char_of (168::nat) \<or> d = char_of (169::nat)"
    using s char_of_char [of c] char_of_char [of b] char_of_char [of d] by metis+
  then show ?thesis using s by (auto simp: encode_rune_def continuation_def)
qed

theorem unquote_quote_body: "valid_utf8 s \<Longrightarrow> unquote (quote_body s) = s"
proof (induction s rule: quote_body.induct)
  case 1
  then show ?case by simp
next
  case (2 c s)
  note v = 2(4) [unfolded valid_utf8.simps [of "c # s"], simplified]
  show ?case
  proof (cases "byte c < 128")
    case True
    then show ?thesis using 2(1) v by (simp add: unquote_escape_ascii)
  next
    case high: False
    obtain n where n: "rune_len (c # s) = Suc n" using v by (cases "rune_len (c # s)") auto
    then have IH: "unquote (quote_body (drop n s)) = drop n s" using 2(3) [OF high n] v by simp
    show ?thesis
    proof (cases "line_separator (c # s)")
      case None
      then show ?thesis
        using high n IH unquote_rune [OF n] by (simp del: rune_len.simps unquote.simps add: not_less)
    next
      case (Some k)
      from line_separator_rune [OF this] n have "take (Suc n) (c # s) = encode_rune (8224 + k)"
        and k: "8224 + k < 65536" "\<not> (55296 \<le> 8224 + k \<and> 8224 + k \<le> 57343)" by simp_all
      moreover have "quote_body (c # s) = unicode_escape (8224 + k) @ quote_body (drop n s)"
        using high n Some by (simp del: rune_len.simps)
      ultimately show ?thesis
        using IH unquote_escape [OF k] append_take_drop_id [of "Suc n" "c # s"]
        by (simp del: unquote.simps rune_len.simps)
    qed
  qed
qed

end
