(* ===== verification/JSON.thy ===== *)
theory JSON
  imports JSON_Strings
begin

text \<open>
  Values of \<open>encoding/json\<close>: the syntax, compact printing, and how members of an object are
  matched to the fields of a struct (by exact name or by case folding). A syntax tree keeps string
  and number tokens as written, and for the members of an object the raw text of the value, which
  is what a \<open>RawMessage\<close> receives. The parser never runs out of fuel, and what it accepts prints
  to text that it reads back.
\<close>

section \<open>Values\<close>

datatype json =
    JNull
  | JBool bool
  | JNum string
  | JStr string
  | JArr "json list"
  | JObj "(string \<times> string \<times> json) list"

text \<open>The scanner's number: sign, integer part without leading zero, fraction, exponent.\<close>

definition scan_digits :: "string \<Rightarrow> (string \<times> string) option" where
  "scan_digits s =
     (let ds = takeWhile is_digit s in if ds = [] then None else Some (ds, dropWhile is_digit s))"

definition scan_int :: "string \<Rightarrow> (string \<times> string) option" where
  "scan_int s =
     (case s of
        c # r \<Rightarrow> if c = CHR ''0'' then Some ([c], r) else scan_digits s
      | [] \<Rightarrow> None)"

definition scan_frac :: "string \<Rightarrow> (string \<times> string) option" where
  "scan_frac s =
     (case s of
        c # r \<Rightarrow> if c = CHR ''.'' then map_option (\<lambda>(ds, u). (c # ds, u)) (scan_digits r) else Some ([], s)
      | [] \<Rightarrow> Some ([], s))"

definition scan_exp :: "string \<Rightarrow> (string \<times> string) option" where
  "scan_exp s =
     (case s of
        c # r \<Rightarrow>
          if c = CHR ''e'' \<or> c = CHR ''E'' then
            (case r of
               d # r' \<Rightarrow>
                 if d = CHR ''+'' \<or> d = CHR ''-''
                 then map_option (\<lambda>(ds, u). (c # d # ds, u)) (scan_digits r')
                 else map_option (\<lambda>(ds, u). (c # ds, u)) (scan_digits r)
             | [] \<Rightarrow> None)
          else Some ([], s)
      | [] \<Rightarrow> Some ([], s))"

definition scan_number :: "string \<Rightarrow> (string \<times> string) option" where
  "scan_number s = do {
     let (sign, s0) = (case s of c # r \<Rightarrow> if c = CHR ''-'' then ([c], r) else ([], s) | [] \<Rightarrow> ([], s));
     (i, s1) \<leftarrow> scan_int s0;
     (f, s2) \<leftarrow> scan_frac s1;
     (e, s3) \<leftarrow> scan_exp s2;
     Some (sign @ i @ f @ e, s3)
   }"

definition is_ws :: "char \<Rightarrow> bool" where
  "is_ws c \<longleftrightarrow> byte c \<in> {32, 9, 10, 13}"

definition ws :: "string \<Rightarrow> string" where
  "ws s = dropWhile is_ws s"

definition scan_atom :: "string \<Rightarrow> (json \<times> string) option" where
  "scan_atom s =
     (if HasPrefix s ''null'' then Some (JNull, drop 4 s)
      else if HasPrefix s ''true'' then Some (JBool True, drop 4 s)
      else if HasPrefix s ''false'' then Some (JBool False, drop 5 s)
      else map_option (\<lambda>(n, r). (JNum n, r)) (scan_number s))"

text \<open>The name of a member and its colon; what is left starts with the value.\<close>

definition member_head :: "string \<Rightarrow> (string \<times> string) option" where
  "member_head s =
     (case s of
        [] \<Rightarrow> None
      | q # s0 \<Rightarrow>
          if q \<noteq> quote_char then None
          else
            (case scan_string s0 of
               None \<Rightarrow> None
             | Some (key, s1) \<Rightarrow>
                 (case ws s1 of
                    [] \<Rightarrow> None
                  | c # s2 \<Rightarrow> if c \<noteq> CHR '':'' then None else Some (key, ws s2))))"

text \<open>
  The parser. The fuel counts calls; twice the length of the input is enough, since two calls in a
  row without consuming a byte do not happen. Go's nesting limit of 10000 is above what the
  bodies of at most 4096 bytes and the results exchanged here can reach.
\<close>

fun pvalue :: "nat \<Rightarrow> string \<Rightarrow> (json \<times> string) option"
  and pelems :: "nat \<Rightarrow> string \<Rightarrow> (json list \<times> string) option"
  and pmembers :: "nat \<Rightarrow> string \<Rightarrow> ((string \<times> string \<times> json) list \<times> string) option" where
  "pvalue 0 s = None"
| "pvalue (Suc k) s =
     (case s of
        [] \<Rightarrow> None
      | c # r \<Rightarrow>
          if c = quote_char then map_option (\<lambda>(t, u). (JStr t, u)) (scan_string r)
          else if c = CHR ''['' then
            (case ws r of
               d # r' \<Rightarrow> if d = CHR '']'' then Some (JArr [], r')
                          else map_option (\<lambda>(vs, u). (JArr vs, u)) (pelems k (ws r))
             | [] \<Rightarrow> None)
          else if c = CHR ''{'' then
            (case ws r of
               d # r' \<Rightarrow> if d = CHR ''}'' then Some (JObj [], r')
                          else map_option (\<lambda>(ms, u). (JObj ms, u)) (pmembers k (ws r))
             | [] \<Rightarrow> None)
          else scan_atom s)"
| "pelems 0 s = None"
| "pelems (Suc k) s =
     (case pvalue k s of
        None \<Rightarrow> None
      | Some (v, r) \<Rightarrow>
          (case ws r of
             d # r' \<Rightarrow>
               if d = CHR '']'' then Some ([v], r')
               else if d = CHR '','' then map_option (\<lambda>(vs, u). (v # vs, u)) (pelems k (ws r'))
               else None
           | [] \<Rightarrow> None))"
| "pmembers 0 s = None"
| "pmembers (Suc k) s =
     (case member_head s of
        None \<Rightarrow> None
      | Some (key, s2) \<Rightarrow>
          (case pvalue k s2 of
             None \<Rightarrow> None
           | Some (v, r) \<Rightarrow>
               (case ws r of
                  d # r' \<Rightarrow>
                    if d = CHR ''}'' then Some ([(key, take (length s2 - length r) s2, v)], r')
                    else if d = CHR '',''
                    then map_option (\<lambda>(ms, u). ((key, take (length s2 - length r) s2, v) # ms, u)) (pmembers k (ws r'))
                    else None
                | [] \<Rightarrow> None)))"

definition first_value :: "string \<Rightarrow> (json \<times> string) option" where
  "first_value s = pvalue (2 * length (ws s) + 1) (ws s)"

text \<open>\<open>Unmarshal\<close> reads one value and nothing but white space after it.\<close>

definition json_parse :: "string \<Rightarrow> json option" where
  "json_parse s =
     (case first_value s of
        Some (v, r) \<Rightarrow> if ws r = [] then Some v else None
      | None \<Rightarrow> None)"

subsection \<open>Compact printing\<close>

fun commas :: "string list \<Rightarrow> string" where
  "commas [] = []"
| "commas [x] = x"
| "commas (x # xs) = x @ '','' @ commas xs"

text \<open>The escapes that \<open>compact\<close> adds inside string tokens.\<close>

function html_escape :: "string \<Rightarrow> string" where
  "html_escape [] = []"
| "html_escape (c # s) =
     (if html_unsafe c then unicode_escape (byte c) @ html_escape s
      else
        (case line_separator (c # s) of
           Some k \<Rightarrow> unicode_escape (8224 + k) @ html_escape (drop 2 s)
         | None \<Rightarrow> c # html_escape s))"
  by pat_completeness auto
termination
  by (relation "measure length") auto

fun print_json :: "json \<Rightarrow> string" where
  "print_json JNull = ''null''"
| "print_json (JBool b) = (if b then ''true'' else ''false'')"
| "print_json (JNum n) = n"
| "print_json (JStr t) = [quote_char] @ html_escape t @ [quote_char]"
| "print_json (JArr vs) = ''['' @ commas (map print_json vs) @ '']''"
| "print_json (JObj ms) =
     ''{'' @ commas (map (\<lambda>(k, raw, v). [quote_char] @ html_escape k @ [quote_char] @ '':'' @ print_json v) ms) @ ''}''"

text \<open>\<open>json.Marshal\<close> of a raw message: null for nil, otherwise its compact form if it is valid.\<close>

definition marshal_raw :: "string option \<Rightarrow> string option" where
  "marshal_raw m =
     (case m of
        None \<Rightarrow> Some ''null''
      | Some s \<Rightarrow> map_option print_json (json_parse s))"

subsection \<open>The parser consumes input\<close>

lemma ws_length: "length (ws s) \<le> length s"
  by (simp add: ws_def length_dropWhile_le)

lemma ws_Cons: "\<not> is_ws c \<Longrightarrow> ws (c # s) = c # s"
  by (simp add: ws_def)

text \<open>A scanned token is a prefix of the input, made of pieces.\<close>

inductive token :: "string \<Rightarrow> bool" where
  token_Nil: "token []"
| token_piece: "is_piece p \<Longrightarrow> token t \<Longrightarrow> token (p @ t)"

lemma token_scans_over: "token t \<Longrightarrow> scans_over t"
  by (induction rule: token.induct) (auto intro: scans_over_append scans_over_piece)

lemma scan_string_split: "scan_string s = Some (t, u) \<Longrightarrow> s = t @ quote_char # u \<and> token t"
proof (induction s arbitrary: t rule: scan_string.induct)
  case (1 s)
  from "1.prems" obtain c r where s: "s = c # r" by (subst (asm) scan_string.simps) (auto split: list.splits)
  show ?case
  proof (cases "c = quote_char")
    case True
    then show ?thesis using "1.prems" by (auto simp: s token_Nil)
  next
    case False
    let ?n = "scan_piece s"
    from False "1.prems" s obtain t' where n: "?n \<noteq> 0" and rest: "scan_string (drop ?n s) = Some (t', u)" "t = take ?n s @ t'"
      by (subst (asm) scan_string.simps) (auto split: if_splits)
    from "1.IH" [OF s False n rest(1)] have "drop ?n s = t' @ quote_char # u" "token t'" by simp_all
    then show ?thesis
      using is_piece_take [OF n] rest(2) append_take_drop_id [of ?n s] by (auto intro: token_piece)
  qed
qed

lemma scan_string_shorter: "scan_string s = Some (t, u) \<Longrightarrow> length u < length s"
  by (drule scan_string_split) simp

lemma scan_digits_shorter: "scan_digits s = Some (t, u) \<Longrightarrow> length u < length s"
proof -
  assume a: "scan_digits s = Some (t, u)"
  then have "takeWhile is_digit s \<noteq> []" "u = dropWhile is_digit s"
    by (auto simp: scan_digits_def Let_def split: if_splits)
  then show ?thesis by (cases s) (auto simp: le_imp_less_Suc length_dropWhile_le split: if_splits)
qed

lemma scan_number_shorter: "scan_number s = Some (t, u) \<Longrightarrow> length u < length s"
proof -
  assume a: "scan_number s = Some (t, u)"
  obtain sign s0 where s0: "(case s of c # r \<Rightarrow> if c = CHR ''-'' then ([c], r) else ([], s) | [] \<Rightarrow> ([], s)) = (sign, s0)"
    by fastforce
  have "length s0 \<le> length s" using s0 by (auto split: list.splits if_splits)
  moreover obtain i s1 f s2 e where parts: "scan_int s0 = Some (i, s1)" "scan_frac s1 = Some (f, s2)" "scan_exp s2 = Some (e, u)"
    using a s0 by (auto simp: scan_number_def split: bind_splits)
  moreover have "length s1 < length s0"
    using parts(1) by (auto simp: scan_int_def split: list.splits if_splits dest!: scan_digits_shorter)
  moreover have "length s2 \<le> length s1"
    using parts(2) by (auto simp: scan_frac_def split: list.splits if_splits dest!: scan_digits_shorter)
  moreover have "length u \<le> length s2"
    using parts(3) by (auto simp: scan_exp_def split: list.splits if_splits dest!: scan_digits_shorter)
  ultimately show ?thesis by linarith
qed

lemma scan_atom_shorter: "scan_atom s = Some (v, u) \<Longrightarrow> length u < length s"
  by (auto simp: scan_atom_def HasPrefix_iff split: if_splits dest: scan_number_shorter)

text \<open>One unfolding of the parser, by the cases of its input.\<close>

lemma ws_split: "ws s = d # r \<Longrightarrow> length r < length s"
  using ws_length [of s] by simp

lemma member_head_shorter: "member_head s = Some (key, s2) \<Longrightarrow> length s2 < length s"
proof -
  assume "member_head s = Some (key, s2)"
  then obtain s0 s1 c s3 where s: "s = quote_char # s0" "scan_string s0 = Some (key, s1)" "ws s1 = c # s3" "s2 = ws s3"
    by (auto simp: member_head_def split: list.splits option.splits if_splits)
  show ?thesis using scan_string_shorter [OF s(2)] ws_split [OF s(3)] ws_length [of s3] s(1,4) by simp
qed

lemma parser_shorter:
  "\<forall>s. (\<forall>v r. pvalue k s = Some (v, r) \<longrightarrow> length r < length s) \<and>
    (\<forall>vs r. pelems k s = Some (vs, r) \<longrightarrow> length r < length s) \<and>
    (\<forall>ms r. pmembers k s = Some (ms, r) \<longrightarrow> length r < length s)"
proof (induction k)
  case (Suc k)
  note IH = Suc.IH [rule_format]
  have "length r < length s" if p: "pvalue (Suc k) s = Some (v, r)" for s v r
  proof -
    obtain c s' where s: "s = c # s'" using p by (auto split: list.splits)
    have w: "length (ws s') \<le> length s'" by (rule ws_length)
    consider "c = quote_char" | "c = CHR ''[''" | "c = CHR ''{''" | "c \<noteq> quote_char" "c \<noteq> CHR ''[''" "c \<noteq> CHR ''{''"
      by blast
    then show ?thesis
    proof cases
      case 1
      then show ?thesis using p by (auto simp: s dest!: scan_string_shorter)
    next
      case 2
      then obtain d r' where d: "ws s' = d # r'" using p by (auto simp: s split: list.splits)
      show ?thesis
      proof (cases "d = CHR '']''")
        case True
        then show ?thesis using p 2 d w by (simp add: s)
      next
        case False
        then obtain vs where "pelems k (ws s') = Some (vs, r)" using p 2 d by (auto simp: s)
        then have "length r < length (ws s')" using IH by blast
        then show ?thesis using w by (simp add: s)
      qed
    next
      case 3
      then obtain d r' where d: "ws s' = d # r'" using p by (auto simp: s split: list.splits)
      show ?thesis
      proof (cases "d = CHR ''}''")
        case True
        then show ?thesis using p 3 d w by (simp add: s)
      next
        case False
        then obtain ms where "pmembers k (ws s') = Some (ms, r)" using p 3 d by (auto simp: s)
        then have "length r < length (ws s')" using IH by blast
        then show ?thesis using w by (simp add: s)
      qed
    next
      case 4
      then show ?thesis using p scan_atom_shorter [of s v r] by (simp add: s)
    qed
  qed
  moreover have "length r < length s" if p: "pelems (Suc k) s = Some (vs, r)" for s vs r
  proof -
    obtain v r0 d r' where v: "pvalue k s = Some (v, r0)" "ws r0 = d # r'"
      using p by (auto split: option.splits list.splits)
    then have "length r0 < length s" "length r' < length r0" using IH ws_split by blast+
    moreover have "length u < length r'" if "pelems k (ws r') = Some (x, u)" for x u
      using that IH [of "ws r'"] ws_length [of r'] by (meson le_trans less_le_trans)
    ultimately show ?thesis using p v by (auto split: if_splits)
  qed
  moreover have "length r < length s" if p: "pmembers (Suc k) s = Some (ms, r)" for s ms r
  proof -
    obtain key s2 v r0 d r' where v: "member_head s = Some (key, s2)" "pvalue k s2 = Some (v, r0)" "ws r0 = d # r'"
      using p by (auto split: option.splits list.splits)
    then have "length s2 < length s" "length r' < length r0" "length r0 < length s2"
      using member_head_shorter ws_split IH by blast+
    moreover have "length u < length r'" if "pmembers k (ws r') = Some (x, u)" for x u
      using that IH [of "ws r'"] ws_length [of r'] by (meson less_le_trans)
    ultimately show ?thesis using p v by (auto split: if_splits)
  qed
  ultimately show ?case by blast
qed simp
lemma pvalue_shorter: "pvalue k s = Some (v, r) \<Longrightarrow> length r < length s"
  using parser_shorter [of k] by blast

text \<open>With more fuel than twice the input length, one more unit changes nothing.\<close>

lemma parser_fuel:
  "\<forall>s. (2 * length s < k \<longrightarrow> pvalue (Suc k) s = pvalue k s) \<and>
    (2 * length s + 1 < k \<longrightarrow> pelems (Suc k) s = pelems k s) \<and>
    (2 * length s + 1 < k \<longrightarrow> pmembers (Suc k) s = pmembers k s)"
proof (induction k)
  case (Suc k)
  note IH = Suc.IH [rule_format]
  have "pvalue (Suc (Suc k)) s = pvalue (Suc k) s" if l: "2 * length s < Suc k" for s
  proof (cases s)
    case (Cons c r)
    have "2 * length (ws r) + 1 < k" using l Cons ws_length [of r] by simp
    then have "pelems (Suc k) (ws r) = pelems k (ws r)" "pmembers (Suc k) (ws r) = pmembers k (ws r)"
      using IH by blast+
    then show ?thesis unfolding pvalue.simps(2) Cons by (simp only: list.case)
  qed simp
  moreover have "pelems (Suc (Suc k)) s = pelems (Suc k) s" if l: "2 * length s + 1 < Suc k" for s
  proof -
    have v: "pvalue (Suc k) s = pvalue k s" using IH [of s] l by simp
    have "pelems (Suc k) (ws r') = pelems k (ws r')" if "pvalue k s = Some (x, r)" "ws r = d # r'" for x r d r'
      using pvalue_shorter [OF that(1)] ws_split [OF that(2)] ws_length [of r'] l by (intro conjunct1 [OF conjunct2 [OF IH], rule_format]) linarith
    then show ?thesis
      unfolding pelems.simps(2) v by (auto split: option.split list.split)
  qed
  moreover have "pmembers (Suc (Suc k)) s = pmembers (Suc k) s" if l: "2 * length s + 1 < Suc k" for s
  proof -
    have v: "pvalue (Suc k) s2 = pvalue k s2" if "member_head s = Some (key, s2)" for key s2
      using member_head_shorter [OF that] l by (intro conjunct1 [OF IH, rule_format]) simp
    have m: "pmembers (Suc k) (ws r') = pmembers k (ws r')"
      if "member_head s = Some (key, s2)" "pvalue k s2 = Some (x, r)" "ws r = d # r'" for key s2 x r d r'
      using member_head_shorter [OF that(1)] pvalue_shorter [OF that(2)] ws_split [OF that(3)] ws_length [of r'] l
      by (intro conjunct2 [OF conjunct2 [OF IH], rule_format]) linarith
    show ?thesis
    proof (cases "member_head s")
      case None
      then show ?thesis unfolding pmembers.simps by simp
    next
      case (Some a)
      obtain key s2 where a: "a = (key, s2)" by (cases a)
      note step = pmembers.simps(2) [of _ s, unfolded Some a option.case prod.case]
      show ?thesis
      proof (cases "pvalue k s2")
        case None
        then show ?thesis unfolding step v [OF Some [unfolded a]] by simp
      next
        case v': (Some xr)
        obtain x r where xr: "xr = (x, r)" by (cases xr)
        show ?thesis
          using m [OF Some [unfolded a] v' [unfolded xr]]
          unfolding step v [OF Some [unfolded a]] v' xr option.case prod.case by (cases "ws r") simp_all
      qed
    qed
  qed
  ultimately show ?case by blast
qed simp

lemma pvalue_fuel: "2 * length s < k \<Longrightarrow> pvalue k s = pvalue (2 * length s + 1) s"
proof (induction k rule: less_induct)
  case (less k)
  show ?case
  proof (cases "k = 2 * length s + 1")
    case False
    then obtain j where j: "k = Suc j" "2 * length s < j" using less.prems by (cases k) auto
    have "pvalue (Suc j) s = pvalue j s" using parser_fuel [of j] j(2) by blast
    then show ?thesis using less.IH [of j] j by simp
  qed simp
qed
subsection \<open>Printing and parsing\<close>

text \<open>What follows a value in compact text.\<close>

definition stops :: "string \<Rightarrow> bool" where
  "stops s \<longleftrightarrow> s = [] \<or> hd s \<in> {CHR '','', CHR '']'', CHR ''}''}"

definition parses_to :: "string \<Rightarrow> json \<Rightarrow> bool" where
  "parses_to t v \<longleftrightarrow> t \<noteq> [] \<and> \<not> is_ws (hd t) \<and> hd t \<notin> {CHR '']'', CHR ''}''} \<and>
     (\<forall>k s. 2 * length t < k \<longrightarrow> stops s \<longrightarrow> pvalue k (t @ s) = Some (v, s))"

lemma parses_to_value: "parses_to t v \<Longrightarrow> 2 * length t < k \<Longrightarrow> stops s \<Longrightarrow> pvalue k (t @ s) = Some (v, s)"
  by (simp add: parses_to_def)

lemma parses_to_ws: "parses_to t v \<Longrightarrow> ws (t @ s) = t @ s"
  by (cases t) (auto simp: parses_to_def ws_def)

lemma stops_Cons [simp]: "stops (c # s) \<longleftrightarrow> c \<in> {CHR '','', CHR '']'', CHR ''}''}"
  by (simp add: stops_def)

lemma ws_punctuation [simp]:
  "ws (CHR '','' # s) = CHR '','' # s" "ws (CHR '']'' # s) = CHR '']'' # s" "ws (CHR ''}'' # s) = CHR ''}'' # s"
  "ws (CHR '':'' # s) = CHR '':'' # s" "ws (quote_char # s) = quote_char # s"
  by (simp_all add: ws_def is_ws_def)

lemma parses_to_token:
  assumes "token t"
  shows "parses_to ([quote_char] @ t @ [quote_char]) (JStr t)"
proof -
  have "pvalue k ([quote_char] @ t @ [quote_char] @ s) = Some (JStr t, s)" if "0 < k" for k s
    using that token_scans_over [OF assms] by (cases k) (simp_all add: scans_over_def)
  then show ?thesis by (simp add: parses_to_def is_ws_def)
qed

lemma parses_to_quote: "parses_to (quote s) (JStr (quote_body s))"
proof -
  have "pvalue k (quote s @ r) = Some (JStr (quote_body s), r)" if "0 < k" for k r
    using that by (cases k) (simp_all add: quote_def scan_quote)
  then show ?thesis by (simp add: parses_to_def is_ws_def quote_def)
qed

lemma parses_to_atom:
  assumes "hd t \<notin> {quote_char, CHR ''['', CHR ''{'', CHR '']'', CHR ''}''}" "t \<noteq> []" "\<not> is_ws (hd t)"
    and "\<And>s. stops s \<Longrightarrow> scan_atom (t @ s) = Some (v, s)"
  shows "parses_to t v"
proof -
  have "pvalue k (t @ s) = Some (v, s)" if "0 < k" "stops s" for k s
    using that assms by (cases k; cases t) simp_all
  then show ?thesis using assms by (simp add: parses_to_def)
qed

lemma parses_to_literal [simp]:
  "parses_to ''null'' JNull" "parses_to ''true'' (JBool True)" "parses_to ''false'' (JBool False)"
  by (rule parses_to_atom; simp add: is_ws_def scan_atom_def HasPrefix_def)+

lemma pelems_commas:
  assumes "list_all2 parses_to ts vs" "ts \<noteq> []" "2 * length (commas ts) + 1 < k"
  shows "pelems k (commas ts @ CHR '']'' # s) = Some (vs, s)"
  using assms
proof (induction ts arbitrary: vs k rule: commas.induct)
  case (2 t)
  then obtain v where v: "vs = [v]" "parses_to t v" by (cases vs) auto
  obtain j where k: "k = Suc j" "2 * length t < j" using 2 by (cases k) auto
  show ?case using parses_to_value [OF v(2) k(2), of "CHR '']'' # s"] by (simp add: k(1) v(1))
next
  case (3 t t' ts)
  then obtain v vs' where v: "vs = v # vs'" "parses_to t v" "list_all2 parses_to (t' # ts) vs'" by (cases vs) auto
  obtain j where k: "k = Suc j" "2 * length t < j" "2 * length (commas (t' # ts)) + 1 < j" using 3 by (cases k) auto
  have "\<exists>v'. parses_to t' v'" using v(3) by (cases vs') auto
  then have w: "ws (commas (t' # ts) @ CHR '']'' # s) = commas (t' # ts) @ CHR '']'' # s"
    by (cases ts) (auto dest: parses_to_ws)
  show ?case
    using parses_to_value [OF v(2) k(2), of "CHR '','' # commas (t' # ts) @ CHR '']'' # s"] "3.IH" [OF v(3) _ k(3)] w
    by (simp add: k(1) v(1))
qed simp

lemma parses_to_array:
  assumes "list_all2 parses_to ts vs"
  shows "parses_to (''['' @ commas ts @ '']'') (JArr vs)"
proof -
  have "pvalue k (''['' @ commas ts @ '']'' @ s) = Some (JArr vs, s)"
    if k: "2 * length (''['' @ commas ts @ '']'') < k" for k s
  proof (cases ts)
    case Nil
    then show ?thesis using assms k by (cases k) auto
  next
    case (Cons t ts')
    then obtain v where v: "parses_to t v" using assms by (cases vs) auto
    obtain j where j: "k = Suc j" "2 * length (commas ts) + 1 < j" using k by (cases k) auto
    have w: "ws (commas ts @ CHR '']'' # s) = commas ts @ CHR '']'' # s"
      using parses_to_ws [OF v] Cons by (cases ts') auto
    obtain d r where d: "commas ts @ CHR '']'' # s = d # r" "d \<noteq> CHR '']''"
      using v Cons by (cases t; cases ts') (auto simp: parses_to_def)
    show ?thesis using pelems_commas [OF assms _ j(2), of s] w d Cons by (simp add: j(1))
  qed
  then show ?thesis by (simp add: parses_to_def is_ws_def)
qed

text \<open>Objects: each member is a name token and the text of a value.\<close>

definition member_text :: "string \<times> string \<Rightarrow> string" where
  "member_text kt = [quote_char] @ fst kt @ [quote_char] @ '':'' @ snd kt"

definition object_text :: "(string \<times> string) list \<Rightarrow> string" where
  "object_text kts = ''{'' @ commas (map member_text kts) @ ''}''"

lemma member_head_text:
  assumes "token k" "parses_to t v"
  shows "member_head (member_text (k, t) @ s) = Some (k, t @ s)"
  using token_scans_over [OF assms(1)] parses_to_ws [OF assms(2)]
  by (simp add: member_head_def member_text_def scans_over_def)

definition members_to :: "(string \<times> string) list \<Rightarrow> json list \<Rightarrow> bool" where
  "members_to kts vs \<longleftrightarrow> list_all2 (\<lambda>(k, t) v. token k \<and> parses_to t v) kts vs"

definition members_of :: "(string \<times> string) list \<Rightarrow> json list \<Rightarrow> (string \<times> string \<times> json) list" where
  "members_of kts vs = map2 (\<lambda>(k, t) v. (k, t, v)) kts vs"

lemma pmembers_commas:
  assumes "members_to kts vs" "kts \<noteq> []" "2 * length (commas (map member_text kts)) + 1 < k"
  shows "pmembers k (commas (map member_text kts) @ CHR ''}'' # s) = Some (members_of kts vs, s)"
  using assms
proof (induction kts arbitrary: vs k)
  case (Cons kt kts)
  obtain key t where kt: "kt = (key, t)" by (cases kt)
  from Cons.prems(1) obtain v vs' where v: "vs = v # vs'" "token key" "parses_to t v" "members_to kts vs'"
    by (cases vs) (auto simp: members_to_def kt)
  let ?rest = "(if kts = [] then [] else CHR '','' # commas (map member_text kts)) @ CHR ''}'' # s"
  have tx: "commas (map member_text (kt # kts)) @ CHR ''}'' # s = member_text (key, t) @ ?rest"
    by (cases kts) (simp_all add: kt)
  have len: "length t < length (member_text (key, t))" by (simp add: member_text_def)
  obtain j where k: "k = Suc j" "2 * length t < j" "kts \<noteq> [] \<Longrightarrow> 2 * length (commas (map member_text kts)) + 1 < j"
    using Cons.prems(3) len by (cases k; cases kts) (auto simp: kt)
  have val: "pvalue j (t @ ?rest) = Some (v, ?rest)" using parses_to_value [OF v(3) k(2), of ?rest] by simp
  show ?case
  proof (cases "kts = []")
    case True
    then show ?thesis
      using val tx member_head_text [OF v(2,3), of ?rest] v(4)
      by (simp add: k(1) kt v(1) members_of_def members_to_def)
  next
    case False
    have w: "ws (commas (map member_text kts) @ CHR ''}'' # s) = commas (map member_text kts) @ CHR ''}'' # s"
      using False by (cases kts; cases "tl kts") (simp_all add: member_text_def)
    show ?thesis
      using val tx member_head_text [OF v(2,3), of ?rest] Cons.IH [OF v(4) False k(3) [OF False]] False w
      by (simp add: k(1) kt v(1) members_of_def)
  qed
qed simp

lemma parses_to_object:
  assumes "members_to kts vs"
  shows "parses_to (object_text kts) (JObj (members_of kts vs))"
proof -
  have "pvalue k (object_text kts @ s) = Some (JObj (members_of kts vs), s)"
    if k: "2 * length (object_text kts) < k" for k s
  proof (cases "kts = []")
    case True
    then show ?thesis using assms k by (cases k) (auto simp: object_text_def members_to_def members_of_def)
  next
    case False
    obtain j where j: "k = Suc j" "2 * length (commas (map member_text kts)) + 1 < j"
      using k by (cases k) (auto simp: object_text_def)
    obtain r where r: "commas (map member_text kts) @ CHR ''}'' # s = quote_char # r"
      using False by (cases kts; cases "tl kts") (auto simp: member_text_def)
    show ?thesis using pmembers_commas [OF assms False j(2), of s] r by (simp add: j(1) object_text_def)
  qed
  then show ?thesis by (simp add: parses_to_def object_text_def is_ws_def)
qed

text \<open>Reading a text that parses to a value.\<close>

lemma parses_to_first: "parses_to t v \<Longrightarrow> stops s \<Longrightarrow> first_value (t @ s) = Some (v, s)"
  by (simp add: first_value_def parses_to_ws parses_to_value del: pvalue.simps)

theorem parses_to_json_parse: "parses_to t v \<Longrightarrow> json_parse t = Some v"
  using parses_to_first [of t v "[]"] by (simp add: json_parse_def stops_def ws_def)

subsection \<open>Parsed values print to text that parses back\<close>

definition no_digit :: "string \<Rightarrow> bool" where
  "no_digit s \<longleftrightarrow> s = [] \<or> \<not> is_digit (hd s)"

lemma scan_digits_again:
  assumes "scan_digits s = Some (ds, u)"
  shows "ds \<noteq> []" "is_digit (hd ds)" "no_digit x \<Longrightarrow> scan_digits (ds @ x) = Some (ds, x)"
proof -
  have ds: "ds = takeWhile is_digit s" "ds \<noteq> []"
    using assms by (auto simp: scan_digits_def Let_def split: if_splits)
  then have all: "\<forall>c \<in> set ds. is_digit c" using set_takeWhileD by fastforce
  show "ds \<noteq> []" "is_digit (hd ds)" using ds(2) all by simp_all
  show "scan_digits (ds @ x) = Some (ds, x)" if x: "no_digit x"
  proof -
    have "takeWhile is_digit x = [] \<and> dropWhile is_digit x = x" using x by (cases x) (auto simp: no_digit_def)
    then show ?thesis using all ds(2) by (simp add: scan_digits_def Let_def)
  qed
qed

lemma is_digit_0 [simp]: "is_digit (CHR ''0'')"
  by (simp add: is_digit_def digit_val_def)

lemma scan_int_again:
  assumes "scan_int s = Some (i, u)"
  shows "i \<noteq> [] \<and> is_digit (hd i) \<and> (no_digit x \<longrightarrow> scan_int (i @ x) = Some (i, x))"
proof -
  obtain c r where s: "s = c # r" using assms by (cases s) (auto simp: scan_int_def)
  show ?thesis
  proof (cases "c = CHR ''0''")
    case True
    then show ?thesis using assms by (auto simp: s scan_int_def)
  next
    case False
    then have d: "scan_digits s = Some (i, u)" using assms by (simp add: s scan_int_def)
    note again = scan_digits_again [OF d]
    have "hd i = c" using d by (auto simp: s scan_digits_def Let_def split: if_splits)
    then show ?thesis using False again by (cases i) (auto simp: scan_int_def)
  qed
qed

lemma scan_frac_again:
  assumes "scan_frac s = Some (f, u)"
  shows "(f = [] \<or> hd f = CHR ''.'') \<and>
    (no_digit x \<longrightarrow> (x = [] \<or> hd x \<noteq> CHR ''.'') \<longrightarrow> scan_frac (f @ x) = Some (f, x))"
proof (cases "s \<noteq> [] \<and> hd s = CHR ''.''")
  case True
  then obtain ds where ds: "f = CHR ''.'' # ds" "scan_digits (tl s) = Some (ds, u)"
    using assms by (cases s) (auto simp: scan_frac_def)
  then show ?thesis using scan_digits_again(3) [OF ds(2), of x] by (simp add: scan_frac_def)
next
  case False
  then have "f = []" using assms by (cases s) (auto simp: scan_frac_def)
  then show ?thesis by (cases x) (auto simp: scan_frac_def)
qed

definition exp_mark :: "char \<Rightarrow> bool" where
  "exp_mark c \<longleftrightarrow> c = CHR ''e'' \<or> c = CHR ''E''"

lemma scan_exp_again:
  assumes "scan_exp s = Some (e, u)"
  shows "(e = [] \<or> exp_mark (hd e)) \<and>
    (no_digit x \<longrightarrow> (x = [] \<or> \<not> exp_mark (hd x)) \<longrightarrow> scan_exp (e @ x) = Some (e, x))"
proof (cases "s \<noteq> [] \<and> exp_mark (hd s)")
  case True
  then obtain c r where s: "s = c # r" "exp_mark c" by (cases s) auto
  then obtain d r' where r: "r = d # r'" using assms by (cases r) (auto simp: scan_exp_def exp_mark_def)
  show ?thesis
  proof (cases "d = CHR ''+'' \<or> d = CHR ''-''")
    case True
    then obtain ds where ds: "e = c # d # ds" "scan_digits r' = Some (ds, u)"
      using assms s r by (auto simp: scan_exp_def exp_mark_def)
    then show ?thesis using True s(2) scan_digits_again(3) [OF ds(2), of x] by (auto simp: scan_exp_def exp_mark_def)
  next
    case False
    then obtain ds where ds: "e = c # ds" "scan_digits r = Some (ds, u)"
      using assms s r by (auto simp: scan_exp_def exp_mark_def)
    have "hd ds = d" using ds(2) by (auto simp: r scan_digits_def Let_def split: if_splits)
    then show ?thesis
      using False s(2) ds(1) scan_digits_again(1) [OF ds(2)] scan_digits_again(3) [OF ds(2), of x]
      by (cases ds) (auto simp: scan_exp_def exp_mark_def)
  qed
next
  case False
  then have "e = []" using assms by (cases s) (auto simp: scan_exp_def exp_mark_def)
  then show ?thesis by (cases x) (auto simp: scan_exp_def exp_mark_def)
qed

lemma digit_marks [simp]: "\<not> is_digit (CHR ''.'')" "\<not> is_digit (CHR ''-'')" "exp_mark c \<Longrightarrow> \<not> is_digit c" "\<not> exp_mark (CHR ''.'')"
  by (auto simp: is_digit_def digit_val_def exp_mark_def)

lemma stops_marks: "stops s \<Longrightarrow> no_digit s \<and> (s = [] \<or> hd s \<noteq> CHR ''.'' \<and> \<not> exp_mark (hd s))"
  by (auto simp: stops_def no_digit_def is_digit_def digit_val_def exp_mark_def)

definition number_token :: "string \<Rightarrow> bool" where
  "number_token n \<longleftrightarrow> n \<noteq> [] \<and> (is_digit (hd n) \<or> hd n = CHR ''-'') \<and> (\<forall>s. stops s \<longrightarrow> scan_number (n @ s) = Some (n, s))"

lemma scan_number_token:
  assumes "scan_number s = Some (n, u)"
  shows "number_token n"
proof -
  define sg where "sg = (case s of c # r \<Rightarrow> if c = CHR ''-'' then [c] else [] | [] \<Rightarrow> [])"
  define s0 where "s0 = drop (length sg) s"
  have sg: "(case s of c # r \<Rightarrow> if c = CHR ''-'' then ([c], r) else ([], s) | [] \<Rightarrow> ([], s)) = (sg, s0)"
    by (auto simp: sg_def s0_def split: list.splits)
  have sgc: "sg = [] \<or> sg = [CHR ''-'']" by (auto simp: sg_def split: list.splits)
  obtain i s1 f s2 e where parts: "scan_int s0 = Some (i, s1)" "scan_frac s1 = Some (f, s2)" "scan_exp s2 = Some (e, u)"
      "n = sg @ i @ f @ e"
    using assms unfolding scan_number_def sg by (auto split: bind_splits)
  note i = scan_int_again [OF parts(1)] and f = scan_frac_again [OF parts(2)] and e = scan_exp_again [OF parts(3)]
  have "scan_number (n @ x) = Some (n, x)" if x: "stops x" for x
  proof -
    note mx = stops_marks [OF x]
    have ex: "scan_exp (e @ x) = Some (e, x)" using scan_exp_again [OF parts(3), of x] mx by blast
    have ne: "no_digit (e @ x)" using e mx by (cases e) (simp_all add: no_digit_def)
    have he: "e @ x = [] \<or> hd (e @ x) \<noteq> CHR ''.''" using e mx by (cases e) (auto simp: exp_mark_def)
    have fx: "scan_frac (f @ e @ x) = Some (f, e @ x)" using scan_frac_again [OF parts(2), of "e @ x"] ne he by blast
    have ndf: "no_digit (f @ e @ x)" using f ne by (cases f) (simp_all add: no_digit_def)
    have ix: "scan_int (i @ f @ e @ x) = Some (i, f @ e @ x)" using scan_int_again [OF parts(1), of "f @ e @ x"] ndf by blast
    have "hd i \<noteq> CHR ''-''" "i \<noteq> []" using i by auto
    then have nx: "(case n @ x of c # r \<Rightarrow> if c = CHR ''-'' then ([c], r) else ([], n @ x) | [] \<Rightarrow> ([], n @ x)) = (sg, i @ f @ e @ x)"
      using sgc unfolding parts(4) by (cases i) auto
    show ?thesis unfolding scan_number_def nx by (simp add: ix fx ex parts(4))
  qed
  moreover have "n \<noteq> [] \<and> (is_digit (hd n) \<or> hd n = CHR ''-'')"
    using i sgc unfolding parts(4) by auto
  ultimately show ?thesis by (simp add: number_token_def)
qed

lemma piece_cases:
  assumes "is_piece p"
  obtains (plain) c where "p = [c]" "32 \<le> byte c" "c \<noteq> quote_char" "c \<noteq> backslash"
  | (escape) "\<forall>c \<in> set p. \<not> html_unsafe c \<and> byte c < 128" "hd p = backslash"
proof -
  obtain c r where p: "p = c # r" using assms by (cases p) (auto simp: is_piece_def)
  show thesis
  proof (cases "c = backslash")
    case False
    then show thesis using assms p by (intro plain [of c]) (auto simp: is_piece_def scan_piece_def split: if_splits)
  next
    case bs: True
    then obtain e r' where e: "r = e # r'" using assms p by (cases r) (auto simp: is_piece_def scan_piece_def)
    have "\<forall>c \<in> set p. \<not> html_unsafe c \<and> byte c < 128"
    proof (cases "e = CHR ''u''")
      case True
      then obtain n where "getu4 p = Some n" "length p = 6"
        using assms unfolding is_piece_def scan_piece_def p bs e by (auto split: if_splits)
      then obtain h1 h2 h3 h4 where h: "p = [backslash, CHR ''u'', h1, h2, h3, h4]" "getu4 p = Some n"
        by (auto elim: getu4_shape)
      then have "hex_val h1 \<noteq> None" "hex_val h2 \<noteq> None" "hex_val h3 \<noteq> None" "hex_val h4 \<noteq> None"
        by (auto simp: getu4_def split: option.splits)
      moreover have "\<not> html_unsafe h \<and> byte h < 128" if "hex_val h \<noteq> None" for h
        using that by (auto simp: hex_val_def html_unsafe_def split: if_splits)
      ultimately show ?thesis by (auto simp: h(1) html_unsafe_def)
    next
      case False
      then have "simple_escape e" "r' = []" using assms unfolding is_piece_def scan_piece_def p bs e by (auto split: if_splits)
      then show ?thesis by (auto simp: p bs e simple_escape_def html_unsafe_def)
    qed
    then show thesis using escape p bs by simp
  qed
qed

lemma html_escape_safe:
  "\<forall>c \<in> set p. \<not> html_unsafe c \<and> byte c < 128 \<Longrightarrow> html_escape (p @ t) = p @ html_escape t"
proof (induction p)
  case (Cons c p)
  have "line_separator (c # p @ t) = None" using Cons.prems by (auto simp: line_separator_def split: list.split)
  then show ?case using Cons by simp
qed simp

lemma token_tail: "token (c # t) \<Longrightarrow> c \<noteq> backslash \<Longrightarrow> token t"
proof (erule token.cases)
  fix p t'
  assume a: "c # t = p @ t'" "token t'" "c \<noteq> backslash"
  assume "is_piece p"
  then show "token t" by (cases rule: piece_cases) (use a \<open>is_piece p\<close> in \<open>auto simp: is_piece_def Cons_eq_append_conv\<close>)
qed simp

lemma token_html_escape: "token t \<Longrightarrow> token (html_escape t)"
proof (induction t rule: length_induct)
  case (1 t)
  from \<open>token t\<close> show ?case
  proof cases
    case token_Nil
    then show ?thesis by (simp add: token.token_Nil)
  next
    case (token_piece p t')
    have p: "p \<noteq> []" using token_piece(2) by (simp add: is_piece_def)
    then have IH: "token (html_escape t')" using 1 token_piece by auto
    from token_piece(2) show ?thesis
    proof (cases rule: piece_cases)
      case escape
      then show ?thesis using html_escape_safe [OF escape(1)] IH token_piece(1,2) by (simp add: token.token_piece)
    next
      case (plain c)
      have bound: "byte c < 65536" by (rule less_trans [OF nat_of_char_less_256]) simp
      show ?thesis
      proof (cases "html_unsafe c")
        case True
        then show ?thesis using plain token_piece IH is_piece_escape [OF bound] by (simp add: token.token_piece)
      next
        case safe: False
        show ?thesis
        proof (cases "line_separator (c # t')")
          case None
          then show ?thesis
            using safe plain token_piece IH token.token_piece [OF token_piece(2) IH] by simp
        next
          case (Some k)
          then obtain b d u where t': "t' = b # d # u" "byte b = 128" "byte d = 168 \<or> byte d = 169"
            by (auto simp: line_separator_def split: list.splits if_splits)
          then have "b \<noteq> backslash" "d \<noteq> backslash" by auto
          then have "token u" using token_tail token_piece(3) t'(1) by blast
          then have "token (html_escape u)" using 1 token_piece(1) plain(1) t'(1) by auto
          then show ?thesis
            using safe Some plain(1) token_piece(1) t'(1) is_piece_escape [OF line_separator_range [OF Some]]
            by (simp add: token.token_piece)
        qed
      qed
    qed
  qed
qed

fun json_ok :: "json \<Rightarrow> bool" where
  "json_ok JNull = True"
| "json_ok (JBool b) = True"
| "json_ok (JNum n) = number_token n"
| "json_ok (JStr t) = token t"
| "json_ok (JArr vs) = (\<forall>v \<in> set vs. json_ok v)"
| "json_ok (JObj ms) = (\<forall>(k, raw, v) \<in> set ms. token k \<and> json_ok v)"

text \<open>The value as it reads after compaction.\<close>

fun compacted :: "json \<Rightarrow> json" where
  "compacted JNull = JNull"
| "compacted (JBool b) = JBool b"
| "compacted (JNum n) = JNum n"
| "compacted (JStr t) = JStr (html_escape t)"
| "compacted (JArr vs) = JArr (map compacted vs)"
| "compacted (JObj ms) = JObj (map (\<lambda>(k, raw, v). (html_escape k, print_json v, compacted v)) ms)"

lemma scan_atom_ok: "scan_atom s = Some (v, r) \<Longrightarrow> json_ok v"
  by (auto simp: scan_atom_def split: if_splits dest: scan_number_token)

lemma parser_ok:
  "\<forall>s. (\<forall>v r. pvalue k s = Some (v, r) \<longrightarrow> json_ok v) \<and>
    (\<forall>vs r. pelems k s = Some (vs, r) \<longrightarrow> (\<forall>v \<in> set vs. json_ok v)) \<and>
    (\<forall>ms r. pmembers k s = Some (ms, r) \<longrightarrow> (\<forall>(key, raw, v) \<in> set ms. token key \<and> json_ok v))"
proof (induction k)
  case (Suc k)
  have IHv: "json_ok v" if "pvalue k s = Some (v, r)" for s v r using Suc.IH that by blast
  have IHe: "\<forall>v \<in> set vs. json_ok v" if "pelems k s = Some (vs, r)" for s vs r using Suc.IH that by blast
  have IHm: "\<forall>(key, raw, v) \<in> set ms. token key \<and> json_ok v" if "pmembers k s = Some (ms, r)" for s ms r
    using Suc.IH that by blast
  have "json_ok v" if p: "pvalue (Suc k) s = Some (v, r)" for s v r
    using p scan_atom_ok [of s]
    by (auto split: list.splits if_splits dest: scan_string_split dest!: IHe IHm)
  moreover have "\<forall>v \<in> set vs. json_ok v" if p: "pelems (Suc k) s = Some (vs, r)" for s vs r
    using p by (auto split: option.splits list.splits if_splits dest!: IHe IHv)
  moreover have "\<forall>(key, raw, v) \<in> set ms. token key \<and> json_ok v" if p: "pmembers (Suc k) s = Some (ms, r)" for s ms r
  proof -
    obtain key s2 v r0 d r' where v: "member_head s = Some (key, s2)" "pvalue k s2 = Some (v, r0)" "ws r0 = d # r'"
      using p by (auto split: option.splits list.splits)
    then have "token key" by (auto simp: member_head_def split: list.splits option.splits if_splits dest: scan_string_split)
    moreover have "json_ok v" using v(2) by (rule IHv)
    ultimately show ?thesis using p v by (auto split: if_splits dest!: IHm)
  qed
  ultimately show ?case by blast
qed simp

lemma json_parse_ok: "json_parse s = Some v \<Longrightarrow> json_ok v"
proof -
  assume "json_parse s = Some v"
  then obtain r where "first_value s = Some (v, r)" by (auto simp: json_parse_def split: option.splits if_splits)
  then show ?thesis unfolding first_value_def by (rule parser_ok [THEN spec, THEN conjunct1, rule_format])
qed

lemma parses_to_number:
  assumes "number_token n"
  shows "parses_to n (JNum n)"
proof -
  obtain c r where n: "n = c # r" "is_digit c \<or> c = CHR ''-''"
    using assms by (cases n) (auto simp: number_token_def)
  then have c: "c \<notin> {quote_char, CHR ''['', CHR ''{'', CHR '']'', CHR ''}'', CHR ''n'', CHR ''t'', CHR ''f''}" "\<not> is_ws c"
    by (auto simp: is_ws_def is_digit_def digit_val_def Let_def split: if_splits)
  have "scan_atom (n @ s) = Some (JNum n, s)" if "stops s" for s
    using that assms c by (simp add: n(1) number_token_def scan_atom_def HasPrefix_def)
  then show ?thesis using c by (intro parses_to_atom) (simp_all add: n(1))
qed

lemma parses_to_print_members:
  assumes "\<And>k raw v. (k, raw, v) \<in> set ms \<Longrightarrow> token (html_escape k) \<and> parses_to (print_json v) (compacted v)"
  shows "parses_to (print_json (JObj ms)) (compacted (JObj ms))"
proof -
  let ?kts = "map (\<lambda>(k, raw, v). (html_escape k, print_json v)) ms" and ?vs = "map (\<lambda>(k, raw, v). compacted v) ms"
  have "members_to ?kts ?vs"
    using assms by (auto simp: members_to_def list_all2_map1 list_all2_map2 list_all2_same case_prod_beta)
  moreover have "map member_text ?kts =
      map (\<lambda>(k, raw, v). [quote_char] @ html_escape k @ [quote_char] @ '':'' @ print_json v) ms"
    by (auto simp: member_text_def)
  then have "object_text ?kts = print_json (JObj ms)" by (simp only: object_text_def print_json.simps)
  moreover have "members_of ?kts ?vs = map (\<lambda>(k, raw, v). (html_escape k, print_json v, compacted v)) ms"
    by (induction ms) (auto simp: members_of_def)
  ultimately show ?thesis using parses_to_object [of ?kts ?vs] by simp
qed

theorem parses_to_print: "json_ok v \<Longrightarrow> parses_to (print_json v) (compacted v)"
proof (induction v)
  case (JBool b)
  then show ?case by (cases b) simp_all
next
  case (JNum n)
  then show ?case by (simp add: parses_to_number)
next
  case (JStr t)
  then show ?case using parses_to_token [OF token_html_escape] by simp
next
  case (JArr vs)
  then have "list_all2 parses_to (map print_json vs) (map compacted vs)"
    by (simp add: list_all2_map1 list_all2_map2 list_all2_same)
  then show ?case using parses_to_array by simp
next
  case (JObj ms)
  show ?case
  proof (rule parses_to_print_members)
    fix k raw v
    assume m: "(k, raw, v) \<in> set ms"
    then have "token k" "json_ok v" using JObj.prems by auto
    then show "token (html_escape k) \<and> parses_to (print_json v) (compacted v)"
      using JObj.IH [OF m] token_html_escape by simp
  qed
qed simp

section \<open>Members and fields\<close>

text \<open>
  \<open>foldName\<close>: ASCII letters in upper case; besides them, only U+017F (bytes C5 BF) and U+212A
  (bytes E2 84 AA) fold to an ASCII letter. Every other rune is left alone, which is enough to
  compare with the ASCII names of fields.
\<close>

definition upper_byte :: "char \<Rightarrow> char" where
  "upper_byte c = (if 97 \<le> byte c \<and> byte c \<le> 122 then char_of (byte c - 32) else c)"

fun fold_name :: "string \<Rightarrow> string" where
  "fold_name [] = []"
| "fold_name (a # s) =
     (case s of
        b # t \<Rightarrow>
          if byte a = 197 \<and> byte b = 191 then CHR ''S'' # fold_name t
          else (case t of
                  c # u \<Rightarrow>
                    if byte a = 226 \<and> byte b = 132 \<and> byte c = 170 then CHR ''K'' # fold_name u
                    else upper_byte a # fold_name s
                | [] \<Rightarrow> upper_byte a # fold_name s)
      | [] \<Rightarrow> [upper_byte a])"

definition field_of :: "string list \<Rightarrow> string \<Rightarrow> string option" where
  "field_of fields key =
     (if key \<in> set fields then Some key else find (\<lambda>f. fold_name f = fold_name key) fields)"

lemma field_of_exact [simp]: "f \<in> set fields \<Longrightarrow> field_of fields f = Some f"
  by (simp add: field_of_def)

text \<open>A plain ASCII name is its own token and its own unquoting.\<close>

definition plain_name :: "string \<Rightarrow> bool" where
  "plain_name s \<longleftrightarrow> (\<forall>c \<in> set s. 32 \<le> byte c \<and> byte c < 128 \<and> c \<noteq> quote_char \<and> c \<noteq> backslash)"

lemma plain_name_token: "plain_name s \<Longrightarrow> token s"
proof (induction s)
  case (Cons c s)
  then have "is_piece [c]" by (intro is_piece_plain) (auto simp: plain_name_def)
  from token.token_piece [OF this, of s] Cons show ?case by (simp add: plain_name_def)
qed (simp add: token.token_Nil)

lemma plain_name_unquote: "plain_name s \<Longrightarrow> unquote s = s"
  by (induction s) (simp_all add: plain_name_def)

end
