(* ===== verification/Command_Bus.thy ===== *)
theory Command_Bus
  imports Redis JSON
begin

text \<open>
  The command bus: its interface (internal/commandbus/bus.go) and the Redis implementation
  (internal/commandbus/redisbus/bus.go). Commands travel as entries of one stream per runtime,
  results as JSON in a list per command next to a completion record. Each Redis call of an operation
  is one round trip, with what other clients did before it and with its fate given by the
  environment; the handler and the clock are part of the outside world that the bus calls.
\<close>

section \<open>Commands and results\<close>

definition ErrInvalidCommand :: error where
  "ErrInvalidCommand = errors_New ''invalid command''"

definition ErrResultTimeout :: error where
  "ErrResultTimeout = errors_New ''command result timed out''"

record Command =
  cmd_ID :: string
  cmd_StationIdentity :: string
  cmd_OwnerID :: string
  cmd_OwnerGeneration :: uint64
  cmd_Action :: string
  cmd_Payload :: string
  cmd_CreatedAt :: time
  cmd_Deadline :: time

text \<open>A nil raw message is \<open>None\<close>.\<close>

record Result =
  res_CommandID :: string
  res_Success :: bool
  res_Payload :: "string option"
  res_ErrorCode :: string
  res_ErrorDescription :: string
  res_CompletedAt :: time

definition zero_Result :: Result where
  "zero_Result = \<lparr>res_CommandID = '''', res_Success = False, res_Payload = None, res_ErrorCode = '''',
     res_ErrorDescription = '''', res_CompletedAt = zero_time\<rparr>"

text \<open>The wrapped errors \<open>fmt.Errorf("%w: ...", ErrInvalidCommand)\<close>.\<close>

definition invalid_command :: "string \<Rightarrow> error" where
  "invalid_command msg = Error (err_text ErrInvalidCommand @ '': '' @ msg) (Some ErrInvalidCommand)"

section \<open>JSON of a result\<close>

text \<open>The texts of the JSON package's own errors are not modelled.\<close>

definition json_error :: error where
  "json_error = errors_New ''json''"

definition result_fields :: "string list" where
  "result_fields = [''CommandID'', ''Success'', ''Payload'', ''ErrorCode'', ''ErrorDescription'', ''CompletedAt'']"

definition marshal_Result :: "Result \<Rightarrow> error + string" where
  "marshal_Result r =
     (case marshal_raw (res_Payload r) of
        None \<Rightarrow> Inl json_error
      | Some payload \<Rightarrow>
          if \<not> four_digit_year (res_CompletedAt r) then Inl json_error
          else Inr (object_text
            [(''CommandID'', quote (res_CommandID r)),
             (''Success'', if res_Success r then ''true'' else ''false''),
             (''Payload'', payload),
             (''ErrorCode'', quote (res_ErrorCode r)),
             (''ErrorDescription'', quote (res_ErrorDescription r)),
             (''CompletedAt'', [quote_char] @ format_RFC3339Nano (res_CompletedAt r) @ [quote_char])]))"

text \<open>Storing one member: a string, a bool, a raw message or an instant; null leaves all but the raw message alone.\<close>

definition store_string :: "json \<Rightarrow> (string \<Rightarrow> 's) \<Rightarrow> 's \<Rightarrow> error + 's" where
  "store_string v f s = (case v of JStr t \<Rightarrow> Inr (f (unquote t)) | JNull \<Rightarrow> Inr s | _ \<Rightarrow> Inl json_error)"

definition set_result_field :: "string \<Rightarrow> string \<Rightarrow> json \<Rightarrow> Result \<Rightarrow> error + Result" where
  "set_result_field field raw v r =
     (if field = ''CommandID'' then store_string v (\<lambda>x. r\<lparr>res_CommandID := x\<rparr>) r
      else if field = ''Success'' then
        (case v of JBool b \<Rightarrow> Inr (r\<lparr>res_Success := b\<rparr>) | JNull \<Rightarrow> Inr r | _ \<Rightarrow> Inl json_error)
      else if field = ''Payload'' then Inr (r\<lparr>res_Payload := Some raw\<rparr>)
      else if field = ''ErrorCode'' then store_string v (\<lambda>x. r\<lparr>res_ErrorCode := x\<rparr>) r
      else if field = ''ErrorDescription'' then store_string v (\<lambda>x. r\<lparr>res_ErrorDescription := x\<rparr>) r
      else
        (case v of
           JNull \<Rightarrow> Inr r
         | JStr t \<Rightarrow>
             (case parse_RFC3339 True t of
                Some x \<Rightarrow> Inr (r\<lparr>res_CompletedAt := x\<rparr>)
              | None \<Rightarrow> Inl json_error)
         | _ \<Rightarrow> Inl json_error))"

fun set_result_members :: "(string \<times> string \<times> json) list \<Rightarrow> Result \<Rightarrow> error + Result" where
  "set_result_members [] r = Inr r"
| "set_result_members ((k, raw, v) # ms) r =
     (case field_of result_fields (unquote k) of
        None \<Rightarrow> set_result_members ms r
      | Some f \<Rightarrow>
          (case set_result_field f raw v r of
             Inl err \<Rightarrow> Inl err
           | Inr r' \<Rightarrow> set_result_members ms r'))"

definition unmarshal_Result :: "string \<Rightarrow> error + Result" where
  "unmarshal_Result s =
     (case json_parse s of
        Some (JObj ms) \<Rightarrow> set_result_members ms zero_Result
      | Some JNull \<Rightarrow> Inr zero_Result
      | _ \<Rightarrow> Inl json_error)"

section \<open>The bus\<close>

definition consumerGroup :: string where
  "consumerGroup = ''runtime''"

definition pendingMinIdle :: duration where
  "pendingMinIdle = 5 * second"

record Bus =
  bus_prefix :: string
  bus_resultTTL :: duration

definition redisbus_New :: "bool \<Rightarrow> string \<Rightarrow> duration \<Rightarrow> error + Bus" where
  "redisbus_New client_is_nil prefix resultTTL =
     (if client_is_nil then Inl (errors_New ''redis client is nil'')
      else Inr \<lparr>bus_prefix = (if prefix = '''' then ''csms'' else prefix),
                bus_resultTTL = (if resultTTL \<le> 0 then 5 * minute else resultTTL)\<rparr>)"

definition commandStream :: "Bus \<Rightarrow> string \<Rightarrow> string" where
  "commandStream bus ownerID = bus_prefix bus @ '':commands:'' @ ownerID"

definition resultKey :: "Bus \<Rightarrow> string \<Rightarrow> string" where
  "resultKey bus commandID = bus_prefix bus @ '':command-results:'' @ commandID"

definition completionKey :: "Bus \<Rightarrow> string \<Rightarrow> string" where
  "completionKey bus commandID = bus_prefix bus @ '':command-completions:'' @ commandID"

text \<open>
  The world of an operation: the coming round trips, the Redis service, and the outside (handler
  and clock). When the listed trips are used up, trips are delivered without interference.
\<close>

record 'r trip =
  tr_between :: "'r \<Rightarrow> 'r"
  tr_fate :: fate

record ('r, 'h) world =
  w_trips :: "'r trip list"
  w_redis :: 'r
  w_out :: 'h

definition call ::
  "('r \<Rightarrow> redis_reply \<times> 'r) \<Rightarrow> ('r, 'h) world \<Rightarrow> (error + redis_reply) \<times> ('r, 'h) world" where
  "call cmd w =
     (case w_trips w of
        [] \<Rightarrow> (case round_trip Delivered cmd (w_redis w) of (res, r) \<Rightarrow> (res, w\<lparr>w_redis := r\<rparr>))
      | t # ts \<Rightarrow>
          (case round_trip (tr_fate t) cmd (tr_between t (w_redis w)) of
             (res, r) \<Rightarrow> (res, w\<lparr>w_redis := r, w_trips := ts\<rparr>)))"

definition timestamp :: "time \<Rightarrow> int" where
  "timestamp t = (if IsZero t then 0 else UnixNano t)"

definition unixNano :: "string option \<Rightarrow> error + time" where
  "unixNano v =
     (case ParseInt (case v of Some s \<Rightarrow> s | None \<Rightarrow> ''<nil>'') of
        Inl e \<Rightarrow> Inl (errors_Wrap ''decode Redis command timestamp: ''
                   (errors_New (case e of ErrSyntax \<Rightarrow> ''invalid syntax'' | ErrRange \<Rightarrow> ''value out of range'')))
      | Inr n \<Rightarrow> Inr (if n = 0 then zero_time else unixTime n))"

definition decodeGeneration :: "string option \<Rightarrow> error + int" where
  "decodeGeneration v =
     (case ParseInt (case v of Some s \<Rightarrow> s | None \<Rightarrow> ''<nil>'') of
        Inl e \<Rightarrow> Inl (errors_New ''decode Redis command owner generation'')
      | Inr n \<Rightarrow> if n < 0 then Inl (errors_New ''decode Redis command owner generation'') else Inr n)"

definition stringField :: "fields \<Rightarrow> string \<Rightarrow> string" where
  "stringField vals key = (case vals key of None \<Rightarrow> '''' | Some s \<Rightarrow> s)"

definition validateCommand :: "Command \<Rightarrow> error option" where
  "validateCommand c =
     (if cmd_ID c = '''' \<or> cmd_StationIdentity c = '''' \<or> cmd_OwnerID c = '''' \<or> cmd_OwnerGeneration c = 0
         \<or> cmd_Action c = '''' \<or> IsZero (cmd_CreatedAt c)
      then Some (invalid_command ''ID, station identity, owner ID, owner generation, action and creation time are required'')
      else if \<not> IsZero (cmd_Deadline c) \<and> \<not> After (cmd_Deadline c) (cmd_CreatedAt c)
      then Some (invalid_command ''deadline must be after creation time'')
      else None)"

text \<open>The values \<open>Publish\<close> puts into the stream entry.\<close>

definition command_values :: "Command \<Rightarrow> fields" where
  "command_values c =
     [''id'' \<mapsto> cmd_ID c, ''station_identity'' \<mapsto> cmd_StationIdentity c, ''owner_id'' \<mapsto> cmd_OwnerID c,
      ''owner_generation'' \<mapsto> showNat (unat (cmd_OwnerGeneration c)),
      ''action'' \<mapsto> cmd_Action c, ''payload'' \<mapsto> cmd_Payload c,
      ''created_at'' \<mapsto> showInt (UnixNano (cmd_CreatedAt c)), ''deadline'' \<mapsto> showInt (timestamp (cmd_Deadline c))]"

definition decodeCommand :: "fields \<Rightarrow> error + Command" where
  "decodeCommand vals =
     (case decodeGeneration (vals ''owner_generation'') of
        Inl err \<Rightarrow> Inl err
      | Inr generation \<Rightarrow>
          (case unixNano (vals ''created_at'') of
             Inl err \<Rightarrow> Inl err
           | Inr createdAt \<Rightarrow>
               (case unixNano (vals ''deadline'') of
                  Inl err \<Rightarrow> Inl err
                | Inr deadline \<Rightarrow>
                    let c = \<lparr>cmd_ID = stringField vals ''id'',
                             cmd_StationIdentity = stringField vals ''station_identity'',
                             cmd_OwnerID = stringField vals ''owner_id'',
                             cmd_OwnerGeneration = word_of_int generation,
                             cmd_Action = stringField vals ''action'',
                             cmd_Payload = stringField vals ''payload'',
                             cmd_CreatedAt = createdAt, cmd_Deadline = deadline\<rparr>
                    in case validateCommand c of Some err \<Rightarrow> Inl err | None \<Rightarrow> Inr c)))"

definition Publish ::
  "(redis_cmd \<Rightarrow> 'r \<Rightarrow> redis_reply \<times> 'r) \<Rightarrow> Bus \<Rightarrow> Command \<Rightarrow> ('r, 'h) world \<Rightarrow> error option \<times> ('r, 'h) world" where
  "Publish exec bus c w =
     (case validateCommand c of
        Some err \<Rightarrow> (Some err, w)
      | None \<Rightarrow>
          (case call (exec (XADD (commandStream bus (cmd_OwnerID c)) 10000 (command_values c))) w of
             (Inl err, w') \<Rightarrow> (Some (errors_Wrap ''publish Redis command: '' err), w')
           | (Inr _, w') \<Rightarrow> (None, w')))"

text \<open>
  \<open>AwaitResult\<close> polls until there is a value, an error, or the context is done. \<open>ticks\<close> is the
  number of ticks the select takes before it takes the context's end.
\<close>

definition context_Canceled :: error where
  "context_Canceled = errors_New ''context canceled''"

definition context_DeadlineExceeded :: error where
  "context_DeadlineExceeded = errors_New ''context deadline exceeded''"

fun await_loop ::
  "(redis_cmd \<Rightarrow> 'r \<Rightarrow> redis_reply \<times> 'r) \<Rightarrow> string \<Rightarrow> nat \<Rightarrow> ('r, 'h) world \<Rightarrow> (error + Result) \<times> ('r, 'h) world" where
  "await_loop exec key ticks w =
     (case call (exec (RPOP key)) w of
        (Inl err, w') \<Rightarrow>
          (if errors_Is err context_Canceled \<or> errors_Is err context_DeadlineExceeded
           then (Inl ErrResultTimeout, w')
           else (Inl (errors_Wrap ''await Redis command result: '' err), w'))
      | (Inr (RBulk s), w') \<Rightarrow>
          (case unmarshal_Result s of
             Inl err \<Rightarrow> (Inl (errors_Wrap ''decode Redis command result: '' err), w')
           | Inr result \<Rightarrow> (Inr result, w'))
      | (Inr RNil, w') \<Rightarrow>
          (case ticks of
             0 \<Rightarrow> (Inl ErrResultTimeout, w')
           | Suc n \<Rightarrow> await_loop exec key n w')
      | (Inr _, w') \<Rightarrow> (Inl (errors_Wrap ''await Redis command result: '' (errors_New ''redis: unexpected type for String'')), w'))"

declare await_loop.simps [simp del]

definition AwaitResult ::
  "(redis_cmd \<Rightarrow> 'r \<Rightarrow> redis_reply \<times> 'r) \<Rightarrow> Bus \<Rightarrow> string \<Rightarrow> nat \<Rightarrow> ('r, 'h) world \<Rightarrow> (error + Result) \<times> ('r, 'h) world" where
  "AwaitResult exec bus commandID ticks w =
     (if commandID = '''' then (Inl (invalid_command ''command ID is required''), w)
      else await_loop exec (resultKey bus commandID) ticks w)"

text \<open>\<open>completed\<close>: the stored result, if there is one.\<close>

definition completed ::
  "(redis_cmd \<Rightarrow> 'r \<Rightarrow> redis_reply \<times> 'r) \<Rightarrow> Bus \<Rightarrow> string \<Rightarrow> ('r, 'h) world \<Rightarrow>
   (error + Result option) \<times> ('r, 'h) world" where
  "completed exec bus commandID w =
     (case call (exec (GET (completionKey bus commandID))) w of
        (Inl err, w') \<Rightarrow> (Inl (errors_Wrap ''read completed Redis command: '' err), w')
      | (Inr RNil, w') \<Rightarrow> (Inr None, w')
      | (Inr (RBulk s), w') \<Rightarrow>
          (case unmarshal_Result s of
             Inl err \<Rightarrow> (Inl (errors_Wrap ''decode completed Redis command: '' err), w')
           | Inr result \<Rightarrow> (Inr (Some result), w'))
      | (Inr _, w') \<Rightarrow>
          (Inl (errors_Wrap ''read completed Redis command: '' (errors_New ''redis: unexpected type for String'')), w'))"

text \<open>
  The client library sends a lifetime to \<open>SET\<close> in milliseconds and to \<open>EXPIRE\<close> in seconds, at
  least one of either. A transaction runs all its commands and reports the first error.
\<close>

definition client_millis :: "duration \<Rightarrow> int" where
  "client_millis d = (if 0 < d \<and> d < millisecond then 1 else Milliseconds d)"

definition client_seconds :: "duration \<Rightarrow> int" where
  "client_seconds d = (if 0 < d \<and> d < second then 1 else go_div d second)"

fun tx :: "(redis_cmd \<Rightarrow> 'r \<Rightarrow> redis_reply \<times> 'r) \<Rightarrow> redis_cmd list \<Rightarrow> 'r \<Rightarrow> redis_reply \<times> 'r" where
  "tx exec [] r = (ROK, r)"
| "tx exec (c # cs) r =
     (case exec c r of
        (rep, r1) \<Rightarrow>
          (case tx exec cs r1 of
             (rest, r2) \<Rightarrow> (case rep of RErr e \<Rightarrow> (RErr e, r2) | _ \<Rightarrow> (rest, r2))))"

definition complete ::
  "(redis_cmd \<Rightarrow> 'r \<Rightarrow> redis_reply \<times> 'r) \<Rightarrow> ('h \<Rightarrow> time) \<Rightarrow> Bus \<Rightarrow> Result \<Rightarrow> ('r, 'h) world \<Rightarrow>
   error option \<times> ('r, 'h) world" where
  "complete exec now bus result w =
     (if res_CommandID result = '''' then (Some (errors_New ''command result ID is required''), w)
      else
        let result' = (if IsZero (res_CompletedAt result) then result\<lparr>res_CompletedAt := now (w_out w)\<rparr> else result)
        in case marshal_Result result' of
             Inl err \<Rightarrow> (Some (errors_Wrap ''encode Redis command result: '' err), w)
           | Inr content \<Rightarrow>
               let key = resultKey bus (res_CommandID result')
               in case call (tx exec
                        [SETPX (completionKey bus (res_CommandID result')) content (client_millis (bus_resultTTL bus)),
                         LPUSH key content, PEXPIRE key (1000 * client_seconds (bus_resultTTL bus))]) w of
                    (Inl err, w') \<Rightarrow> (Some (errors_Wrap ''complete Redis command: '' err), w')
                  | (Inr _, w') \<Rightarrow> (None, w'))"

text \<open>
  \<open>runHandler\<close>: the handler finds the deadline of its context in the command, and everything else
  (sessions, parent context, clock) in the outside world.
\<close>

definition runHandler ::
  "(Command \<Rightarrow> 'h \<Rightarrow> Result \<times> 'h) \<Rightarrow> ('h \<Rightarrow> time) \<Rightarrow> Command \<Rightarrow> 'h \<Rightarrow> Result \<times> 'h" where
  "runHandler handler now c h =
     (case handler c h of
        (result, h') \<Rightarrow>
          let r = result\<lparr>res_CommandID := cmd_ID c\<rparr>
          in (if IsZero (res_CompletedAt r) then r\<lparr>res_CompletedAt := now h'\<rparr> else r, h'))"

fun processMessages ::
  "(redis_cmd \<Rightarrow> 'r \<Rightarrow> redis_reply \<times> 'r) \<Rightarrow> (Command \<Rightarrow> 'h \<Rightarrow> Result \<times> 'h) \<Rightarrow> ('h \<Rightarrow> time) \<Rightarrow> Bus \<Rightarrow> string \<Rightarrow>
   (nat \<times> fields) list \<Rightarrow> ('r, 'h) world \<Rightarrow> error option \<times> ('r, 'h) world" where
  "processMessages exec handler now bus stream [] w = (None, w)"
| "processMessages exec handler now bus stream ((i, vals) # ms) w =
     (case decodeCommand vals of
        Inl err \<Rightarrow> (Some err, w)
      | Inr c \<Rightarrow>
          (case completed exec bus (cmd_ID c) w of
             (Inl err, w1) \<Rightarrow> (Some err, w1)
           | (Inr found, w1) \<Rightarrow>
               (case (case found of
                        Some result \<Rightarrow> (result, w1)
                      | None \<Rightarrow> (case runHandler handler now c (w_out w1) of (result, h) \<Rightarrow> (result, w1\<lparr>w_out := h\<rparr>))) of
                  (result, w2) \<Rightarrow>
                    (case complete exec now bus result w2 of
                       (Some err, w3) \<Rightarrow> (Some err, w3)
                     | (None, w3) \<Rightarrow>
                         (case call (exec (XACK stream consumerGroup i)) w3 of
                            (Inl err, w4) \<Rightarrow> (Some (errors_Wrap ''ack Redis command: '' err), w4)
                          | (Inr _, w4) \<Rightarrow> processMessages exec handler now bus stream ms w4)))))"

definition isBusyGroup :: "error \<Rightarrow> bool" where
  "isBusyGroup err \<longleftrightarrow> HasPrefix (err_text err) ''BUSYGROUP''"

text \<open>
  One turn of the consumer's loop: recovery of idle entries when it is due, then reading one entry.
  It either returns (\<open>Inl\<close>, with the error if any) or goes on with the time of the last recovery.
\<close>

definition recover_turn ::
  "(redis_cmd \<Rightarrow> 'r \<Rightarrow> redis_reply \<times> 'r) \<Rightarrow> (Command \<Rightarrow> 'h \<Rightarrow> Result \<times> 'h) \<Rightarrow> ('h \<Rightarrow> time) \<Rightarrow> Bus \<Rightarrow> string \<Rightarrow>
   time \<Rightarrow> ('r, 'h) world \<Rightarrow> (error option + time) \<times> ('r, 'h) world" where
  "recover_turn exec handler now bus ownerID lastRecovery w =
     (let stream = commandStream bus ownerID in
      if now (w_out w) - lastRecovery < pendingMinIdle then (Inr lastRecovery, w)
      else
        (case call (exec (XAUTOCLAIM stream consumerGroup ownerID (Milliseconds pendingMinIdle) 10)) w of
           (Inl err, w1) \<Rightarrow>
             if errors_Is err context_Canceled then (Inl None, w1)
             else (Inl (Some (errors_Wrap ''recover pending Redis commands: '' err)), w1)
         | (Inr rep, w1) \<Rightarrow>
             (case processMessages exec handler now bus stream (case rep of RMsgs ms \<Rightarrow> ms | _ \<Rightarrow> []) w1 of
                (Some err, w2) \<Rightarrow> (Inl (Some err), w2)
              | (None, w2) \<Rightarrow> (Inr (now (w_out w2)), w2))))"

definition read_turn ::
  "(redis_cmd \<Rightarrow> 'r \<Rightarrow> redis_reply \<times> 'r) \<Rightarrow> (Command \<Rightarrow> 'h \<Rightarrow> Result \<times> 'h) \<Rightarrow> ('h \<Rightarrow> time) \<Rightarrow> Bus \<Rightarrow> string \<Rightarrow>
   ('r, 'h) world \<Rightarrow> (error option + unit) \<times> ('r, 'h) world" where
  "read_turn exec handler now bus ownerID w =
     (let stream = commandStream bus ownerID in
      case call (exec (XREADGROUP stream consumerGroup ownerID 1)) w of
        (Inl err, w1) \<Rightarrow>
          if errors_Is err context_Canceled then (Inl None, w1)
          else (Inl (Some (errors_Wrap ''consume Redis command: '' err)), w1)
      | (Inr rep, w1) \<Rightarrow>
          (case processMessages exec handler now bus stream (case rep of RMsgs ms \<Rightarrow> ms | _ \<Rightarrow> []) w1 of
             (Some err, w2) \<Rightarrow> (Inl (Some err), w2)
           | (None, w2) \<Rightarrow> (Inr (), w2)))"

definition consumer_turn ::
  "(redis_cmd \<Rightarrow> 'r \<Rightarrow> redis_reply \<times> 'r) \<Rightarrow> (Command \<Rightarrow> 'h \<Rightarrow> Result \<times> 'h) \<Rightarrow> ('h \<Rightarrow> time) \<Rightarrow> Bus \<Rightarrow> string \<Rightarrow>
   time \<Rightarrow> ('r, 'h) world \<Rightarrow> (error option + time) \<times> ('r, 'h) world" where
  "consumer_turn exec handler now bus ownerID lastRecovery w =
     (case recover_turn exec handler now bus ownerID lastRecovery w of
        (Inl ret, w1) \<Rightarrow> (Inl ret, w1)
      | (Inr lastRecovery', w1) \<Rightarrow>
          (case read_turn exec handler now bus ownerID w1 of
             (Inl ret, w2) \<Rightarrow> (Inl ret, w2)
           | (Inr _, w2) \<Rightarrow> (Inr lastRecovery', w2)))"

text \<open>The loop returns only on an error or when its context is cancelled; otherwise it has no value.\<close>

partial_function (option) consumer_loop ::
  "(redis_cmd \<Rightarrow> 'r \<Rightarrow> redis_reply \<times> 'r) \<Rightarrow> (Command \<Rightarrow> 'h \<Rightarrow> Result \<times> 'h) \<Rightarrow> ('h \<Rightarrow> time) \<Rightarrow> Bus \<Rightarrow> string \<Rightarrow>
   time \<Rightarrow> ('r, 'h) world \<Rightarrow> (error option \<times> ('r, 'h) world) option" where
  "consumer_loop exec handler now bus ownerID lastRecovery w =
     (case consumer_turn exec handler now bus ownerID lastRecovery w of
        (Inl ret, w') \<Rightarrow> Some (ret, w')
      | (Inr lastRecovery', w') \<Rightarrow> consumer_loop exec handler now bus ownerID lastRecovery' w')"

definition RunConsumer ::
  "(redis_cmd \<Rightarrow> 'r \<Rightarrow> redis_reply \<times> 'r) \<Rightarrow> (Command \<Rightarrow> 'h \<Rightarrow> Result \<times> 'h) option \<Rightarrow> ('h \<Rightarrow> time) \<Rightarrow> Bus \<Rightarrow> string \<Rightarrow>
   ('r, 'h) world \<Rightarrow> (error option \<times> ('r, 'h) world) option" where
  "RunConsumer exec handler now bus ownerID w =
     (case handler of
        None \<Rightarrow> Some (Some (errors_New ''owner ID and command handler are required''), w)
      | Some handle \<Rightarrow>
          if ownerID = '''' then Some (Some (errors_New ''owner ID and command handler are required''), w)
          else
            (case call (exec (XGROUP_CREATE (commandStream bus ownerID) consumerGroup)) w of
               (Inl err, w1) \<Rightarrow>
                 if isBusyGroup err then consumer_loop exec handle now bus ownerID zero_time w1
                 else Some (Some (errors_Wrap ''create Redis command consumer group: '' err), w1)
             | (Inr _, w1) \<Rightarrow> consumer_loop exec handle now bus ownerID zero_time w1))"

end
