(* ===== verification/Bus_Codec.thy ===== *)
theory Bus_Codec
  imports Command_Bus
begin

text \<open>
  The command bus's encodings: a command as the fields of a stream entry, a result as JSON. What can
  be written is read back, with the exceptions stated; what is read is well formed whatever the
  stream holds.
\<close>

section \<open>Commands\<close>

lemma word_of_int_unat [simp]: "word_of_int (int (unat g)) = (g :: uint64)"
  by simp

lemma unixNano_showInt:
  assumes "- (2 ^ 63) \<le> t" "t < 2 ^ 63"
  shows "unixNano (Some (showInt t)) = Inr (if t = 0 then zero_time else t)"
  using assms by (simp add: unixNano_def ParseInt_showInt unixTime_def)

lemma decodeGeneration_showNat:
  "decodeGeneration (Some (showNat n)) =
     (if n < 2 ^ 63 then Inr (int n) else Inl (errors_New ''decode Redis command owner generation''))"
  if "n < 2 ^ 64"
proof (cases "n < 2 ^ 63")
  case True
  then show ?thesis using ParseInt_showInt [of "int n"] by (simp add: decodeGeneration_def showInt_def)
next
  case False
  have "hd (showNat n) \<noteq> CHR ''+''" "hd (showNat n) \<noteq> CHR ''-''"
    using hd_showNat [of n] digit_char_not_sign by metis+
  then have "ParseInt (showNat n) = Inl ErrRange"
    using False that by (simp add: ParseInt_def Let_def ParseUint_showNat)
  then show ?thesis using False by (simp add: decodeGeneration_def)
qed

text \<open>Instants that survive the trip through nanoseconds since the epoch.\<close>

definition nano_instant :: "time \<Rightarrow> bool" where
  "nano_instant t \<longleftrightarrow> t \<noteq> 0 \<and> - (2 ^ 63) \<le> t \<and> t < 2 ^ 63"

lemma zero_time_not_nano: "\<not> nano_instant zero_time"
  by (simp add: nano_instant_def zero_time_def)

lemma decode_values:
  assumes "unat (cmd_OwnerGeneration c) < 2 ^ 63" "nano_instant (cmd_CreatedAt c)"
    and "IsZero (cmd_Deadline c) \<or> nano_instant (cmd_Deadline c)"
  shows "decodeCommand (command_values c) = (case validateCommand c of Some err \<Rightarrow> Inl err | None \<Rightarrow> Inr c)"
proof -
  have created: "unixNano (Some (showInt (UnixNano (cmd_CreatedAt c)))) = Inr (cmd_CreatedAt c)"
    using assms(2) by (simp add: nano_instant_def UnixNano_eq unixNano_showInt)
  have deadline: "unixNano (Some (showInt (timestamp (cmd_Deadline c)))) = Inr (cmd_Deadline c)"
  proof (cases "IsZero (cmd_Deadline c)")
    case True
    then show ?thesis using unixNano_showInt [of 0] by (simp add: timestamp_def IsZero_def)
  next
    case False
    then show ?thesis
      using assms(3) by (simp add: timestamp_def nano_instant_def UnixNano_eq unixNano_showInt)
  qed
  have gen: "decodeGeneration (Some (showNat (unat (cmd_OwnerGeneration c)))) = Inr (int (unat (cmd_OwnerGeneration c)))"
    using assms(1) uint64_bound [of "cmd_OwnerGeneration c"] by (simp add: decodeGeneration_showNat)
  have eta: "\<lparr>cmd_ID = cmd_ID c, cmd_StationIdentity = cmd_StationIdentity c, cmd_OwnerID = cmd_OwnerID c,
      cmd_OwnerGeneration = cmd_OwnerGeneration c, cmd_Action = cmd_Action c, cmd_Payload = cmd_Payload c,
      cmd_CreatedAt = cmd_CreatedAt c, cmd_Deadline = cmd_Deadline c\<rparr> = c"
    by simp
  show ?thesis
    by (simp add: decodeCommand_def command_values_def created deadline gen stringField_def Let_def eta
        del: Command.surjective)
qed

text \<open>C23: a command that passes validation is decoded from its stream entry as exactly itself, provided
  its generation fits a signed 64-bit integer, its creation time is not the Unix epoch and its times
  are representable in nanoseconds; a missing deadline stays missing.\<close>

theorem command_roundtrip:
  assumes "validateCommand c = None" "unat (cmd_OwnerGeneration c) < 2 ^ 63" "nano_instant (cmd_CreatedAt c)"
    and "IsZero (cmd_Deadline c) \<or> nano_instant (cmd_Deadline c)"
  shows "decodeCommand (command_values c) = Inr c"
  using assms by (simp add: decode_values)

definition demo_command :: Command where
  "demo_command = \<lparr>cmd_ID = ''c1'', cmd_StationIdentity = ''CP001'', cmd_OwnerID = ''pod-a'', cmd_OwnerGeneration = 7,
     cmd_Action = ''Reset'', cmd_Payload = ''{}'', cmd_CreatedAt = 5 * second, cmd_Deadline = 35 * second\<rparr>"

lemma demo_command_valid: "validateCommand demo_command = None"
  by (simp add: demo_command_def validateCommand_def IsZero_def zero_time_def After_def)

lemma demo_command_instants:
  "nano_instant (cmd_CreatedAt demo_command)" "nano_instant (cmd_Deadline demo_command)"
  "unat (cmd_OwnerGeneration demo_command) < 2 ^ 63"
  by (simp_all add: demo_command_def nano_instant_def)

lemma command_roundtrip_witness:
  "validateCommand demo_command = None \<and> decodeCommand (command_values demo_command) = Inr demo_command"
  using command_roundtrip [of demo_command] demo_command_valid demo_command_instants by simp

text \<open>A command can pass the validation of \<open>Publish\<close> and still be refused by every consumer: when
  its owner generation is \<open>2 ^ 63\<close> or more (generations are unsigned, but decoded with a signed
  parse), or when it was created at the Unix epoch (whose timestamp 0 stands for no time).\<close>

theorem valid_command_undecodable:
  assumes "validateCommand c = None" "2 ^ 63 \<le> unat (cmd_OwnerGeneration c) \<or> cmd_CreatedAt c = 0"
  shows "\<exists>err. decodeCommand (command_values c) = Inl err"
proof (cases "2 ^ 63 \<le> unat (cmd_OwnerGeneration c)")
  case True
  then show ?thesis
    using decodeGeneration_showNat [OF uint64_bound [of "cmd_OwnerGeneration c"]]
    by (simp add: decodeCommand_def command_values_def)
next
  case False
  then have "cmd_CreatedAt c = 0" using assms(2) by blast
  then have "unixNano (Some (showInt (UnixNano (cmd_CreatedAt c)))) = Inr zero_time"
    using unixNano_showInt [of 0] by (simp add: UnixNano_eq)
  then show ?thesis
    by (auto simp: decodeCommand_def command_values_def validateCommand_def IsZero_def Let_def split: sum.splits)
qed

lemma valid_command_undecodable_witness:
  "\<exists>err. decodeCommand (command_values (demo_command\<lparr>cmd_OwnerGeneration := 2 ^ 63\<rparr>)) = Inl err"
proof -
  have "validateCommand (demo_command\<lparr>cmd_OwnerGeneration := 2 ^ 63\<rparr>) = None"
    by (simp add: demo_command_def validateCommand_def IsZero_def zero_time_def After_def)
  moreover have "2 ^ 63 \<le> unat (cmd_OwnerGeneration (demo_command\<lparr>cmd_OwnerGeneration := 2 ^ 63\<rparr>))"
    by simp
  ultimately show ?thesis using valid_command_undecodable by blast
qed

lemma decodeGeneration_Inr:
  assumes "decodeGeneration v = Inr n"
  shows "0 \<le> n \<and> n < 2 ^ 63"
proof -
  obtain s where "ParseInt s = Inr n" "0 \<le> n"
    using assms by (auto simp: decodeGeneration_def split: sum.splits if_splits)
  then show ?thesis using ParseInt_range by blast
qed

lemma decoded_fields: "decodeCommand vals = Inr c \<Longrightarrow> validateCommand c = None \<and> cmd_ID c \<noteq> ''''"
  by (auto simp: decodeCommand_def validateCommand_def Let_def split: sum.splits option.splits if_splits)

text \<open>C25: whatever fields a stream entry holds, a command that is decoded from them is well formed: it
  has an identifier, a station, an owner and an action, a generation from 1 to \<open>2 ^ 63 - 1\<close>, a
  creation time, and a deadline, if any, after it.\<close>

theorem decoded_well_formed:
  assumes "decodeCommand vals = Inr c"
  shows "cmd_ID c \<noteq> '''' \<and> cmd_StationIdentity c \<noteq> '''' \<and> cmd_OwnerID c \<noteq> '''' \<and> cmd_Action c \<noteq> '''' \<and>
    0 < unat (cmd_OwnerGeneration c) \<and> unat (cmd_OwnerGeneration c) < 2 ^ 63 \<and> \<not> IsZero (cmd_CreatedAt c) \<and>
    (IsZero (cmd_Deadline c) \<or> After (cmd_Deadline c) (cmd_CreatedAt c))"
proof -
  obtain n where n: "decodeGeneration (vals ''owner_generation'') = Inr n" and c: "cmd_OwnerGeneration c = word_of_int n"
    and v: "validateCommand c = None"
    using assms by (auto simp: decodeCommand_def Let_def split: sum.splits option.splits)
  have "unat (word_of_int n :: uint64) = nat n"
    using decodeGeneration_Inr [OF n] by (simp add: unat_eq_nat_uint uint_word_of_int)
  then have "unat (cmd_OwnerGeneration c) < 2 ^ 63" using decodeGeneration_Inr [OF n] c by (simp add: nat_less_iff)
  moreover have "0 < unat (cmd_OwnerGeneration c)"
    using v by (auto simp: validateCommand_def unat_gt_0 split: if_splits)
  ultimately show ?thesis using v by (auto simp: validateCommand_def split: if_splits)
qed

lemma decoded_well_formed_witness:
  "decodeCommand (command_values demo_command) = Inr demo_command \<and> cmd_ID demo_command \<noteq> ''''"
proof -
  have "decodeCommand (command_values demo_command) = Inr demo_command"
    by (subst decode_values) (use demo_command_valid demo_command_instants in simp_all)
  then show ?thesis using decoded_well_formed by blast
qed

section \<open>Results\<close>

lemma result_fields_plain: "f \<in> set result_fields \<Longrightarrow> plain_name f"
  by (auto simp: result_fields_def plain_name_def)

text \<open>The result a reader decodes from what was encoded: the payload is compact, nil reads as null.\<close>

definition stored_payload :: "string option \<Rightarrow> string" where
  "stored_payload m = (case m of None \<Rightarrow> ''null'' | Some s \<Rightarrow> (case json_parse s of Some v \<Rightarrow> print_json v | None \<Rightarrow> s))"

lemma marshal_raw_parses:
  assumes "marshal_raw m = Some p"
  shows "p = stored_payload m \<and> (\<exists>v. parses_to p v)"
proof (cases m)
  case None
  then show ?thesis using assms by (auto simp: marshal_raw_def stored_payload_def intro: exI [of _ JNull])
next
  case (Some s)
  then obtain v where v: "json_parse s = Some v" "p = print_json v" using assms by (auto simp: marshal_raw_def)
  then show ?thesis using Some parses_to_print [OF json_parse_ok [OF v(1)]] by (auto simp: stored_payload_def)
qed

lemma plain_name_append [simp]: "plain_name (s @ t) \<longleftrightarrow> plain_name s \<and> plain_name t"
  by (auto simp: plain_name_def)

lemma plain_name_Cons [simp]:
  "plain_name (c # s) \<longleftrightarrow> 32 \<le> byte c \<and> byte c < 128 \<and> c \<noteq> quote_char \<and> c \<noteq> backslash \<and> plain_name s"
  by (simp add: plain_name_def)

lemma plain_name_Nil [simp]: "plain_name []"
  by (simp add: plain_name_def)

lemma plain_digit [simp]: "n < 10 \<Longrightarrow> plain_name [digit_char n]"
proof -
  assume n: "n < 10"
  then have b: "byte (digit_char n) = 48 + n" by (simp add: digit_char_def)
  moreover have "digit_char n \<noteq> quote_char" "digit_char n \<noteq> backslash"
    using n b by (auto dest!: arg_cong [where f = byte])
  ultimately show ?thesis using n by simp
qed

lemma plain_showNat [simp]: "plain_name (showNat n)"
proof (induction n rule: showNat.induct)
  case (1 n)
  then show ?case using plain_digit [of n] plain_digit [of "n mod 10"]
    by (subst showNat.simps) (auto simp del: plain_digit plain_name_Cons)
qed

lemma plain_pad2 [simp]: "plain_name (pad2 n)"
  using plain_digit [of "n div 10 mod 10"] plain_digit [of "n mod 10"] by (simp add: pad2_def)

lemma plain_digits [simp]: "plain_name (digits k n)"
  by (induction k arbitrary: n) (use plain_digit in \<open>auto simp del: plain_name_Cons\<close>)

lemma plain_replicate [simp]: "plain_name (replicate k (CHR ''0''))"
  by (induction k) simp_all

lemma plain_subset: "plain_name s \<Longrightarrow> set t \<subseteq> set s \<Longrightarrow> plain_name t"
  unfolding plain_name_def by blast

lemma plain_date_time: "plain_name (date_time t)"
  by (auto simp: date_time_def year_text_def Let_def split: prod.split)

lemma plain_format: "plain_name (format_RFC3339Nano t)"
proof -
  have "plain_name (rev (dropWhile (\<lambda>c. c = CHR ''0'') (rev (digits 9 ns))))" for ns
    by (rule plain_subset [of "digits 9 ns"]) (auto dest: set_dropWhileD)
  then show ?thesis by (simp add: format_RFC3339Nano_def fraction_def plain_date_time del: digits.simps)
qed

lemma result_members:
  fixes r :: Result
  assumes "parses_to p v"
  defines "kts \<equiv> [(''CommandID'', quote (res_CommandID r)), (''Success'', if res_Success r then ''true'' else ''false''),
      (''Payload'', p), (''ErrorCode'', quote (res_ErrorCode r)), (''ErrorDescription'', quote (res_ErrorDescription r)),
      (''CompletedAt'', [quote_char] @ format_RFC3339Nano (res_CompletedAt r) @ [quote_char])]"
    and "vs \<equiv> [JStr (quote_body (res_CommandID r)), JBool (res_Success r), v, JStr (quote_body (res_ErrorCode r)),
      JStr (quote_body (res_ErrorDescription r)), JStr (format_RFC3339Nano (res_CompletedAt r))]"
  shows "json_parse (object_text kts) = Some (JObj (members_of kts vs))"
proof (rule parses_to_json_parse, rule parses_to_object)
  have plain: "token ''CommandID''" "token ''Success''" "token ''Payload''" "token ''ErrorCode''"
      "token ''ErrorDescription''" "token ''CompletedAt''"
    by (rule plain_name_token, rule result_fields_plain, simp add: result_fields_def)+
  show "members_to kts vs"
    using plain parses_to_token [OF plain_name_token [OF plain_format [of "res_CompletedAt r"]]] assms(1)
    by (simp add: members_to_def kts_def vs_def parses_to_quote)
qed

lemma unquote_result_fields [simp]: "f \<in> set result_fields \<Longrightarrow> unquote f = f"
  by (rule plain_name_unquote [OF result_fields_plain])

lemma unmarshal_marshal:
  assumes "marshal_Result r = Inr s"
    and "valid_utf8 (res_CommandID r)" "valid_utf8 (res_ErrorCode r)" "valid_utf8 (res_ErrorDescription r)"
  shows "unmarshal_Result s = Inr (r\<lparr>res_Payload := Some (stored_payload (res_Payload r))\<rparr>)"
proof -
  obtain p where p: "marshal_raw (res_Payload r) = Some p" and year: "four_digit_year (res_CompletedAt r)"
    using assms(1) by (auto simp: marshal_Result_def split: option.splits if_splits)
  then obtain v where v: "parses_to p v" and sp: "p = stored_payload (res_Payload r)"
    using marshal_raw_parses by blast
  note parsed = result_members [OF v, of r]
  have names: "unquote ''CommandID'' = ''CommandID''" "unquote ''Success'' = ''Success''" "unquote ''Payload'' = ''Payload''"
    "unquote ''ErrorCode'' = ''ErrorCode''" "unquote ''ErrorDescription'' = ''ErrorDescription''"
    "unquote ''CompletedAt'' = ''CompletedAt''"
    by (rule unquote_result_fields, simp add: result_fields_def)+
  have fields: "field_of result_fields f = Some f" if "f \<in> set result_fields" for f
    using that by simp
  show ?thesis
    using assms p year parsed sp
    by (simp add: marshal_Result_def unmarshal_Result_def members_of_def names fields [unfolded result_fields_def]
      result_fields_def set_result_field_def store_string_def unquote_quote_body parse_RFC3339Nano zero_Result_def)
qed

text \<open>C24: a result that can be marshalled is read back as it was written: identity, success, error
  code, description and completion instant unchanged, the payload as its compact JSON text (null for
  a missing payload). The strings must be valid UTF-8, since encoding/json replaces anything else.\<close>

theorem result_roundtrip:
  assumes "marshal_Result r = Inr s"
    and "valid_utf8 (res_CommandID r)" "valid_utf8 (res_ErrorCode r)" "valid_utf8 (res_ErrorDescription r)"
  shows "unmarshal_Result s = Inr (r\<lparr>res_Payload := Some (stored_payload (res_Payload r))\<rparr>)"
  by (rule unmarshal_marshal [OF assms])

definition demo_result :: Result where
  "demo_result = \<lparr>res_CommandID = ''c1'', res_Success = True, res_Payload = Some ''{ \"status\" : \"Accepted\" }'',
     res_ErrorCode = '''', res_ErrorDescription = '''', res_CompletedAt = 1500000000\<rparr>"

lemma demo_marshal_raw: "marshal_raw (Some ''{ \"status\" : \"Accepted\" }'') = Some ''{\"status\":\"Accepted\"}''"
  by code_simp

lemma demo_four_digit_year: "four_digit_year 1500000000"
  by (simp add: four_digit_year_def civil_def year_of_def unix_days_def year_scan.simps days_before_year_def
      month_scan.simps Let_def)

lemma demo_result_marshals: "\<exists>s. marshal_Result demo_result = Inr s"
  by (simp add: marshal_Result_def demo_result_def demo_marshal_raw demo_four_digit_year)

lemma result_roundtrip_witness:
  "\<exists>s. marshal_Result demo_result = Inr s \<and>
     unmarshal_Result s = Inr (demo_result\<lparr>res_Payload := Some ''{\"status\":\"Accepted\"}''\<rparr>)"
proof -
  obtain s where s: "marshal_Result demo_result = Inr s" using demo_result_marshals by blast
  moreover have "valid_utf8 (res_CommandID demo_result)" "valid_utf8 (res_ErrorCode demo_result)"
    "valid_utf8 (res_ErrorDescription demo_result)"
    by code_simp+
  moreover have "stored_payload (res_Payload demo_result) = ''{\"status\":\"Accepted\"}''"
    using marshal_raw_parses [OF demo_marshal_raw] by (simp add: demo_result_def)
  ultimately show ?thesis using result_roundtrip [of demo_result s] by simp
qed

end
