(* ===== verification/Bus_Protocol.thy ===== *)
theory Bus_Protocol
  imports Bus_Codec
begin

text \<open>
  The protocol of the command bus over Redis: what publishing, consuming and awaiting do to the
  visible keyspace, and the guarantees they give together.
\<close>

section \<open>Calls without interference\<close>

lemma commandStream_inj [simp]: "commandStream bus o1 = commandStream bus o2 \<longleftrightarrow> o1 = o2"
  by (simp add: commandStream_def)

lemma resultKey_inj [simp]: "resultKey bus i = resultKey bus j \<longleftrightarrow> i = j"
  by (simp add: resultKey_def)

lemma completionKey_inj [simp]: "completionKey bus i = completionKey bus j \<longleftrightarrow> i = j"
  by (simp add: completionKey_def)

lemma bus_keys_distinct [simp]:
  "commandStream bus i \<noteq> resultKey bus j" "resultKey bus j \<noteq> commandStream bus i"
  "commandStream bus i \<noteq> completionKey bus j" "completionKey bus j \<noteq> commandStream bus i"
  "resultKey bus i \<noteq> completionKey bus j" "completionKey bus j \<noteq> resultKey bus i"
  by (simp_all add: commandStream_def resultKey_def completionKey_def)

lemma client_millis_pos: "0 < d \<Longrightarrow> 0 < client_millis d"
  by (auto simp: client_millis_def Milliseconds_pos_iff)

lemma client_seconds_pos: "0 < d \<Longrightarrow> 0 < client_seconds d"
  by (auto simp: client_seconds_def go_div_nonneg pos_imp_zdiv_pos_iff)

text \<open>What the client gets for a reply.\<close>

definition reply_of :: "redis_reply \<Rightarrow> error + redis_reply" where
  "reply_of rep = (case rep of RErr e \<Rightarrow> Inl (errors_New e) | _ \<Rightarrow> Inr rep)"

lemma reply_of_simps [simp]:
  "reply_of (RErr e) = Inl (errors_New e)" "reply_of RNil = Inr RNil" "reply_of ROK = Inr ROK"
  "reply_of (RInt n) = Inr (RInt n)" "reply_of (RBulk s) = Inr (RBulk s)" "reply_of (RMsgs ms) = Inr (RMsgs ms)"
  "reply_of (RArr rs) = Inr (RArr rs)"
  by (simp_all add: reply_of_def)

lemma round_trip_Delivered: "round_trip Delivered cmd r = (reply_of (fst (cmd r)), snd (cmd r))"
  by (simp add: round_trip_def reply_of_def split: prod.split redis_reply.split)

text \<open>A world at rest: no more faults or interference to come, with the keyspace and the outside given.\<close>

definition rests :: "('r \<Rightarrow> keyspace) \<Rightarrow> keyspace \<Rightarrow> 'h \<Rightarrow> ('r, 'h) world \<Rightarrow> bool" where
  "rests view kv h w \<longleftrightarrow> w_trips w = [] \<and> view (w_redis w) = kv \<and> w_out w = h"

definition no_xadd :: "redis_cmd \<Rightarrow> bool" where
  "no_xadd c \<longleftrightarrow> (\<forall>k n f. c \<noteq> XADD k n f)"

lemma no_xadd_simps [simp]:
  "no_xadd (GET k)" "no_xadd (SETPX k v n)" "no_xadd (LPUSH k v)" "no_xadd (PEXPIRE k n)" "no_xadd (RPOP k)"
  "no_xadd (XACK k g i)" "no_xadd (XREADGROUP k g con m)" "no_xadd (XAUTOCLAIM k g con t m)" "no_xadd (XGROUP_CREATE k g)"
  by (simp_all add: no_xadd_def)

context redis_service
begin

lemma exec_view: "no_xadd c \<Longrightarrow> kv_exec c (view r) = (fst (exec c r), view (snd (exec c r)))"
  using exec_kv [of c r "fst (exec c r)" "snd (exec c r)"] by (simp add: no_xadd_def prod_eq_iff)

lemma tx_view:
  assumes "list_all no_xadd cs"
  shows "tx kv_exec cs (view r) = (fst (tx exec cs r), view (snd (tx exec cs r)))"
  using assms by (induction cs arbitrary: r) (auto simp: exec_view split: prod.split redis_reply.split)

lemma call_rests:
  assumes "rests view kv h w" "\<And>r. kcmd (view r) = (fst (cmd r), view (snd (cmd r)))"
  shows "\<exists>w'. call cmd w = (reply_of (fst (kcmd kv)), w') \<and> rests view (snd (kcmd kv)) h w'"
  using assms(1) assms(2) [of "w_redis w"] by (auto simp: call_def rests_def round_trip_Delivered)

lemma exec_rests:
  assumes "rests view kv h w" "no_xadd c"
  obtains w' where "call (exec c) w = (reply_of (fst (kv_exec c kv)), w')" "rests view (snd (kv_exec c kv)) h w'"
  using call_rests [OF assms(1), where cmd = "exec c" and kcmd = "kv_exec c"] exec_view [OF assms(2)] by blast

lemma tx_rests:
  assumes "rests view kv h w" "list_all no_xadd cs"
  obtains w' where "call (tx exec cs) w = (reply_of (fst (tx kv_exec cs kv)), w')" "rests view (snd (tx kv_exec cs kv)) h w'"
  using call_rests [OF assms(1), where cmd = "tx exec cs" and kcmd = "tx kv_exec cs"] tx_view [OF assms(2)] by blast

end

section \<open>Effect of the operations on the keyspace\<close>

text \<open>The values in a result list, and the record a completion leaves: the result under the
  completion key and at the head of the result list, both with a lifetime.\<close>

definition results_at :: "keyspace \<Rightarrow> string \<Rightarrow> string list option" where
  "results_at kv k = (case kv k of None \<Rightarrow> Some [] | Some (VList l, _) \<Rightarrow> Some l | Some _ \<Rightarrow> None)"

definition recorded :: "Bus \<Rightarrow> string \<Rightarrow> string \<Rightarrow> string list \<Rightarrow> keyspace \<Rightarrow> keyspace" where
  "recorded bus i content l kv =
     kv(completionKey bus i \<mapsto> (VString content, Some (nat (client_millis (bus_resultTTL bus)))),
        resultKey bus i \<mapsto> (VList (content # l), Some (nat (1000 * client_seconds (bus_resultTTL bus)))))"

lemma complete_tx:
  assumes "results_at kv (resultKey bus i) = Some l" "0 < bus_resultTTL bus"
  shows "tx kv_exec
      [SETPX (completionKey bus i) content (client_millis (bus_resultTTL bus)), LPUSH (resultKey bus i) content,
       PEXPIRE (resultKey bus i) (1000 * client_seconds (bus_resultTTL bus))] kv =
    (ROK, recorded bus i content l kv)"
proof -
  have "\<not> client_millis (bus_resultTTL bus) \<le> 0" "\<not> 1000 * client_seconds (bus_resultTTL bus) \<le> 0"
    using client_millis_pos [OF assms(2)] client_seconds_pos [OF assms(2)] by simp_all
  then show ?thesis
    using assms(1)
    by (auto simp: kv_exec_def recorded_def results_at_def split: option.splits prod.splits rvalue.splits)
qed

context redis_service
begin

lemma complete_rests:
  assumes "rests view kv h w" "res_CommandID r \<noteq> ''''" "\<not> IsZero (res_CompletedAt r)" "marshal_Result r = Inr content"
    and "results_at kv (resultKey bus (res_CommandID r)) = Some l" "0 < bus_resultTTL bus"
  obtains w' where "complete exec now bus r w = (None, w')" "rests view (recorded bus (res_CommandID r) content l kv) h w'"
proof -
  let ?cs = "[SETPX (completionKey bus (res_CommandID r)) content (client_millis (bus_resultTTL bus)),
     LPUSH (resultKey bus (res_CommandID r)) content,
     PEXPIRE (resultKey bus (res_CommandID r)) (1000 * client_seconds (bus_resultTTL bus))]"
  have ok: "list_all no_xadd ?cs" by simp
  obtain w' where "call (tx exec ?cs) w = (reply_of (fst (tx kv_exec ?cs kv)), w')" "rests view (snd (tx kv_exec ?cs kv)) h w'"
    by (rule tx_rests [OF assms(1) ok])
  then show thesis
    using that assms(2-4) complete_tx [OF assms(5,6), of content] by (simp add: complete_def Let_def del: tx.simps)
qed

lemma completed_none:
  assumes "rests view kv h w" "kv (completionKey bus i) = None"
  obtains w' where "completed exec bus i w = (Inr None, w')" "rests view kv h w'"
proof (rule exec_rests [OF assms(1), of "GET (completionKey bus i)"])
  fix w'
  assume "call (exec (GET (completionKey bus i))) w = (reply_of (fst (kv_exec (GET (completionKey bus i)) kv)), w')"
    "rests view (snd (kv_exec (GET (completionKey bus i)) kv)) h w'"
  then show thesis using that assms(2) by (simp add: completed_def kv_exec_def)
qed simp

lemma completed_some:
  assumes "rests view kv h w" "kv (completionKey bus i) = Some (VString s, d)" "unmarshal_Result s = Inr r"
  obtains w' where "completed exec bus i w = (Inr (Some r), w')" "rests view kv h w'"
proof (rule exec_rests [OF assms(1), of "GET (completionKey bus i)"])
  fix w'
  assume "call (exec (GET (completionKey bus i))) w = (reply_of (fst (kv_exec (GET (completionKey bus i)) kv)), w')"
    "rests view (snd (kv_exec (GET (completionKey bus i)) kv)) h w'"
  then show thesis using that assms(2,3) by (simp add: completed_def kv_exec_def)
qed simp

lemma ack_rests:
  assumes "rests view kv h w" "kv stream = Some (VStream s, d)" "xs_groups s consumerGroup = Some g"
  obtains w' n where "call (exec (XACK stream consumerGroup i)) w = (Inr (RInt n), w')"
    "rests view (kv(stream \<mapsto> (VStream (s\<lparr>xs_groups := (xs_groups s)(consumerGroup \<mapsto>
       g\<lparr>xg_pending := filter (\<lambda>(j, _). j \<noteq> i) (xg_pending g)\<rparr>)\<rparr>), d))) h w'"
proof (rule exec_rests [OF assms(1), of "XACK stream consumerGroup i"])
  fix w'
  assume "call (exec (XACK stream consumerGroup i)) w = (reply_of (fst (kv_exec (XACK stream consumerGroup i) kv)), w')"
    "rests view (snd (kv_exec (XACK stream consumerGroup i) kv)) h w'"
  then show thesis using that assms(2,3) by (simp add: kv_exec_def)
qed simp

end

text \<open>The stream with one entry of the group acknowledged.\<close>

definition acked :: "nat \<Rightarrow> xstream \<Rightarrow> xgroup \<Rightarrow> xstream" where
  "acked i s g = s\<lparr>xs_groups := (xs_groups s)(consumerGroup \<mapsto>
     g\<lparr>xg_pending := filter (\<lambda>(j, _). j \<noteq> i) (xg_pending g)\<rparr>)\<rparr>"

lemma runHandler_fields:
  assumes "runHandler handler now c h = (r, h')"
  shows "res_CommandID r = cmd_ID c"
  using assms by (auto simp: runHandler_def Let_def split: prod.splits if_splits)

lemma runHandler_completed:
  assumes "runHandler handler now c h = (r, h')" "\<And>x. \<not> IsZero (now x)"
  shows "\<not> IsZero (res_CompletedAt r)"
  using assms by (auto simp: runHandler_def Let_def split: prod.splits if_splits)

context redis_service
begin

lemma record_and_ack:
  assumes rests: "rests view kv h w"
    and res: "res_CommandID r \<noteq> ''''" "\<not> IsZero (res_CompletedAt r)" "marshal_Result r = Inr content"
    and room: "results_at kv (resultKey bus (res_CommandID r)) = Some l" "0 < bus_resultTTL bus"
    and stream: "kv (commandStream bus own) = Some (VStream s, d)" "xs_groups s consumerGroup = Some g"
  obtains w1 w2 n where "complete exec now bus r w = (None, w1)"
    "call (exec (XACK (commandStream bus own) consumerGroup i)) w1 = (Inr (RInt n), w2)"
    "rests view ((recorded bus (res_CommandID r) content l kv)(commandStream bus own \<mapsto> (VStream (acked i s g), d))) h w2"
proof -
  obtain w1 where w1: "complete exec now bus r w = (None, w1)"
    "rests view (recorded bus (res_CommandID r) content l kv) h w1"
    by (rule complete_rests [OF rests res room])
  have s1: "recorded bus (res_CommandID r) content l kv (commandStream bus own) = Some (VStream s, d)"
    using stream(1) by (simp add: recorded_def)
  show thesis
    by (rule ack_rests [OF w1(2) s1 stream(2), of i], rule that [OF w1(1)]) (simp_all add: acked_def)
qed

text \<open>A message seen for the first time runs the handler once; its result is recorded and pushed,
  then the entry is acknowledged.\<close>

lemma process_new:
  assumes rests: "rests view kv h w"
    and c: "decodeCommand vals = Inr c" "kv (completionKey bus (cmd_ID c)) = None"
    and run: "runHandler handler now c h = (r, h')"
    and res: "\<not> IsZero (res_CompletedAt r)" "marshal_Result r = Inr content"
    and room: "results_at kv (resultKey bus (cmd_ID c)) = Some l" "0 < bus_resultTTL bus"
    and stream: "kv (commandStream bus own) = Some (VStream s, d)" "xs_groups s consumerGroup = Some g"
  obtains w' where
    "processMessages exec handler now bus (commandStream bus own) ((i, vals) # ms) w =
       processMessages exec handler now bus (commandStream bus own) ms w'"
    "rests view ((recorded bus (cmd_ID c) content l kv)(commandStream bus own \<mapsto> (VStream (acked i s g), d))) h' w'"
proof -
  obtain w1 where w1: "completed exec bus (cmd_ID c) w = (Inr None, w1)" "rests view kv h w1"
    by (rule completed_none [OF rests c(2)])
  have w2: "rests view kv h' (w1\<lparr>w_out := h'\<rparr>)" and h: "w_out w1 = h"
    using w1(2) by (simp_all add: rests_def)
  have cid: "res_CommandID r = cmd_ID c" by (rule runHandler_fields [OF run])
  have cid0: "res_CommandID r \<noteq> ''''" using decoded_fields [OF c(1)] cid by simp
  have room1: "results_at kv (resultKey bus (res_CommandID r)) = Some l" using room(1) cid by simp
  obtain w3 w4 n where "complete exec now bus r (w1\<lparr>w_out := h'\<rparr>) = (None, w3)"
    "call (exec (XACK (commandStream bus own) consumerGroup i)) w3 = (Inr (RInt n), w4)"
    "rests view ((recorded bus (res_CommandID r) content l kv)(commandStream bus own \<mapsto> (VStream (acked i s g), d))) h' w4"
    by (rule record_and_ack [OF w2 cid0 res room1 room(2) stream, of now i])
  then show thesis using that [of w4] c(1) w1(1) run h cid by simp
qed

text \<open>A message whose result is already recorded does not run the handler.\<close>

lemma process_again:
  assumes rests: "rests view kv h w"
    and c: "decodeCommand vals = Inr c" "kv (completionKey bus (cmd_ID c)) = Some (VString cont, dc)"
      "unmarshal_Result cont = Inr r"
    and res: "res_CommandID r \<noteq> ''''" "\<not> IsZero (res_CompletedAt r)" "marshal_Result r = Inr content"
    and room: "results_at kv (resultKey bus (res_CommandID r)) = Some l" "0 < bus_resultTTL bus"
    and stream: "kv (commandStream bus own) = Some (VStream s, d)" "xs_groups s consumerGroup = Some g"
  obtains w' where
    "processMessages exec handler now bus (commandStream bus own) ((i, vals) # ms) w =
       processMessages exec handler now bus (commandStream bus own) ms w'"
    "rests view ((recorded bus (res_CommandID r) content l kv)(commandStream bus own \<mapsto> (VStream (acked i s g), d))) h w'"
proof -
  obtain w1 where w1: "completed exec bus (cmd_ID c) w = (Inr (Some r), w1)" "rests view kv h w1"
    by (rule completed_some [OF rests c(2,3)])
  obtain w3 w4 n where "complete exec now bus r w1 = (None, w3)"
    "call (exec (XACK (commandStream bus own) consumerGroup i)) w3 = (Inr (RInt n), w4)"
    "rests view ((recorded bus (res_CommandID r) content l kv)(commandStream bus own \<mapsto> (VStream (acked i s g), d))) h w4"
    by (rule record_and_ack [OF w1(2) res room stream, of now i])
  then show thesis using that [of w4] c(1) w1(1) by simp
qed

end

section \<open>Publishing, reading and awaiting\<close>

text \<open>The group has been handed every entry of the stream; what is pending was handed out before.\<close>

definition all_delivered :: "xstream \<Rightarrow> xgroup \<Rightarrow> bool" where
  "all_delivered s g \<longleftrightarrow> (\<forall>e \<in> set (xs_entries s). fst e \<le> xg_last g) \<and> xg_last g \<le> xs_last s \<and>
     (\<forall>p \<in> set (xg_pending g). fst p \<le> xg_last g)"

text \<open>The entries of the stream under a key that its consumer group has pending.\<close>

definition pending_ids :: "keyspace \<Rightarrow> string \<Rightarrow> nat list" where
  "pending_ids kv k =
     (case kv k of
        Some (VStream s, _) \<Rightarrow> (case xs_groups s consumerGroup of Some g \<Rightarrow> map fst (xg_pending g) | None \<Rightarrow> [])
      | _ \<Rightarrow> [])"

lemma filter_pending:
  assumes "all_delivered s g" "xs_last s < i"
  shows "filter (\<lambda>(j, _). j \<noteq> i) (xg_pending g @ [(i, own, t)]) = xg_pending g"
  using assms by (force simp: all_delivered_def filter_id_conv)

definition appended :: "nat \<Rightarrow> nat \<Rightarrow> fields \<Rightarrow> xstream \<Rightarrow> xstream" where
  "appended i j vals s = s\<lparr>xs_last := i, xs_entries := drop j (xs_entries s) @ [(i, vals)]\<rparr>"

definition handed :: "nat \<Rightarrow> string \<Rightarrow> xgroup \<Rightarrow> xgroup" where
  "handed i own g = g\<lparr>xg_last := i, xg_pending := xg_pending g @ [(i, own, 0)]\<rparr>"

lemma undelivered_appended:
  assumes "all_delivered s g" "xs_last s < i"
  shows "undelivered (appended i j vals s) g = [(i, vals)]"
proof -
  have "\<not> xg_last g < fst e" if "e \<in> set (drop j (xs_entries s))" for e
    using assms(1) in_set_dropD [OF that] by (auto simp: all_delivered_def not_less)
  then have "filter (\<lambda>(i, _). xg_last g < i) (drop j (xs_entries s)) = []"
    by (auto simp: filter_empty_conv)
  then show ?thesis using assms by (simp add: undelivered_def appended_def all_delivered_def)
qed

context redis_service
begin

lemma publish_rests:
  assumes "rests view kv h w" "validateCommand c = None"
    and "kv (commandStream bus (cmd_OwnerID c)) = Some (VStream s, d)"
  obtains i j w' where "xs_last s < i" "Publish exec bus c w = (None, w')"
    "rests view (kv(commandStream bus (cmd_OwnerID c) \<mapsto> (VStream (appended i j (command_values c) s), d))) h w'"
proof -
  let ?k = "commandStream bus (cmd_OwnerID c)" and ?x = "XADD (commandStream bus (cmd_OwnerID c)) 10000 (command_values c)"
  obtain rep r' where e: "exec ?x (w_redis w) = (rep, r')" by fastforce
  have "xadd_allowed ?k 10000 (command_values c) kv rep (view r')"
    using exec_spec [OF e] assms(1) by (simp add: redis_spec_def rests_def)
  then obtain i j where ij: "xs_last s < i" "j = 0 \<or> 10000 + j \<le> Suc (length (xs_entries s))" "rep = RInt (int i)"
    "view r' = kv(?k \<mapsto> (VStream (s\<lparr>xs_last := i, xs_entries := drop j (xs_entries s @ [(i, command_values c)])\<rparr>), d))"
    using assms(3) by (auto simp: xadd_allowed_def)
  then have "view r' = kv(?k \<mapsto> (VStream (appended i j (command_values c) s), d))"
    by (auto simp: appended_def)
  moreover have "call (exec ?x) w = (Inr rep, w\<lparr>w_redis := r'\<rparr>)"
    using assms(1) e ij(3) by (simp add: call_def rests_def round_trip_Delivered)
  ultimately show thesis
    using that [OF ij(1), of "w\<lparr>w_redis := r'\<rparr>" j] assms(1,2) by (simp add: Publish_def rests_def)
qed

lemma read_one:
  assumes "rests view kv h w" "kv stream = Some (VStream s, d)" "xs_groups s consumerGroup = Some g"
    and "undelivered s g = [(i, vals)]"
  obtains w' where "call (exec (XREADGROUP stream consumerGroup own 1)) w = (Inr (RMsgs [(i, vals)]), w')"
    "rests view (kv(stream \<mapsto> (VStream (s\<lparr>xs_groups := (xs_groups s)(consumerGroup \<mapsto> handed i own g)\<rparr>), d))) h w'"
proof (rule exec_rests [OF assms(1), of "XREADGROUP stream consumerGroup own 1"])
  fix w'
  assume "call (exec (XREADGROUP stream consumerGroup own 1)) w =
      (reply_of (fst (kv_exec (XREADGROUP stream consumerGroup own 1) kv)), w')"
    "rests view (snd (kv_exec (XREADGROUP stream consumerGroup own 1) kv)) h w'"
  then show thesis
    using that assms(2-4) by (simp add: kv_exec_def read_group_def handed_def)
qed simp

lemma await_found:
  assumes "rests view kv h w" "commandID \<noteq> ''''" "kv (resultKey bus commandID) = Some (VList l, d)" "l \<noteq> []"
    and "unmarshal_Result (last l) = Inr r"
  obtains w' where "AwaitResult exec bus commandID ticks w = (Inr r, w')"
    "rests view (kv(resultKey bus commandID := (if butlast l = [] then None else Some (VList (butlast l), d)))) h w'"
proof (rule exec_rests [OF assms(1), of "RPOP (resultKey bus commandID)"])
  fix w'
  assume "call (exec (RPOP (resultKey bus commandID))) w = (reply_of (fst (kv_exec (RPOP (resultKey bus commandID)) kv)), w')"
    "rests view (snd (kv_exec (RPOP (resultKey bus commandID)) kv)) h w'"
  then show thesis
    using that assms(2-5) by (simp add: kv_exec_def AwaitResult_def await_loop.simps)
qed simp

lemma await_nothing:
  assumes "rests view kv h w" "kv key = None"
  shows "\<exists>w'. await_loop exec key ticks w = (Inl ErrResultTimeout, w') \<and> rests view kv h w'"
  using assms(1)
proof (induction ticks arbitrary: w)
  case (0 w)
  obtain w' where "call (exec (RPOP key)) w = (reply_of (fst (kv_exec (RPOP key) kv)), w')"
    "rests view (snd (kv_exec (RPOP key) kv)) h w'"
    by (rule exec_rests [OF 0(1), of "RPOP key"]) simp_all
  then show ?case using assms(2) by (subst await_loop.simps) (simp add: kv_exec_def)
next
  case (Suc ticks w)
  obtain w' where "call (exec (RPOP key)) w = (reply_of (fst (kv_exec (RPOP key) kv)), w')"
    "rests view (snd (kv_exec (RPOP key) kv)) h w'"
    by (rule exec_rests [OF Suc(2), of "RPOP key"]) simp_all
  then show ?case using assms(2) Suc.IH [of w'] by (subst await_loop.simps) (simp add: kv_exec_def)
qed

end

section \<open>A command and its result, end to end\<close>

context redis_service
begin

lemma read_turn_new:
  assumes rests: "rests view kv h w"
    and stream: "kv (commandStream bus own) = Some (VStream s, d)" "xs_groups s consumerGroup = Some g"
      "undelivered s g = [(i, vals)]"
    and c: "decodeCommand vals = Inr c" "kv (completionKey bus (cmd_ID c)) = None"
    and run: "runHandler handler now c h = (r, h')"
    and res: "\<not> IsZero (res_CompletedAt r)" "marshal_Result r = Inr content"
    and room: "results_at kv (resultKey bus (cmd_ID c)) = Some l" "0 < bus_resultTTL bus"
  obtains w' where "read_turn exec handler now bus own w = (Inr (), w')"
    "rests view ((recorded bus (cmd_ID c) content l kv)(commandStream bus own \<mapsto>
       (VStream (acked i (s\<lparr>xs_groups := (xs_groups s)(consumerGroup \<mapsto> handed i own g)\<rparr>) (handed i own g)), d))) h' w'"
proof -
  let ?s = "s\<lparr>xs_groups := (xs_groups s)(consumerGroup \<mapsto> handed i own g)\<rparr>"
  let ?kv = "kv(commandStream bus own \<mapsto> (VStream ?s, d))"
  obtain w1 where w1: "call (exec (XREADGROUP (commandStream bus own) consumerGroup own 1)) w = (Inr (RMsgs [(i, vals)]), w1)"
    "rests view ?kv h w1"
    by (rule read_one [OF rests stream])
  have none: "?kv (completionKey bus (cmd_ID c)) = None" using c(2) by simp
  have list: "results_at ?kv (resultKey bus (cmd_ID c)) = Some l" using room(1) by (simp add: results_at_def)
  have st: "?kv (commandStream bus own) = Some (VStream ?s, d)" "xs_groups ?s consumerGroup = Some (handed i own g)"
    by simp_all
  obtain w2 where w2: "processMessages exec handler now bus (commandStream bus own) [(i, vals)] w1 =
      processMessages exec handler now bus (commandStream bus own) [] w2"
    "rests view ((recorded bus (cmd_ID c) content l ?kv)(commandStream bus own \<mapsto> (VStream (acked i ?s (handed i own g)), d))) h' w2"
    by (rule process_new [OF w1(2) c(1) none run res list room(2) st, of i "[]"])
  have same: "(recorded bus (cmd_ID c) content l ?kv)(commandStream bus own \<mapsto> x) =
      (recorded bus (cmd_ID c) content l kv)(commandStream bus own \<mapsto> x)" for x
    by (rule ext) (simp add: recorded_def)
  show thesis
  proof (rule that [of w2])
    show "read_turn exec handler now bus own w = (Inr (), w2)"
      using w1(1) w2(1) by (simp add: read_turn_def)
  qed (rule w2(2) [unfolded same])
qed

lemma deliver_command:
  assumes rests: "rests view kv h w"
    and c: "validateCommand c = None" "decodeCommand (command_values c) = Inr c"
    and stream: "kv (commandStream bus (cmd_OwnerID c)) = Some (VStream s, d)" "xs_groups s consumerGroup = Some g"
      "all_delivered s g"
    and fresh: "kv (completionKey bus (cmd_ID c)) = None" "kv (resultKey bus (cmd_ID c)) = None"
    and run: "runHandler handler now c h = (r, h')"
    and res: "\<not> IsZero (res_CompletedAt r)" "marshal_Result r = Inr content" "unmarshal_Result content = Inr r'"
    and ttl: "0 < bus_resultTTL bus"
  obtains w1 w2 w3 d' where "Publish exec bus c w = (None, w1)"
    "read_turn exec handler now bus (cmd_OwnerID c) w1 = (Inr (), w2)"
    "AwaitResult exec bus (cmd_ID c) ticks w2 = (Inr r', w3)" "w_out w3 = h'"
    "view (w_redis w3) (completionKey bus (cmd_ID c)) = Some (VString content, d')"
    "pending_ids (view (w_redis w3)) (commandStream bus (cmd_OwnerID c)) = pending_ids kv (commandStream bus (cmd_OwnerID c))"
proof -
  let ?st = "commandStream bus (cmd_OwnerID c)"
  obtain i j w1 where w1: "xs_last s < i" "Publish exec bus c w = (None, w1)"
    "rests view (kv(?st \<mapsto> (VStream (appended i j (command_values c) s), d))) h w1"
    by (rule publish_rests [OF rests c(1) stream(1)])
  let ?s = "appended i j (command_values c) s" and ?kv = "kv(?st \<mapsto> (VStream (appended i j (command_values c) s), d))"
  have here: "?kv ?st = Some (VStream ?s, d)" "xs_groups ?s consumerGroup = Some g"
    "undelivered ?s g = [(i, command_values c)]"
    using stream(2) undelivered_appended [OF stream(3) w1(1)] by (simp_all add: appended_def)
  have none: "?kv (completionKey bus (cmd_ID c)) = None" "results_at ?kv (resultKey bus (cmd_ID c)) = Some []"
    using fresh by (simp_all add: results_at_def)
  let ?s' = "acked i (?s\<lparr>xs_groups := (xs_groups ?s)(consumerGroup \<mapsto> handed i (cmd_OwnerID c) g)\<rparr>) (handed i (cmd_OwnerID c) g)"
  let ?kv2 = "(recorded bus (cmd_ID c) content [] ?kv)(?st \<mapsto> (VStream ?s', d))"
  obtain w2 where w2: "read_turn exec handler now bus (cmd_OwnerID c) w1 = (Inr (), w2)" "rests view ?kv2 h' w2"
    by (rule read_turn_new [OF w1(3) here c(2) none(1) run res(1,2) none(2) ttl])
  have "cmd_ID c \<noteq> ''''" using decoded_fields [OF c(2)] by simp
  moreover have "?kv2 (resultKey bus (cmd_ID c)) = Some (VList [content], Some (nat (1000 * client_seconds (bus_resultTTL bus))))"
    by (simp add: recorded_def)
  ultimately obtain w3 where w3: "AwaitResult exec bus (cmd_ID c) ticks w2 = (Inr r', w3)"
    "rests view (?kv2(resultKey bus (cmd_ID c) := (if butlast [content] = [] then None else
       Some (VList (butlast [content]), Some (nat (1000 * client_seconds (bus_resultTTL bus))))))) h' w3"
    by (rule await_found [OF w2(2)]) (simp_all add: res(3))
  show thesis
    by (rule that [OF w1(2) w2(1) w3(1)])
      (use w3(2) stream(1,2) filter_pending [OF stream(3) w1(1)] in
        \<open>simp_all add: rests_def recorded_def acked_def handed_def appended_def pending_ids_def\<close>)
qed

end

text \<open>C20: a valid command published to a runtime whose consumer is up to date is taken by that
  consumer's next read, runs the handler exactly once, and whoever awaits the result gets what the
  handler returned (with its payload as compact JSON). The result also stays recorded under the
  completion key, and nothing is left pending.\<close>

theorem command_end_to_end:
  assumes "redis_service exec view" "rests view kv h w"
    and "validateCommand c = None" "unat (cmd_OwnerGeneration c) < 2 ^ 63" "nano_instant (cmd_CreatedAt c)"
      "IsZero (cmd_Deadline c) \<or> nano_instant (cmd_Deadline c)"
    and "kv (commandStream bus (cmd_OwnerID c)) = Some (VStream s, d)" "xs_groups s consumerGroup = Some g"
      "all_delivered s g"
    and "kv (completionKey bus (cmd_ID c)) = None" "kv (resultKey bus (cmd_ID c)) = None"
    and "runHandler handler now c h = (r, h')" "\<not> IsZero (res_CompletedAt r)" "marshal_Result r = Inr content"
    and "valid_utf8 (cmd_ID c)" "valid_utf8 (res_ErrorCode r)" "valid_utf8 (res_ErrorDescription r)"
    and "0 < bus_resultTTL bus"
  shows "\<exists>w1 w2 w3 d'. Publish exec bus c w = (None, w1) \<and>
    read_turn exec handler now bus (cmd_OwnerID c) w1 = (Inr (), w2) \<and>
    AwaitResult exec bus (cmd_ID c) ticks w2 =
      (Inr (r\<lparr>res_Payload := Some (stored_payload (res_Payload r))\<rparr>), w3) \<and>
    w_out w3 = h' \<and>
    view (w_redis w3) (completionKey bus (cmd_ID c)) = Some (VString content, d') \<and>
    pending_ids (view (w_redis w3)) (commandStream bus (cmd_OwnerID c)) = pending_ids kv (commandStream bus (cmd_OwnerID c))"
proof -
  have "decodeCommand (command_values c) = Inr c" using assms(3) decode_values [OF assms(4-6)] by simp
  moreover have "unmarshal_Result content = Inr (r\<lparr>res_Payload := Some (stored_payload (res_Payload r))\<rparr>)"
    using unmarshal_marshal [OF assms(14)] runHandler_fields [OF assms(12)] assms(15-17) by simp
  ultimately show ?thesis
    by (rule redis_service.deliver_command [OF assms(1,2,3) _ assms(7-14) _ assms(18)]) blast
qed

definition demo_bus :: Bus where
  "demo_bus = \<lparr>bus_prefix = ''csms'', bus_resultTTL = 5 * minute\<rparr>"

definition demo_stream :: xstream where
  "demo_stream = empty_stream\<lparr>xs_groups := [consumerGroup \<mapsto> \<lparr>xg_last = 0, xg_pending = []\<rparr>]\<rparr>"

definition bus_store :: store where
  "bus_store = \<lparr>st_now = 0, st_data = [commandStream demo_bus ''pod-a'' \<mapsto> (VStream demo_stream, None)]\<rparr>"

definition bus_world :: "(store, nat) world" where
  "bus_world = \<lparr>w_trips = [], w_redis = bus_store, w_out = 0\<rparr>"

text \<open>A handler that counts its calls.\<close>

definition counting :: "Command \<Rightarrow> nat \<Rightarrow> Result \<times> nat" where
  "counting c n = (demo_result, Suc n)"

lemma command_end_to_end_witness:
  "\<exists>w1 w2 w3. Publish st_exec demo_bus demo_command bus_world = (None, w1) \<and>
    read_turn st_exec counting (\<lambda>_. 1) demo_bus ''pod-a'' w1 = (Inr (), w2) \<and>
    AwaitResult st_exec demo_bus ''c1'' 0 w2 = (Inr (demo_result\<lparr>res_Payload := Some ''{\"status\":\"Accepted\"}''\<rparr>), w3) \<and>
    w_out w3 = 1"
proof -
  obtain content where content: "marshal_Result demo_result = Inr content" using demo_result_marshals by blast
  have payload: "stored_payload (res_Payload demo_result) = ''{\"status\":\"Accepted\"}''"
    using marshal_raw_parses [OF demo_marshal_raw] by (simp add: demo_result_def)
  have run: "runHandler counting (\<lambda>_. 1) demo_command 0 = (demo_result, Suc 0)"
    by (simp add: runHandler_def counting_def demo_result_def demo_command_def IsZero_def zero_time_def)
  have rests: "rests st_view (st_view bus_store) 0 bus_world" by (simp add: rests_def bus_world_def)
  have stream: "st_view bus_store (commandStream demo_bus (cmd_OwnerID demo_command)) = Some (VStream demo_stream, None)"
    and free: "st_view bus_store (completionKey demo_bus (cmd_ID demo_command)) = None"
      "st_view bus_store (resultKey demo_bus (cmd_ID demo_command)) = None"
    by (simp_all add: st_view_def bus_store_def demo_command_def)
  have group: "xs_groups demo_stream consumerGroup = Some \<lparr>xg_last = 0, xg_pending = []\<rparr>"
    "all_delivered demo_stream \<lparr>xg_last = 0, xg_pending = []\<rparr>"
    by (simp_all add: demo_stream_def all_delivered_def empty_stream_def)
  have instants: "IsZero (cmd_Deadline demo_command) \<or> nano_instant (cmd_Deadline demo_command)"
    using demo_command_instants(2) by simp
  have utf8: "valid_utf8 (cmd_ID demo_command)" "valid_utf8 (res_ErrorCode demo_result)" "valid_utf8 (res_ErrorDescription demo_result)"
    by code_simp+
  have finished: "\<not> IsZero (res_CompletedAt demo_result)" "0 < bus_resultTTL demo_bus"
    by (simp_all add: demo_result_def IsZero_def zero_time_def demo_bus_def)
  note e2e = command_end_to_end [OF store.redis_service_axioms rests demo_command_valid demo_command_instants(3,1) instants
    stream group free run finished(1) content utf8 finished(2), of 0]
  then show ?thesis unfolding payload by (auto simp: demo_command_def)
qed

end
