(* ===== verification/Bus_Faults.thy ===== *)
theory Bus_Faults
  imports Bus_Protocol
begin

text \<open>
  The command bus when things go wrong: requests and replies that get lost, redelivered messages,
  entries that cannot be decoded, results that arrive late, and how the consumer's loop ends.
\<close>

section \<open>Worlds with faults\<close>

text \<open>Round trips may fail in any way, but nobody else writes: interference leaves the keyspace alone.\<close>

definition faults_only :: "('r \<Rightarrow> keyspace) \<Rightarrow> ('r, 'h) world \<Rightarrow> bool" where
  "faults_only view w \<longleftrightarrow> (\<forall>t \<in> set (w_trips w). \<forall>r. view (tr_between t r) = view r)"

abbreviation kv_of :: "('r \<Rightarrow> keyspace) \<Rightarrow> ('r, 'h) world \<Rightarrow> keyspace" where
  "kv_of view w \<equiv> view (w_redis w)"

lemma faults_only_out [simp]: "faults_only view (w\<lparr>w_out := h\<rparr>) = faults_only view w"
  by (simp add: faults_only_def)

text \<open>A failed call had the effect of the command or none; a successful one had it.\<close>

lemma call_faults:
  assumes "faults_only view w" "\<And>r. kcmd (view r) = (fst (cmd r), view (snd (cmd r)))" "call cmd w = (res, w')"
  shows "faults_only view w' \<and> w_out w' = w_out w \<and> kv_of view w' \<in> {kv_of view w, snd (kcmd (kv_of view w))} \<and>
    (\<forall>rep. res = Inr rep \<longrightarrow> kcmd (kv_of view w) = (rep, kv_of view w') \<and> (\<forall>e. rep \<noteq> RErr e))"
proof (cases "w_trips w")
  case Nil
  then show ?thesis
    using assms(1,3) assms(2) [of "w_redis w"]
    by (auto simp: call_def faults_only_def round_trip_Delivered reply_of_def split: redis_reply.splits)
next
  case (Cons t ts)
  let ?r = "tr_between t (w_redis w)"
  have same: "view ?r = view (w_redis w)" using assms(1) Cons by (simp add: faults_only_def)
  show ?thesis
    using assms(1,3) assms(2) [of ?r] Cons same
    by (cases "tr_fate t")
      (auto simp: call_def faults_only_def round_trip_def split: redis_reply.splits prod.splits)
qed

context redis_service
begin

lemmas exec_faults = call_faults [where kcmd = "kv_exec c" and cmd = "exec c" for c, OF _ exec_view]
lemmas tx_faults = call_faults [where kcmd = "tx kv_exec cs" and cmd = "tx exec cs" for cs, OF _ tx_view]

end

section \<open>What the consumer's calls touch\<close>

lemma kv_frame:
  "k' \<noteq> k \<Longrightarrow> snd (kv_exec (SETPX k v ms) kv) k' = kv k'"
  "k' \<noteq> k \<Longrightarrow> snd (kv_exec (LPUSH k v) kv) k' = kv k'"
  "k' \<noteq> k \<Longrightarrow> snd (kv_exec (PEXPIRE k ms) kv) k' = kv k'"
  "k' \<noteq> k \<Longrightarrow> snd (kv_exec (XACK k g i) kv) k' = kv k'"
  "snd (kv_exec (GET k) kv) = kv"
  by (auto simp: kv_exec_def split: option.split rvalue.split)

lemma snd_tx: "snd (tx ex [a, b, c] r) = snd (ex c (snd (ex b (snd (ex a r)))))"
  by (simp split: prod.split redis_reply.split)

lemma tx_first_ok: "tx ex (a # cs) r = (rep, r') \<Longrightarrow> \<forall>e. rep \<noteq> RErr e \<Longrightarrow> \<forall>e. fst (ex a r) \<noteq> RErr e"
  by (auto split: prod.splits redis_reply.splits)

definition has_completion :: "Bus \<Rightarrow> keyspace \<Rightarrow> string \<Rightarrow> bool" where
  "has_completion bus kv i \<longleftrightarrow> (\<exists>s d. kv (completionKey bus i) = Some (VString s, d))"

definition record_cmds :: "Bus \<Rightarrow> string \<Rightarrow> string \<Rightarrow> redis_cmd list" where
  "record_cmds bus i content =
     [SETPX (completionKey bus i) content (client_millis (bus_resultTTL bus)), LPUSH (resultKey bus i) content,
      PEXPIRE (resultKey bus i) (1000 * client_seconds (bus_resultTTL bus))]"

lemma record_no_xadd [simp]: "list_all no_xadd (record_cmds bus i content)"
  by (simp add: record_cmds_def)

text \<open>The recording transaction touches no stream and removes no completion; when it succeeds the
  completion is there.\<close>

lemma record_frame:
  assumes "k \<noteq> completionKey bus i" "k \<noteq> resultKey bus i"
  shows "snd (tx kv_exec (record_cmds bus i content) kv) k = kv k"
  using assms by (simp add: record_cmds_def snd_tx kv_frame del: tx.simps)

lemma record_completion:
  "snd (tx kv_exec (record_cmds bus i content) kv) (completionKey bus i) =
     snd (kv_exec (SETPX (completionKey bus i) content (client_millis (bus_resultTTL bus))) kv) (completionKey bus i)"
  by (simp add: record_cmds_def snd_tx kv_frame del: tx.simps)

lemma record_mono:
  assumes "has_completion bus kv j"
  shows "has_completion bus (snd (tx kv_exec (record_cmds bus i content) kv)) j"
proof (cases "j = i")
  case True
  then show ?thesis
    using assms unfolding has_completion_def True record_completion by (auto simp: kv_exec_def)
next
  case False
  then show ?thesis using assms by (simp add: has_completion_def record_frame)
qed

lemma record_ok:
  assumes "tx kv_exec (record_cmds bus i content) kv = (rep, kv')" "\<forall>e. rep \<noteq> RErr e"
  shows "has_completion bus kv' i"
proof -
  have "\<forall>e. fst (kv_exec (SETPX (completionKey bus i) content (client_millis (bus_resultTTL bus))) kv) \<noteq> RErr e"
    using tx_first_ok [of kv_exec _ _ kv] assms unfolding record_cmds_def by blast
  then show ?thesis
    using record_completion [of bus i content kv] assms(1)
    by (auto simp: has_completion_def kv_exec_def split: if_splits)
qed

lemma pending_frame: "kv' k = kv k \<Longrightarrow> pending_ids kv' k = pending_ids kv k"
  by (simp add: pending_ids_def)

lemma pending_idsE:
  assumes "j \<in> set (pending_ids kv k)"
  obtains s d g where "kv k = Some (VStream s, d)" "xs_groups s consumerGroup = Some g" "j \<in> fst ` set (xg_pending g)"
  using assms by (auto simp: pending_ids_def split: option.splits rvalue.splits) (metis fst_conv image_eqI)

lemma ack_pending:
  assumes "j \<noteq> i" "j \<in> set (pending_ids kv k)"
  shows "j \<in> set (pending_ids (snd (kv_exec (XACK k consumerGroup i) kv)) k)"
  using assms(2)
proof (rule pending_idsE)
  fix s d g
  assume "kv k = Some (VStream s, d)" "xs_groups s consumerGroup = Some g" "j \<in> fst ` set (xg_pending g)"
  then show ?thesis using assms(1) by (force simp: pending_ids_def kv_exec_def)
qed

lemma ack_completion: "has_completion bus (snd (kv_exec (XACK (commandStream bus own) g i) kv)) j = has_completion bus kv j"
  by (simp add: has_completion_def kv_frame)

lemma processMessages_Cons:
  "processMessages exec handler now bus stream (m # ms) w =
     (case processMessages exec handler now bus stream [m] w of
        (Some err, w1) \<Rightarrow> (Some err, w1)
      | (None, w1) \<Rightarrow> processMessages exec handler now bus stream ms w1)"
  by (cases m) (simp split: sum.split prod.split option.split)

section \<open>Steps under faults\<close>

context redis_service
begin

lemma completed_faults:
  assumes "faults_only view w" "completed exec bus i w = (res, w')"
  shows "faults_only view w' \<and> w_out w' = w_out w \<and> kv_of view w' = kv_of view w \<and>
    (has_completion bus (kv_of view w) i \<longrightarrow> res \<noteq> Inr None) \<and>
    (\<forall>r. res = Inr (Some r) \<longrightarrow> has_completion bus (kv_of view w) i)"
proof -
  obtain rep w1 where call: "call (exec (GET (completionKey bus i))) w = (rep, w1)" by fastforce
  note f = exec_faults [OF assms(1) no_xadd_simps(1) call]
  have w: "w' = w1" using assms(2) call
    by (auto simp: completed_def split: sum.splits redis_reply.splits)
  have kv: "kv_of view w' = kv_of view w" using f w by (auto simp: kv_frame)
  show ?thesis
  proof (cases rep)
    case (Inl err)
    then show ?thesis using assms(2) call f kv w by (auto simp: completed_def)
  next
    case (Inr x)
    then have "kv_exec (GET (completionKey bus i)) (kv_of view w) = (x, kv_of view w)" using f kv w by simp
    then have "(has_completion bus (kv_of view w) i \<longrightarrow> x \<noteq> RNil) \<and>
        (\<forall>s. x = RBulk s \<longrightarrow> has_completion bus (kv_of view w) i)"
      by (auto simp: kv_exec_def has_completion_def wrongtype_def split: option.splits rvalue.splits)
    then show ?thesis
      using assms(2) call f kv w Inr by (auto simp: completed_def split: redis_reply.splits sum.splits)
  qed
qed

lemma complete_faults:
  assumes "faults_only view w" "complete exec now bus r w = (res, w')"
  shows "faults_only view w' \<and> w_out w' = w_out w \<and>
    pending_ids (kv_of view w') (commandStream bus own) = pending_ids (kv_of view w) (commandStream bus own) \<and>
    (\<forall>j. has_completion bus (kv_of view w) j \<longrightarrow> has_completion bus (kv_of view w') j) \<and>
    (res = None \<longrightarrow> has_completion bus (kv_of view w') (res_CommandID r))"
proof (cases "res_CommandID r = ''''")
  case True
  then show ?thesis using assms by (auto simp: complete_def)
next
  case False
  define r1 where "r1 = (if IsZero (res_CompletedAt r) then r\<lparr>res_CompletedAt := now (w_out w)\<rparr> else r)"
  have cid: "res_CommandID r1 = res_CommandID r" by (simp add: r1_def)
  show ?thesis
  proof (cases "marshal_Result r1")
    case (Inl err)
    then show ?thesis using assms False by (auto simp: complete_def r1_def [symmetric])
  next
    case (Inr content)
    obtain rep w1 where call: "call (tx exec (record_cmds bus (res_CommandID r) content)) w = (rep, w1)" by fastforce
    note f = tx_faults [OF assms(1) record_no_xadd call]
    have w: "w' = w1" and res: "res = None \<longrightarrow> (\<exists>x. rep = Inr x)"
      using assms(2) call False Inr cid
      by (auto simp: complete_def r1_def [symmetric] record_cmds_def simp del: tx.simps split: sum.splits)
    let ?kv = "snd (tx kv_exec (record_cmds bus (res_CommandID r) content) (kv_of view w))"
    have "pending_ids ?kv (commandStream bus own) = pending_ids (kv_of view w) (commandStream bus own)"
      by (rule pending_frame) (simp add: record_frame)
    moreover have "has_completion bus (kv_of view w') (res_CommandID r)" if none: "res = None"
    proof -
      obtain x where "rep = Inr x" using none res by blast
      then show ?thesis using f w record_ok [of bus "res_CommandID r" content "kv_of view w" x] by blast
    qed
    moreover have "has_completion bus ?kv j" if "has_completion bus (kv_of view w) j" for j
      by (rule record_mono [OF that])
    ultimately show ?thesis using f w by auto
  qed
qed

end

context redis_service
begin

text \<open>One message: completions stay, other pending entries stay, and its own entry stays pending
  unless its result is recorded. The handler does not run when it already is.\<close>

lemma message_faults:
  assumes "faults_only view w" "processMessages exec handler now bus (commandStream bus own) [(i, vals)] w = (res, w')"
  shows "faults_only view w' \<and>
    (\<forall>j. has_completion bus (kv_of view w) j \<longrightarrow> has_completion bus (kv_of view w') j) \<and>
    (\<forall>j. j \<noteq> i \<longrightarrow> j \<in> set (pending_ids (kv_of view w) (commandStream bus own)) \<longrightarrow>
       j \<in> set (pending_ids (kv_of view w') (commandStream bus own))) \<and>
    (\<forall>c. decodeCommand vals = Inr c \<longrightarrow> i \<in> set (pending_ids (kv_of view w) (commandStream bus own)) \<longrightarrow>
       i \<in> set (pending_ids (kv_of view w') (commandStream bus own)) \<or> has_completion bus (kv_of view w') (cmd_ID c)) \<and>
    ((\<forall>c. decodeCommand vals = Inr c \<longrightarrow> has_completion bus (kv_of view w) (cmd_ID c)) \<longrightarrow> w_out w' = w_out w)"
proof (cases "decodeCommand vals")
  case (Inl err)
  then show ?thesis using assms by auto
next
  case (Inr c)
  obtain found w1 where get: "completed exec bus (cmd_ID c) w = (found, w1)" by fastforce
  note f1 = completed_faults [OF assms(1) get]
  show ?thesis
  proof (cases found)
    case (Inl err)
    then show ?thesis using assms(2) Inr get f1 by auto
  next
    case found: (Inr fnd)
    define r where "r = (case fnd of Some x \<Rightarrow> x | None \<Rightarrow> fst (runHandler handler now c (w_out w1)))"
    define w2 where "w2 = (case fnd of Some x \<Rightarrow> w1 | None \<Rightarrow> w1\<lparr>w_out := snd (runHandler handler now c (w_out w1))\<rparr>)"
    have w2: "faults_only view w2" "kv_of view w2 = kv_of view w" "fnd \<noteq> None \<longrightarrow> w_out w2 = w_out w"
      using f1 by (auto simp: w2_def split: option.split)
    obtain e w3 where comp: "complete exec now bus r w2 = (e, w3)" by fastforce
    note f2 = complete_faults [OF w2(1) comp, of own]
    have mine: "has_completion bus (kv_of view w3) (cmd_ID c)" if "e = None"
    proof (cases fnd)
      case None
      then have "res_CommandID r = cmd_ID c"
        using runHandler_fields [of handler now c "w_out w1", OF prod.collapse [symmetric]] by (simp add: r_def)
      then show ?thesis using f2 that by simp
    next
      case (Some x)
      then show ?thesis using f1 f2 found w2(2) by auto
    qed
    have out: "has_completion bus (kv_of view w) (cmd_ID c) \<longrightarrow> w_out w3 = w_out w"
      using f1 f2 found w2(3) by auto
    have run: "processMessages exec handler now bus (commandStream bus own) [(i, vals)] w =
        (case complete exec now bus r w2 of
           (Some err, w3) \<Rightarrow> (Some err, w3)
         | (None, w3) \<Rightarrow>
             (case call (exec (XACK (commandStream bus own) consumerGroup i)) w3 of
                (Inl err, w4) \<Rightarrow> (Some (errors_Wrap ''ack Redis command: '' err), w4)
              | (Inr _, w4) \<Rightarrow> (None, w4)))"
      using Inr get found by (simp add: r_def w2_def split: option.split prod.split sum.split)
    show ?thesis
    proof (cases e)
      case (Some err)
      then show ?thesis using assms(2) run comp f2 w2(2) out Inr by simp
    next
      case None
      obtain rep w4 where ack: "call (exec (XACK (commandStream bus own) consumerGroup i)) w3 = (rep, w4)" by fastforce
      then have w': "w' = w4" using assms(2) run comp None by (auto split: sum.splits)
      have f3: "faults_only view w3" using f2 by simp
      note f4 = exec_faults [OF f3 no_xadd_simps(6) ack]
      have "has_completion bus (kv_of view w4) j = has_completion bus (kv_of view w3) j" for j
        using f4 ack_completion by auto
      moreover have "j \<in> set (pending_ids (kv_of view w4) (commandStream bus own))"
        if "j \<noteq> i" "j \<in> set (pending_ids (kv_of view w3) (commandStream bus own))" for j
        using f4 ack_pending [OF that] that by auto
      ultimately show ?thesis using w' f2 f4 w2(2) mine [OF None] out Inr by simp
    qed
  qed
qed

end

context redis_service
begin

lemma messages_faults:
  assumes "faults_only view w" "processMessages exec handler now bus (commandStream bus own) ms w = (res, w')"
  shows "faults_only view w' \<and>
    (\<forall>j. has_completion bus (kv_of view w) j \<longrightarrow> has_completion bus (kv_of view w') j) \<and>
    (\<forall>j. j \<notin> fst ` set ms \<longrightarrow> j \<in> set (pending_ids (kv_of view w) (commandStream bus own)) \<longrightarrow>
       j \<in> set (pending_ids (kv_of view w') (commandStream bus own)))"
  using assms
proof (induction ms arbitrary: w)
  case (Cons m ms)
  obtain i vals where m: "m = (i, vals)" by fastforce
  obtain e w1 where one: "processMessages exec handler now bus (commandStream bus own) [(i, vals)] w = (e, w1)" by fastforce
  note f = message_faults [OF Cons.prems(1) one]
  show ?case
  proof (cases e)
    case None
    then have "processMessages exec handler now bus (commandStream bus own) ms w1 = (res, w')"
      using Cons.prems(2) one m processMessages_Cons [of exec handler now bus _ m ms w] by simp
    then show ?thesis using Cons.IH [of w1] f m by auto
  next
    case (Some err)
    then have "w' = w1" using Cons.prems(2) one m processMessages_Cons [of exec handler now bus _ m ms w] by simp
    then show ?thesis using f m by auto
  qed
qed simp

lemma pending_until_recorded:
  assumes "faults_only view w" "processMessages exec handler now bus (commandStream bus own) ms w = (res, w')"
    and "distinct (map fst ms)" "(i, vals) \<in> set ms" "decodeCommand vals = Inr c"
    and "i \<in> set (pending_ids (kv_of view w) (commandStream bus own))"
  shows "i \<in> set (pending_ids (kv_of view w') (commandStream bus own)) \<or> has_completion bus (kv_of view w') (cmd_ID c)"
  using assms
proof (induction ms arbitrary: w)
  case (Cons m ms)
  obtain e w1 where one: "processMessages exec handler now bus (commandStream bus own) [m] w = (e, w1)" by fastforce
  note f = message_faults [of w handler now bus own "fst m" "snd m" e w1, OF Cons.prems(1)] one
  note split = processMessages_Cons [of exec handler now bus "commandStream bus own" m ms w]
  show ?case
  proof (cases "m = (i, vals)")
    case True
    then have here: "i \<in> set (pending_ids (kv_of view w1) (commandStream bus own)) \<or> has_completion bus (kv_of view w1) (cmd_ID c)"
      and fo: "faults_only view w1" using f Cons.prems(5,6) by auto
    show ?thesis
    proof (cases e)
      case None
      then have rest: "processMessages exec handler now bus (commandStream bus own) ms w1 = (res, w')"
        using Cons.prems(2) one split by simp
      have "i \<notin> fst ` set ms" using Cons.prems(3) True by simp
      then show ?thesis using messages_faults [OF fo rest] here by blast
    next
      case (Some err)
      then show ?thesis using Cons.prems(2) one split here by simp
    qed
  next
    case False
    then have mem: "(i, vals) \<in> set ms" and neq: "i \<noteq> fst m" using Cons.prems(3,4) by (auto simp: image_iff)
    then have pend: "i \<in> set (pending_ids (kv_of view w1) (commandStream bus own))" and fo: "faults_only view w1"
      using f Cons.prems(6) by auto
    show ?thesis
    proof (cases e)
      case None
      then show ?thesis using Cons.IH [OF fo _ _ mem Cons.prems(5) pend] Cons.prems(2,3) one split by simp
    next
      case (Some err)
      then show ?thesis using Cons.prems(2) one split pend by simp
    qed
  qed
qed simp

lemma recorded_not_rerun:
  assumes "faults_only view w" "processMessages exec handler now bus (commandStream bus own) ms w = (res, w')"
    and "\<And>i vals c. (i, vals) \<in> set ms \<Longrightarrow> decodeCommand vals = Inr c \<Longrightarrow> has_completion bus (kv_of view w) (cmd_ID c)"
  shows "w_out w' = w_out w"
  using assms
proof (induction ms arbitrary: w)
  case (Cons m ms)
  obtain e w1 where one: "processMessages exec handler now bus (commandStream bus own) [m] w = (e, w1)" by fastforce
  have f: "faults_only view w1" "\<forall>j. has_completion bus (kv_of view w) j \<longrightarrow> has_completion bus (kv_of view w1) j"
    "w_out w1 = w_out w"
    using message_faults [of w handler now bus own "fst m" "snd m" e w1, OF Cons.prems(1)] one
      Cons.prems(3) [of "fst m" "snd m"] by auto
  note split = processMessages_Cons [of exec handler now bus "commandStream bus own" m ms w]
  show ?case
  proof (cases e)
    case None
    then have "processMessages exec handler now bus (commandStream bus own) ms w1 = (res, w')"
      using Cons.prems(2) one split by simp
    moreover have "has_completion bus (kv_of view w1) (cmd_ID c)"
      if "(i, vals) \<in> set ms" "decodeCommand vals = Inr c" for i vals c
      using Cons.prems(3) [of i vals c] that f(2) by simp
    ultimately have "w_out w' = w_out w1" by (rule Cons.IH [OF f(1)])
    then show ?thesis using f(3) by simp
  next
    case (Some err)
    then show ?thesis using Cons.prems(2) one split f(3) by simp
  qed
qed simp

end

text \<open>C3: whatever happens to the consumer's round trips (requests lost before the server saw them,
  replies lost after it acted, error replies), a stream entry stops being pending only once the
  result of its command is recorded under the completion key. So a command is never acknowledged
  and lost: it is either redelivered or has a result.\<close>

theorem never_lost:
  assumes "redis_service exec view" "faults_only view w"
    and "processMessages exec handler now bus (commandStream bus own) ms w = (res, w')"
    and "distinct (map fst ms)" "(i, vals) \<in> set ms" "decodeCommand vals = Inr c"
    and "i \<in> set (pending_ids (view (w_redis w)) (commandStream bus own))"
  shows "i \<in> set (pending_ids (view (w_redis w')) (commandStream bus own)) \<or>
    (\<exists>s d. view (w_redis w') (completionKey bus (cmd_ID c)) = Some (VString s, d))"
  using redis_service.pending_until_recorded [OF assms] by (simp add: has_completion_def)

text \<open>C4: redelivered messages whose results are recorded never run the handler again, whatever
  happens to the consumer's round trips, and the records stay.\<close>

theorem recorded_never_rerun:
  assumes "redis_service exec view" "faults_only view w"
    and "processMessages exec handler now bus (commandStream bus own) ms w = (res, w')"
    and "\<And>i vals c. (i, vals) \<in> set ms \<Longrightarrow> decodeCommand vals = Inr c \<Longrightarrow>
      \<exists>s d. view (w_redis w) (completionKey bus (cmd_ID c)) = Some (VString s, d)"
  shows "w_out w' = w_out w \<and>
    (\<forall>i. (\<exists>s d. view (w_redis w) (completionKey bus i) = Some (VString s, d)) \<longrightarrow>
         (\<exists>s d. view (w_redis w') (completionKey bus i) = Some (VString s, d)))"
  using redis_service.recorded_not_rerun [OF assms(1-3)] redis_service.messages_faults [OF assms(1-3)] assms(4)
  by (simp add: has_completion_def)

text \<open>A stream with one pending entry, and round trips of which the second loses its reply.\<close>

definition pending_stream :: "fields \<Rightarrow> xstream" where
  "pending_stream vals = \<lparr>xs_last = 1, xs_entries = [(1, vals)],
     xs_groups = [consumerGroup \<mapsto> \<lparr>xg_last = 1, xg_pending = [(1, ''pod-a'', 6000)]\<rparr>]\<rparr>"

definition pending_store :: "fields \<Rightarrow> store" where
  "pending_store vals = \<lparr>st_now = 0, st_data = [commandStream demo_bus ''pod-a'' \<mapsto> (VStream (pending_stream vals), None),
     completionKey demo_bus ''c1'' \<mapsto> (VString ''{}'', Some 1000)]\<rparr>"

definition faulty_world :: "(store, nat) world" where
  "faulty_world = \<lparr>w_trips = [\<lparr>tr_between = id, tr_fate = Delivered\<rparr>, \<lparr>tr_between = id, tr_fate = Lost_reply (errors_New ''EOF'')\<rparr>],
     w_redis = pending_store (command_values demo_command), w_out = 0\<rparr>"

lemma demo_decodes: "decodeCommand (command_values demo_command) = Inr demo_command"
  by (subst decode_values) (use demo_command_valid demo_command_instants in simp_all)

lemma faulty_world_faults: "faults_only st_view faulty_world"
  by (simp add: faults_only_def faulty_world_def)

lemma never_lost_witness:
  "\<exists>res w'. processMessages st_exec counting (\<lambda>_. 1) demo_bus (commandStream demo_bus ''pod-a'')
       [(1, command_values demo_command)] faulty_world = (res, w') \<and>
     (1 \<in> set (pending_ids (st_view (w_redis w')) (commandStream demo_bus ''pod-a'')) \<or>
      (\<exists>s d. st_view (w_redis w') (completionKey demo_bus ''c1'') = Some (VString s, d)))"
proof -
  obtain res w' where run: "processMessages st_exec counting (\<lambda>_. 1) demo_bus (commandStream demo_bus ''pod-a'')
       [(1, command_values demo_command)] faulty_world = (res, w')"
    by fastforce
  have pend: "1 \<in> set (pending_ids (st_view (w_redis faulty_world)) (commandStream demo_bus ''pod-a''))"
    by (simp add: faulty_world_def pending_store_def pending_stream_def pending_ids_def st_view_def)
  show ?thesis
    using never_lost [OF store.redis_service_axioms faulty_world_faults run _ _ demo_decodes pend] run
    by (simp add: demo_command_def)
qed

lemma recorded_never_rerun_witness:
  "w_out (snd (processMessages st_exec counting (\<lambda>_. 1) demo_bus (commandStream demo_bus ''pod-a'')
     [(1, command_values demo_command)] faulty_world)) = 0"
proof -
  obtain res w' where run: "processMessages st_exec counting (\<lambda>_. 1) demo_bus (commandStream demo_bus ''pod-a'')
       [(1, command_values demo_command)] faulty_world = (res, w')"
    by fastforce
  have "\<exists>s d. st_view (w_redis faulty_world) (completionKey demo_bus (cmd_ID c)) = Some (VString s, d)"
    if "(i, vals) \<in> set [(1, command_values demo_command)]" "decodeCommand vals = Inr c" for i vals c
    using that demo_decodes
    by (auto simp: faulty_world_def pending_store_def st_view_def demo_command_def)
  then show ?thesis
    using recorded_never_rerun [OF store.redis_service_axioms faulty_world_faults run] run
    by (simp add: faulty_world_def)
qed

section \<open>Entries that cannot be decoded\<close>

context redis_service
begin

lemma poison_turn:
  assumes "rests view kv h w" "kv (commandStream bus own) = Some (VStream s, d)" "xs_groups s consumerGroup = Some g"
    and "xg_pending g = (i, con, t) # ps" "Milliseconds pendingMinIdle \<le> t" "map_of (xs_entries s) i = Some vals"
    and "decodeCommand vals = Inl err" "pendingMinIdle \<le> now h - lastRecovery"
  obtains w' where "consumer_turn exec handler now bus own lastRecovery w = (Inl (Some err), w')" "w_out w' = h"
    "i \<in> set (pending_ids (view (w_redis w')) (commandStream bus own))"
proof (rule exec_rests [OF assms(1), of "XAUTOCLAIM (commandStream bus own) consumerGroup own (Milliseconds pendingMinIdle) 10"])
  let ?x = "XAUTOCLAIM (commandStream bus own) consumerGroup own (Milliseconds pendingMinIdle) 10"
  fix w'
  assume w': "call (exec ?x) w = (reply_of (fst (kv_exec ?x kv)), w')" "rests view (snd (kv_exec ?x kv)) h w'"
  obtain ms qs where "autoclaim own (Milliseconds pendingMinIdle) (10 - 1) (map_of (xs_entries s)) ps = (ms, qs)"
    by fastforce
  then have claim: "autoclaim own (Milliseconds pendingMinIdle) 10 (map_of (xs_entries s)) (xg_pending g) =
      ((i, vals) # ms, (i, own, 0) # qs)"
    using assms(4-6) by simp
  have x: "kv_exec ?x kv = (RMsgs ((i, vals) # ms), kv(commandStream bus own \<mapsto> (VStream (s\<lparr>xs_groups :=
      (xs_groups s)(consumerGroup \<mapsto> g\<lparr>xg_pending := (i, own, 0) # qs\<rparr>)\<rparr>), d)))"
    using assms(2,3) claim by (simp add: kv_exec_def)
  have out: "w_out w = h" "w_out w' = h" using assms(1) w'(2) by (simp_all add: rests_def)
  show thesis
  proof (rule that [of w'])
    show "consumer_turn exec handler now bus own lastRecovery w = (Inl (Some err), w')"
      using w'(1) x assms(7,8) out by (simp add: consumer_turn_def recover_turn_def Let_def)
    show "i \<in> set (pending_ids (view (w_redis w')) (commandStream bus own))"
      using w'(2) x by (simp add: rests_def pending_ids_def)
  qed (rule out(2))
qed simp

lemma group_exists:
  assumes "rests view kv h w" "kv stream = Some (VStream s, d)" "xs_groups s consumerGroup = Some g"
  obtains err w' where "call (exec (XGROUP_CREATE stream consumerGroup)) w = (Inl err, w')" "isBusyGroup err" "rests view kv h w'"
proof (rule exec_rests [OF assms(1), of "XGROUP_CREATE stream consumerGroup"])
  fix w'
  assume "call (exec (XGROUP_CREATE stream consumerGroup)) w = (reply_of (fst (kv_exec (XGROUP_CREATE stream consumerGroup) kv)), w')"
    "rests view (snd (kv_exec (XGROUP_CREATE stream consumerGroup) kv)) h w'"
  then show thesis
    using that assms(2,3) by (simp add: kv_exec_def isBusyGroup_def HasPrefix_def errors_New_def)
qed simp

end



section \<open>How the consumer's loop ends\<close>

text \<open>\<open>w'\<close> is reached from \<open>w\<close> by round trips that were all delivered.\<close>

definition delivered_to :: "('r, 'h) world \<Rightarrow> ('r, 'h) world \<Rightarrow> bool" where
  "delivered_to w w' \<longleftrightarrow> (\<exists>ts. w_trips w = ts @ w_trips w' \<and> (\<forall>t \<in> set ts. tr_fate t = Delivered))"

lemma delivered_refl [simp]: "delivered_to w w"
  by (simp add: delivered_to_def)

lemma delivered_out [simp]: "delivered_to w (w'\<lparr>w_out := h\<rparr>) = delivered_to w w'"
  by (simp add: delivered_to_def)

lemma delivered_trans: "delivered_to w w1 \<Longrightarrow> delivered_to w1 w2 \<Longrightarrow> delivered_to w w2"
  unfolding delivered_to_def by (metis UnE append.assoc set_append)

lemma call_delivered: "call cmd w = (Inr rep, w') \<Longrightarrow> delivered_to w w' \<and> (w_trips w \<noteq> [] \<longrightarrow> length (w_trips w') < length (w_trips w))"
  by (cases "w_trips w") (auto simp: call_def delivered_to_def round_trip_Inr split: prod.splits)

lemma completed_delivered: "completed exec bus i w = (Inr x, w') \<Longrightarrow> delivered_to w w'"
  by (auto simp: completed_def split: prod.splits sum.splits redis_reply.splits dest!: call_delivered)

lemma complete_delivered: "complete exec now bus r w = (None, w') \<Longrightarrow> delivered_to w w'"
  by (auto simp: complete_def Let_def split: prod.splits sum.splits if_splits dest!: call_delivered simp del: tx.simps)

lemma message_delivered:
  assumes "processMessages exec handler now bus stream [(i, vals)] w = (None, w')"
  shows "delivered_to w w'"
proof -
  obtain c w1 r w2 w3 w4 n where "decodeCommand vals = Inr c" and step:
    "\<exists>x. completed exec bus (cmd_ID c) w = (Inr x, w1)" "\<exists>h. w2 = w1\<lparr>w_out := h\<rparr>"
    "complete exec now bus r w2 = (None, w3)" "call (exec (XACK stream consumerGroup i)) w3 = (Inr n, w4)" "w' = w4"
  proof -
    obtain c where c: "decodeCommand vals = Inr c" using assms by (auto split: sum.splits)
    obtain f w1 where f: "completed exec bus (cmd_ID c) w = (Inr f, w1)"
      using assms c by (cases "completed exec bus (cmd_ID c) w"; cases "fst (completed exec bus (cmd_ID c) w)") auto
    obtain r w2 where rw: "(case f of Some result \<Rightarrow> (result, w1)
        | None \<Rightarrow> (case runHandler handler now c (w_out w1) of (result, h) \<Rightarrow> (result, w1\<lparr>w_out := h\<rparr>))) = (r, w2)"
      by fastforce
    have w2: "\<exists>h. w2 = w1\<lparr>w_out := h\<rparr>"
    proof (cases f)
      case None
      then show ?thesis using rw by (auto split: prod.splits)
    next
      case (Some a)
      then have "w2 = w1\<lparr>w_out := w_out w1\<rparr>" using rw by simp
      then show ?thesis ..
    qed
    obtain w3 where w3: "complete exec now bus r w2 = (None, w3)"
      using assms c f rw by (cases "complete exec now bus r w2"; cases "fst (complete exec now bus r w2)") auto
    obtain n w4 where w4: "call (exec (XACK stream consumerGroup i)) w3 = (Inr n, w4)"
      using assms c f rw w3
      by (cases "call (exec (XACK stream consumerGroup i)) w3"; cases "fst (call (exec (XACK stream consumerGroup i)) w3)") auto
    have "w' = w4" using assms c f rw w3 w4 by simp
    then show thesis using that c f w2 w3 w4 by blast
  qed
  obtain x h where "delivered_to w w1" "w2 = w1\<lparr>w_out := h\<rparr>" using step(1,2) completed_delivered by blast
  then have "delivered_to w w2" by simp
  moreover have "delivered_to w2 w3" by (rule complete_delivered [OF step(3)])
  moreover have "delivered_to w3 w4" using call_delivered [OF step(4)] by simp
  ultimately show ?thesis using step(5) delivered_trans by blast
qed

lemma messages_delivered:
  "processMessages exec handler now bus stream ms w = (None, w') \<Longrightarrow> delivered_to w w'"
proof (induction ms arbitrary: w)
  case (Cons m ms)
  obtain i vals where m: "m = (i, vals)" by fastforce
  obtain w1 where w1: "processMessages exec handler now bus stream [(i, vals)] w = (None, w1)"
    "processMessages exec handler now bus stream ms w1 = (None, w')"
    using Cons.prems processMessages_Cons [of exec handler now bus stream m ms w] m
    by (cases "processMessages exec handler now bus stream [m] w"; cases "fst (processMessages exec handler now bus stream [m] w)") auto
  show ?case by (rule delivered_trans [OF message_delivered [OF w1(1)] Cons.IH [OF w1(2)]])
qed simp

lemma recover_delivered:
  assumes "recover_turn exec handler now bus own lastRecovery w = (Inr t, w')"
  shows "delivered_to w w'"
proof (cases "now (w_out w) - lastRecovery < pendingMinIdle")
  case True
  then show ?thesis using assms by (simp add: recover_turn_def Let_def)
next
  case False
  let ?x = "XAUTOCLAIM (commandStream bus own) consumerGroup own (Milliseconds pendingMinIdle) 10"
  obtain rep w1 where w1: "call (exec ?x) w = (Inr rep, w1)"
    using assms False
    by (cases "call (exec ?x) w"; cases "fst (call (exec ?x) w)") (auto simp: recover_turn_def Let_def split: if_splits)
  let ?ms = "case rep of RMsgs ms \<Rightarrow> ms | _ \<Rightarrow> []"
  have "processMessages exec handler now bus (commandStream bus own) ?ms w1 = (None, w')"
    using assms False w1
    by (cases "processMessages exec handler now bus (commandStream bus own) ?ms w1")
      (auto simp: recover_turn_def Let_def split: option.splits)
  then show ?thesis using delivered_trans messages_delivered call_delivered [OF w1] by blast
qed

lemma read_delivered:
  assumes "read_turn exec handler now bus own w = (Inr t, w')"
  shows "delivered_to w w' \<and> (w_trips w \<noteq> [] \<longrightarrow> length (w_trips w') < length (w_trips w))"
proof -
  let ?x = "XREADGROUP (commandStream bus own) consumerGroup own 1"
  obtain rep w1 where w1: "call (exec ?x) w = (Inr rep, w1)"
    using assms
    by (cases "call (exec ?x) w"; cases "fst (call (exec ?x) w)") (auto simp: read_turn_def Let_def split: if_splits)
  let ?ms = "case rep of RMsgs ms \<Rightarrow> ms | _ \<Rightarrow> []"
  have run: "processMessages exec handler now bus (commandStream bus own) ?ms w1 = (None, w')"
    using assms w1
    by (cases "processMessages exec handler now bus (commandStream bus own) ?ms w1")
      (auto simp: read_turn_def Let_def split: option.splits)
  have "length (w_trips w') \<le> length (w_trips w1)"
    using messages_delivered [OF run] by (auto simp: delivered_to_def)
  then show ?thesis using delivered_trans [OF _ messages_delivered [OF run]] call_delivered [OF w1] by auto
qed

lemma turn_delivered:
  assumes "consumer_turn exec handler now bus own lastRecovery w = (Inr t, w')"
  shows "delivered_to w w' \<and> (w_trips w \<noteq> [] \<longrightarrow> length (w_trips w') < length (w_trips w))"
proof -
  obtain t1 w1 where w1: "recover_turn exec handler now bus own lastRecovery w = (Inr t1, w1)"
    using assms
    by (cases "recover_turn exec handler now bus own lastRecovery w";
        cases "fst (recover_turn exec handler now bus own lastRecovery w)") (auto simp: consumer_turn_def)
  obtain t2 where w2: "read_turn exec handler now bus own w1 = (Inr t2, w')"
    using assms w1
    by (cases "read_turn exec handler now bus own w1"; cases "fst (read_turn exec handler now bus own w1)")
      (auto simp: consumer_turn_def)
  have "length (w_trips w1) \<le> length (w_trips w)" and "w_trips w1 = [] \<longrightarrow> w_trips w' = []"
    using recover_delivered [OF w1] read_delivered [OF w2] by (auto simp: delivered_to_def)
  then show ?thesis
    using delivered_trans [OF recover_delivered [OF w1]] read_delivered [OF w2]
    by (cases "w_trips w1 = []") auto
qed

lemma loop_returns:
  assumes "t \<in> set (w_trips w)" "tr_fate t \<noteq> Delivered"
  shows "\<exists>ret w'. consumer_loop exec handler now bus own lastRecovery w = Some (ret, w')"
  using assms
proof (induction "length (w_trips w)" arbitrary: w lastRecovery rule: less_induct)
  case less
  obtain res w1 where turn: "consumer_turn exec handler now bus own lastRecovery w = (res, w1)" by fastforce
  show ?case
  proof (cases res)
    case (Inl ret)
    then show ?thesis using turn by (subst consumer_loop.simps) simp
  next
    case (Inr t1)
    note d = turn_delivered [OF turn [unfolded Inr]]
    then have "t \<in> set (w_trips w1)" using less.prems by (auto simp: delivered_to_def)
    moreover have "length (w_trips w1) < length (w_trips w)" using d less.prems(1) by fastforce
    ultimately obtain ret w' where "consumer_loop exec handler now bus own t1 w1 = Some (ret, w')"
      using less.hyps less.prems(2) by blast
    then show ?thesis using turn Inr by (subst consumer_loop.simps) simp
  qed
qed

text \<open>C21: a running consumer does not hang on to a failing connection or a cancelled context: as soon
  as one of its coming round trips fails, it returns. (A failure that reads like BUSYGROUP, the
  server's answer for an existing group, is the one failure it may live with.)\<close>

theorem consumer_returns_on_failure:
  assumes "w_trips w = ts @ t # us" "tr_fate t = Lost_request err \<or> tr_fate t = Lost_reply err" "\<not> isBusyGroup err"
  shows "\<exists>ret w'. RunConsumer exec (Some handler) now bus own w = Some (ret, w')"
proof (cases "own = ''''")
  case True
  then show ?thesis by (simp add: RunConsumer_def)
next
  case False
  let ?x = "XGROUP_CREATE (commandStream bus own) consumerGroup"
  obtain res w1 where w1: "call (exec ?x) w = (res, w1)" by fastforce
  have "t \<in> set (w_trips w1) \<or> (\<exists>e. res = Inl e \<and> \<not> isBusyGroup e)"
  proof (cases ts)
    case Nil
    then show ?thesis using assms w1 by (auto simp: call_def round_trip_def)
  next
    case (Cons a as)
    then have "w_trips w1 = as @ t # us" using assms(1) w1 by (auto simp: call_def split: prod.splits)
    then show ?thesis by simp
  qed
  moreover have "tr_fate t \<noteq> Delivered" using assms(2) by auto
  ultimately show ?thesis
    using False w1 loop_returns [of t w1 exec handler now bus own zero_time]
    by (cases res) (auto simp: RunConsumer_def)
qed

lemma consumer_returns_on_failure_witness:
  "\<exists>ret w'. RunConsumer st_exec (Some counting) (\<lambda>_. 1) demo_bus ''pod-a''
     (bus_world\<lparr>w_trips := replicate 5 \<lparr>tr_between = id, tr_fate = Delivered\<rparr> @
        [\<lparr>tr_between = id, tr_fate = Lost_request context_Canceled\<rparr>]\<rparr>) = Some (ret, w')"
proof -
  have "\<not> isBusyGroup context_Canceled" by (simp add: isBusyGroup_def context_Canceled_def errors_New_def HasPrefix_def)
  then show ?thesis
    by (intro consumer_returns_on_failure [where ts = "replicate 5 \<lparr>tr_between = id, tr_fate = Delivered\<rparr>" and us = "[]"
          and t = "\<lparr>tr_between = id, tr_fate = Lost_request context_Canceled\<rparr>" and err = context_Canceled]) simp_all
qed

section \<open>Waiting for a result\<close>

context redis_service
begin

lemma await_late:
  assumes "w_trips w = ts @ t # us" "\<forall>u \<in> set ts. tr_fate u = Delivered \<and> (\<forall>r. view (tr_between u r) key = None)"
    and "tr_fate t = Delivered" "\<forall>r. \<exists>d. view (tr_between t r) key = Some (VList l, d)" "l \<noteq> []"
    and "unmarshal_Result (last l) = Inr res"
  shows "fst (await_loop exec key ticks w) = (if length ts \<le> ticks then Inr res else Inl ErrResultTimeout)"
  using assms(1,2)
proof (induction ts arbitrary: w ticks)
  case Nil
  let ?r = "tr_between t (w_redis w)"
  obtain d where "view ?r key = Some (VList l, d)" using assms(4) by blast
  then have "fst (exec (RPOP key) ?r) = RBulk (last l)"
    using exec_view [of "RPOP key" ?r] assms(5) by (simp add: kv_exec_def prod_eq_iff)
  then have "fst (call (exec (RPOP key)) w) = Inr (RBulk (last l))"
    using Nil assms(3) by (simp add: call_def round_trip_Delivered)
  then show ?case
    using assms(6) by (subst await_loop.simps) (cases "call (exec (RPOP key)) w", simp)
next
  case (Cons u ts)
  let ?r = "tr_between u (w_redis w)"
  have "view ?r key = None" "tr_fate u = Delivered" using Cons.prems(2) by simp_all
  then have "fst (exec (RPOP key) ?r) = RNil"
    using exec_view [of "RPOP key" ?r] by (simp add: kv_exec_def prod_eq_iff)
  then obtain w1 where w1: "call (exec (RPOP key)) w = (Inr RNil, w1)" "w_trips w1 = ts @ t # us"
    using Cons.prems(1) \<open>tr_fate u = Delivered\<close> by (simp add: call_def round_trip_Delivered)
  show ?case
    using w1 Cons.IH [OF w1(2)] Cons.prems(2) by (subst await_loop.simps) (auto split: nat.split)
qed

end

text \<open>C22: a result that arrives while \<open>AwaitResult\<close> is polling is returned: when the list of results
  is empty for a number of polls and then holds one, the call returns the oldest result in it if its
  context lasts for that many ticks, and the timeout error otherwise.\<close>

theorem await_gets_late_result:
  assumes "redis_service exec view" "commandID \<noteq> ''''" "w_trips w = ts @ t # us"
    and "\<forall>u \<in> set ts. tr_fate u = Delivered \<and> (\<forall>r. view (tr_between u r) (resultKey bus commandID) = None)"
    and "tr_fate t = Delivered" "\<forall>r. \<exists>d. view (tr_between t r) (resultKey bus commandID) = Some (VList l, d)" "l \<noteq> []"
    and "unmarshal_Result (last l) = Inr res"
  shows "fst (AwaitResult exec bus commandID ticks w) = (if length ts \<le> ticks then Inr res else Inl ErrResultTimeout)"
  using redis_service.await_late [OF assms(1,3-8)] assms(2) by (simp add: AwaitResult_def)

lemma await_gets_late_result_witness:
  "fst (AwaitResult st_exec demo_bus ''c1'' 3
     (bus_world\<lparr>w_trips := [\<lparr>tr_between = \<lambda>_. bus_store, tr_fate = Delivered\<rparr>, \<lparr>tr_between = \<lambda>_. bus_store, tr_fate = Delivered\<rparr>,
        \<lparr>tr_between = \<lambda>_. bus_store\<lparr>st_data := [resultKey demo_bus ''c1'' \<mapsto> (VList [''{}''], None)]\<rparr>, tr_fate = Delivered\<rparr>]\<rparr>)) =
   Inr zero_Result"
proof -
  let ?quiet = "\<lparr>tr_between = \<lambda>_. bus_store, tr_fate = Delivered\<rparr>"
  let ?push = "\<lparr>tr_between = \<lambda>_. bus_store\<lparr>st_data := [resultKey demo_bus ''c1'' \<mapsto> (VList [''{}''], None)]\<rparr>, tr_fate = Delivered\<rparr>"
  have "unmarshal_Result ''{}'' = Inr zero_Result" by code_simp
  then show ?thesis
    using await_gets_late_result [OF store.redis_service_axioms, of "''c1''" "bus_world\<lparr>w_trips := [?quiet, ?quiet, ?push]\<rparr>"
        "[?quiet, ?quiet]" ?push "[]" demo_bus "[''{}'']" zero_Result 3]
    by (simp add: st_view_def bus_store_def)
qed

end
