(* ===== verification/Session_Registry.thy ===== *)
theory Session_Registry
  imports Prelude
begin

text \<open>
  The session registry interface (internal/sessionregistry/registry.go): leases, the sentinel
  errors, the \<open>Registry\<close> interface as a record of operations, and the contract its clients rely
  on as a locale. An operation takes what its call meets in the environment (the caller's
  context, the clocks, the fate of the network round trips) as its first argument and threads
  the registry state.
\<close>

section \<open>Leases and errors\<close>

definition ErrOwnershipConflict :: error where
  "ErrOwnershipConflict = errors_New ''station session is owned by another runtime''"

definition ErrLeaseLost :: error where
  "ErrLeaseLost = errors_New ''station session lease was lost''"

definition ErrNotFound :: error where
  "ErrNotFound = errors_New ''station session owner was not found''"

record Lease =
  lease_StationIdentity :: string
  lease_OwnerID :: string
  lease_Generation :: uint64
  lease_ExpiresAt :: time

text \<open>The zero value \<open>Lease{}\<close>.\<close>

definition zero_Lease :: Lease where
  "zero_Lease = \<lparr>lease_StationIdentity = '''', lease_OwnerID = '''', lease_Generation = 0,
     lease_ExpiresAt = zero_time\<rparr>"

text \<open>\<open>fmt.Errorf("%w: owner %s generation %d", ErrOwnershipConflict, ...)\<close>, used by both adapters.\<close>

definition conflict_error :: "string \<Rightarrow> uint64 \<Rightarrow> error" where
  "conflict_error owner g =
     Error (err_text ErrOwnershipConflict @ '': owner '' @ owner @ '' generation '' @ showNat (unat g))
       (Some ErrOwnershipConflict)"

lemma sentinels_distinct [simp]:
  "ErrOwnershipConflict \<noteq> ErrLeaseLost" "ErrLeaseLost \<noteq> ErrOwnershipConflict"
  "ErrOwnershipConflict \<noteq> ErrNotFound" "ErrNotFound \<noteq> ErrOwnershipConflict"
  "ErrLeaseLost \<noteq> ErrNotFound" "ErrNotFound \<noteq> ErrLeaseLost"
  by (simp_all add: ErrOwnershipConflict_def ErrLeaseLost_def ErrNotFound_def errors_New_def)

lemma conflict_error_Is [simp]: "errors_Is (conflict_error p g) ErrOwnershipConflict"
  by (simp add: conflict_error_def)

section \<open>The interface and its contract\<close>

type_synonym claim_result = "Lease \<times> error option"

record ('e, 'r) Registry =
  reg_Claim :: "'e \<Rightarrow> string \<Rightarrow> string \<Rightarrow> duration \<Rightarrow> 'r \<Rightarrow> claim_result \<times> 'r"
  reg_Renew :: "'e \<Rightarrow> Lease \<Rightarrow> duration \<Rightarrow> 'r \<Rightarrow> claim_result \<times> 'r"
  reg_Release :: "'e \<Rightarrow> Lease \<Rightarrow> 'r \<Rightarrow> error option \<times> 'r"
  reg_Lookup :: "'e \<Rightarrow> string \<Rightarrow> 'r \<Rightarrow> claim_result \<times> 'r"

text \<open>
  What a registry promises. \<open>issued\<close> counts the generations handed out so far, \<open>holder\<close> is the
  owner and generation of the live lease on a station. Every granted claim gets a generation
  larger than all before it; a live lease survives claims and releases made by anybody else;
  a lookup reports the holder. \<open>limit\<close> bounds the counter, \<open>min_ttl\<close> is the shortest lifetime
  the adapter can represent. The fenced contract adds that a renewal with a stale lease leaves
  the current holder alone.
\<close>

locale lease_registry =
  fixes R :: "('e, 'r) Registry"
    and env_ok :: "'e \<Rightarrow> bool"
    and inv :: "'r \<Rightarrow> bool"
    and issued :: "'r \<Rightarrow> nat"
    and limit :: nat
    and min_ttl :: duration
    and holder :: "'e \<Rightarrow> 'r \<Rightarrow> string \<Rightarrow> (string \<times> uint64) option"
  assumes claim_inv: "inv r \<Longrightarrow> env_ok e \<Longrightarrow> issued r < limit \<Longrightarrow> reg_Claim R e s p d r = (res, r') \<Longrightarrow>
      inv r' \<and> issued r \<le> issued r'"
    and claim_fresh: "inv r \<Longrightarrow> env_ok e \<Longrightarrow> issued r < limit \<Longrightarrow>
      reg_Claim R e s p d r = ((l, None), r') \<Longrightarrow>
      lease_StationIdentity l = s \<and> lease_OwnerID l = p \<and>
      unat (lease_Generation l) = Suc (issued r) \<and> issued r' = Suc (issued r)"
    and claim_free: "inv r \<Longrightarrow> env_ok e \<Longrightarrow> issued r < limit \<Longrightarrow>
      reg_Claim R e s p d r = ((l, None), r') \<Longrightarrow> holder e r s = None"
    and claim_holds: "inv r \<Longrightarrow> env_ok e \<Longrightarrow> issued r < limit \<Longrightarrow> min_ttl \<le> d \<Longrightarrow>
      reg_Claim R e s p d r = ((l, None), r') \<Longrightarrow> holder e r' s = Some (p, lease_Generation l)"
    and claim_keeps: "inv r \<Longrightarrow> env_ok e \<Longrightarrow> issued r < limit \<Longrightarrow>
      reg_Claim R e s p d r = (res, r') \<Longrightarrow> holder e r s' = Some h \<Longrightarrow> holder e r' s' = Some h"
    and renew_inv: "inv r \<Longrightarrow> env_ok e \<Longrightarrow> reg_Renew R e l d r = (res, r') \<Longrightarrow>
      inv r' \<and> issued r' = issued r"
    and renew_same: "inv r \<Longrightarrow> env_ok e \<Longrightarrow> reg_Renew R e l d r = ((l', None), r') \<Longrightarrow>
      lease_StationIdentity l' = lease_StationIdentity l \<and> lease_OwnerID l' = lease_OwnerID l \<and>
      lease_Generation l' = lease_Generation l"
    and renew_held: "inv r \<Longrightarrow> env_ok e \<Longrightarrow> reg_Renew R e l d r = ((l', None), r') \<Longrightarrow>
      holder e r (lease_StationIdentity l) = Some (lease_OwnerID l, lease_Generation l)"
    and renew_holds: "inv r \<Longrightarrow> env_ok e \<Longrightarrow> min_ttl \<le> d \<Longrightarrow>
      reg_Renew R e l d r = ((l', None), r') \<Longrightarrow>
      holder e r' (lease_StationIdentity l) = Some (lease_OwnerID l, lease_Generation l)"
    and release_inv: "inv r \<Longrightarrow> env_ok e \<Longrightarrow> reg_Release R e l r = (err, r') \<Longrightarrow>
      inv r' \<and> issued r' = issued r"
    and release_frees: "inv r \<Longrightarrow> env_ok e \<Longrightarrow> reg_Release R e l r = (None, r') \<Longrightarrow>
      holder e r' (lease_StationIdentity l) = None"
    and release_foreign: "inv r \<Longrightarrow> env_ok e \<Longrightarrow> reg_Release R e l r = (err, r') \<Longrightarrow>
      holder e r s = Some h \<Longrightarrow>
      s \<noteq> lease_StationIdentity l \<or> h \<noteq> (lease_OwnerID l, lease_Generation l) \<Longrightarrow>
      holder e r' s = Some h"
    and lookup_inv: "inv r \<Longrightarrow> env_ok e \<Longrightarrow> reg_Lookup R e s r = (res, r') \<Longrightarrow>
      inv r' \<and> issued r \<le> issued r'"
    and lookup_sound: "inv r \<Longrightarrow> env_ok e \<Longrightarrow> reg_Lookup R e s r = ((l, None), r') \<Longrightarrow>
      lease_StationIdentity l = s \<and> holder e r s = Some (lease_OwnerID l, lease_Generation l)"

locale fenced_registry = lease_registry +
  assumes renew_foreign: "inv r \<Longrightarrow> env_ok e \<Longrightarrow> reg_Renew R e l d r = (res, r') \<Longrightarrow>
      holder e r s = Some h \<Longrightarrow>
      s \<noteq> lease_StationIdentity l \<or> h \<noteq> (lease_OwnerID l, lease_Generation l) \<Longrightarrow>
      holder e r' s = Some h"

end
