(* ===== verification/Redis_Registry.thy ===== *)
theory Redis_Registry
  imports Session_Registry Redis
begin

text \<open>
  The distributed registry (internal/sessionregistry/redisstore/registry.go): the three Lua
  scripts, the four operations around them, and the key layout. The environment of an operation
  is the Go clock, the fate of each round trip and, for the two-step lookup, what other clients
  do between the steps. Any Redis service that keeps its documented behaviour makes this adapter
  a fenced registry. Generations are Lua numbers on their way through the claim script; they are
  exact below 2 to the 53, which is the limit the contract is shown for.
\<close>

section \<open>Scripts\<close>

definition claimScript ::
  "(redis_cmd \<Rightarrow> 'r \<Rightarrow> redis_reply \<times> 'r) \<Rightarrow> string \<Rightarrow> string \<Rightarrow> string \<Rightarrow> int \<Rightarrow> 'r \<Rightarrow> redis_reply \<times> 'r" where
  "claimScript exec key1 key2 arg1 arg2 =
     redis_call exec (EXISTS key1) (\<lambda>ex.
       if ex = RInt 1 then
         redis_call exec (HGET key1 ''owner'') (\<lambda>owner.
         redis_call exec (HGET key1 ''generation'') (\<lambda>generation.
         redis_call exec (PTTL key1) (\<lambda>pttl.
           Pair (RArr [RInt 0, owner, generation, pttl]))))
       else
         redis_call exec (INCR key2) (\<lambda>generation.
         redis_call exec (HSET key1 [(''owner'', arg1), (''generation'', sprint generation)]) (\<lambda>_.
         redis_call exec (PEXPIRE key1 arg2) (\<lambda>_.
           Pair (RArr [RInt 1, RBulk arg1, generation, RInt arg2])))))"

definition renewScript ::
  "(redis_cmd \<Rightarrow> 'r \<Rightarrow> redis_reply \<times> 'r) \<Rightarrow> string \<Rightarrow> string \<Rightarrow> string \<Rightarrow> int \<Rightarrow> 'r \<Rightarrow> redis_reply \<times> 'r" where
  "renewScript exec key1 arg1 arg2 arg3 =
     redis_call exec (HGET key1 ''owner'') (\<lambda>owner.
       if owner \<noteq> RBulk arg1 then Pair (RInt 0)
       else redis_call exec (HGET key1 ''generation'') (\<lambda>generation.
         if generation \<noteq> RBulk arg2 then Pair (RInt 0)
         else redis_call exec (PEXPIRE key1 arg3) (\<lambda>_. Pair (RInt 1))))"

definition releaseScript ::
  "(redis_cmd \<Rightarrow> 'r \<Rightarrow> redis_reply \<times> 'r) \<Rightarrow> string \<Rightarrow> string \<Rightarrow> string \<Rightarrow> 'r \<Rightarrow> redis_reply \<times> 'r" where
  "releaseScript exec key1 arg1 arg2 =
     redis_call exec (HGET key1 ''owner'') (\<lambda>owner.
       if owner \<noteq> RBulk arg1 then Pair (RInt 0)
       else redis_call exec (HGET key1 ''generation'') (\<lambda>generation.
         if generation \<noteq> RBulk arg2 then Pair (RInt 0)
         else redis_call exec (DEL key1) Pair))"

section \<open>The adapter\<close>

text \<open>The struct holds the client (here the parameter \<open>exec\<close>), the prefix and the clock.\<close>

definition redisstore_New :: "bool \<Rightarrow> string \<Rightarrow> error + string" where
  "redisstore_New client_is_nil prefix =
     (if client_is_nil then Inl (errors_New ''redis client is nil'')
      else Inr (if prefix = '''' then ''csms'' else prefix))"

definition leaseKey :: "string \<Rightarrow> string \<Rightarrow> string" where
  "leaseKey prefix identity = prefix @ '':session:'' @ identity"

definition generationKey :: "string \<Rightarrow> string" where
  "generationKey prefix = prefix @ '':session:generation''"

record 'r redis_env =
  renv_now :: time
  renv_fate :: fate
  renv_fate2 :: fate
  renv_between :: "'r \<Rightarrow> 'r"

text \<open>\<open>(*redis.Cmd).Slice\<close> and \<open>(*redis.Cmd).Int\<close>: the reply as a slice or an integer, or an error.\<close>

definition reply_slice :: "error + redis_reply \<Rightarrow> error + redis_reply list" where
  "reply_slice res =
     (case res of
        Inl err \<Rightarrow> Inl err
      | Inr (RArr xs) \<Rightarrow> Inr xs
      | Inr _ \<Rightarrow> Inl (errors_New ''redis: unexpected type for Slice''))"

definition reply_int :: "error + redis_reply \<Rightarrow> error + int" where
  "reply_int res =
     (case res of
        Inl err \<Rightarrow> Inl err
      | Inr (RInt n) \<Rightarrow> Inr n
      | Inr _ \<Rightarrow> Inl (errors_New ''redis: unexpected type for Int''))"

definition num_error :: "string \<Rightarrow> num_error \<Rightarrow> error" where
  "num_error ctxt e =
     errors_Wrap ctxt (errors_New (case e of ErrSyntax \<Rightarrow> ''invalid syntax'' | ErrRange \<Rightarrow> ''value out of range''))"

definition parseClaimResult ::
  "redis_reply list \<Rightarrow> error + bool \<times> string \<times> uint64 \<times> duration" where
  "parseClaimResult result =
     (if length result \<noteq> 4 then Inl (errors_New ''invalid Redis claim result'')
      else
        (case ParseInt (sprint (result ! 0)) of
           Inl e \<Rightarrow> Inl (num_error ''parse Redis claim status: '' e)
         | Inr status \<Rightarrow>
             (case ParseUint (sprint (result ! 2)) of
                Inl e \<Rightarrow> Inl (num_error ''parse Redis claim generation: '' e)
              | Inr generation \<Rightarrow>
                  (case ParseInt (sprint (result ! 3)) of
                     Inl e \<Rightarrow> Inl (num_error ''parse Redis claim TTL: '' e)
                   | Inr milliseconds \<Rightarrow>
                       Inr (status = 1, sprint (result ! 1), of_nat generation,
                            int64 (milliseconds * millisecond))))))"

definition redis_Claim ::
  "(redis_cmd \<Rightarrow> 'r \<Rightarrow> redis_reply \<times> 'r) \<Rightarrow> string \<Rightarrow> 'r redis_env \<Rightarrow> string \<Rightarrow> string \<Rightarrow> duration \<Rightarrow>
   'r \<Rightarrow> claim_result \<times> 'r" where
  "redis_Claim exec prefix env stationIdentity ownerID ttl r =
     (if stationIdentity = '''' \<or> ownerID = '''' \<or> ttl \<le> 0
      then ((zero_Lease, Some (errors_New ''station identity, owner ID and positive TTL are required'')), r)
      else
        (case round_trip (renv_fate env)
                (claimScript exec (leaseKey prefix stationIdentity) (generationKey prefix)
                   ownerID (Milliseconds ttl)) r of
           (res, r') \<Rightarrow>
             (case reply_slice res of
                Inl err \<Rightarrow> ((zero_Lease, Some (errors_Wrap ''claim redis session lease: '' err)), r')
              | Inr result \<Rightarrow>
                  (case parseClaimResult result of
                     Inl err \<Rightarrow> ((zero_Lease, Some err), r')
                   | Inr (claimed, owner, generation, remaining) \<Rightarrow>
                       let lease = \<lparr>lease_StationIdentity = stationIdentity, lease_OwnerID = owner,
                             lease_Generation = generation, lease_ExpiresAt = renv_now env + remaining\<rparr>
                       in if \<not> claimed then ((lease, Some (conflict_error owner generation)), r')
                          else ((lease, None), r')))))"

definition redis_Renew ::
  "(redis_cmd \<Rightarrow> 'r \<Rightarrow> redis_reply \<times> 'r) \<Rightarrow> string \<Rightarrow> 'r redis_env \<Rightarrow> Lease \<Rightarrow> duration \<Rightarrow>
   'r \<Rightarrow> claim_result \<times> 'r" where
  "redis_Renew exec prefix env lease ttl r =
     (if ttl \<le> 0 then ((zero_Lease, Some (errors_New ''lease TTL must be positive'')), r)
      else
        (case round_trip (renv_fate env)
                (renewScript exec (leaseKey prefix (lease_StationIdentity lease)) (lease_OwnerID lease)
                   (showNat (unat (lease_Generation lease))) (Milliseconds ttl)) r of
           (res, r') \<Rightarrow>
             (case reply_int res of
                Inl err \<Rightarrow> ((zero_Lease, Some (errors_Wrap ''renew redis session lease: '' err)), r')
              | Inr result \<Rightarrow>
                  if result \<noteq> 1 then ((zero_Lease, Some ErrLeaseLost), r')
                  else ((lease\<lparr>lease_ExpiresAt := renv_now env + ttl\<rparr>, None), r'))))"

definition redis_Release ::
  "(redis_cmd \<Rightarrow> 'r \<Rightarrow> redis_reply \<times> 'r) \<Rightarrow> string \<Rightarrow> 'r redis_env \<Rightarrow> Lease \<Rightarrow> 'r \<Rightarrow> error option \<times> 'r" where
  "redis_Release exec prefix env lease r =
     (case round_trip (renv_fate env)
             (releaseScript exec (leaseKey prefix (lease_StationIdentity lease)) (lease_OwnerID lease)
                (showNat (unat (lease_Generation lease)))) r of
        (res, r') \<Rightarrow>
          (case reply_int res of
             Inl err \<Rightarrow> (Some (errors_Wrap ''release redis session lease: '' err), r')
           | Inr result \<Rightarrow> if result \<noteq> 1 then (Some ErrLeaseLost, r') else (None, r')))"

text \<open>
  \<open>(*redis.Client).PTTL\<close> hands the special values -1 and -2 through as nanoseconds and scales
  any other reply from milliseconds.
\<close>

definition pttl_duration :: "int \<Rightarrow> duration" where
  "pttl_duration n = (if n = - 1 \<or> n = - 2 then n else n * millisecond)"

definition redis_Lookup ::
  "(redis_cmd \<Rightarrow> 'r \<Rightarrow> redis_reply \<times> 'r) \<Rightarrow> string \<Rightarrow> 'r redis_env \<Rightarrow> string \<Rightarrow> 'r \<Rightarrow> claim_result \<times> 'r" where
  "redis_Lookup exec prefix env stationIdentity r =
     (let key = leaseKey prefix stationIdentity in
      case round_trip (renv_fate env) (exec (HMGET key [''owner'', ''generation''])) r of
        (res1, r1) \<Rightarrow>
          (case reply_slice res1 of
             Inl err \<Rightarrow> ((zero_Lease, Some (errors_Wrap ''lookup redis session lease: '' err)), r1)
           | Inr values \<Rightarrow>
               (case round_trip (renv_fate2 env) (exec (PTTL key)) (renv_between env r1) of
                  (res2, r2) \<Rightarrow>
                    (case reply_int res2 of
                       Inl err \<Rightarrow> ((zero_Lease, Some (errors_Wrap ''lookup redis session TTL: '' err)), r2)
                     | Inr pttl \<Rightarrow>
                         let remaining = pttl_duration pttl in
                         if length values \<noteq> 2 \<or> values ! 0 = RNil \<or> values ! 1 = RNil \<or> remaining \<le> 0
                         then ((zero_Lease, Some ErrNotFound), r2)
                         else
                           (case ParseUint (sprint (values ! 1)) of
                              Inl e \<Rightarrow> ((zero_Lease, Some (num_error ''parse redis session generation: '' e)), r2)
                            | Inr generation \<Rightarrow>
                                ((\<lparr>lease_StationIdentity = stationIdentity, lease_OwnerID = sprint (values ! 0),
                                   lease_Generation = of_nat generation,
                                   lease_ExpiresAt = renv_now env + remaining\<rparr>, None), r2))))))"

definition redis_Registry ::
  "(redis_cmd \<Rightarrow> 'r \<Rightarrow> redis_reply \<times> 'r) \<Rightarrow> string \<Rightarrow> ('r redis_env, 'r) Registry" where
  "redis_Registry exec prefix = \<lparr>reg_Claim = redis_Claim exec prefix, reg_Renew = redis_Renew exec prefix,
     reg_Release = redis_Release exec prefix, reg_Lookup = redis_Lookup exec prefix\<rparr>"

lemma redis_Registry_simps [simp]:
  "reg_Claim (redis_Registry exec prefix) = redis_Claim exec prefix"
  "reg_Renew (redis_Registry exec prefix) = redis_Renew exec prefix"
  "reg_Release (redis_Registry exec prefix) = redis_Release exec prefix"
  "reg_Lookup (redis_Registry exec prefix) = redis_Lookup exec prefix"
  by (simp_all add: redis_Registry_def)

section \<open>Keys\<close>

lemma leaseKey_inject [simp]: "leaseKey prefix s = leaseKey prefix s' \<longleftrightarrow> s = s'"
  by (simp add: leaseKey_def)

lemma leaseKey_generationKey: "leaseKey prefix s = generationKey prefix \<longleftrightarrow> s = ''generation''"
  by (auto simp: leaseKey_def generationKey_def)

section \<open>What the registry's keys hold\<close>

text \<open>
  The counter is a string without expiry; every lease is an expiring hash with an owner and the
  decimal form of a generation already issued.
\<close>

definition counter :: "string \<Rightarrow> keyspace \<Rightarrow> nat" where
  "counter prefix kv =
     (case kv (generationKey prefix) of
        Some (VString s, _) \<Rightarrow> (case ParseUint s of Inr n \<Rightarrow> n | Inl _ \<Rightarrow> 0)
      | _ \<Rightarrow> 0)"

definition lease_ok :: "nat \<Rightarrow> rvalue \<times> nat option \<Rightarrow> bool" where
  "lease_ok c vd \<longleftrightarrow>
     (\<exists>h p g rem. vd = (VHash h, Some rem) \<and> h ''owner'' = Some p \<and>
        h ''generation'' = Some (showNat g) \<and> 0 < g \<and> g \<le> c)"

definition registry_inv :: "string \<Rightarrow> keyspace \<Rightarrow> bool" where
  "registry_inv prefix kv \<longleftrightarrow>
     counter prefix kv < 2 ^ 63 \<and>
     (kv (generationKey prefix) = None \<or>
      kv (generationKey prefix) = Some (VString (showNat (counter prefix kv)), None)) \<and>
     (\<forall>s vd. s \<noteq> ''generation'' \<longrightarrow> kv (leaseKey prefix s) = Some vd \<longrightarrow> lease_ok (counter prefix kv) vd)"

definition hash_holder :: "rvalue \<times> nat option \<Rightarrow> (string \<times> uint64) option" where
  "hash_holder vd =
     (case vd of
        (VHash h, Some _) \<Rightarrow>
          (case (h ''owner'', h ''generation'') of
             (Some p, Some g) \<Rightarrow> (case ParseUint g of Inr n \<Rightarrow> Some (p, of_nat n) | Inl _ \<Rightarrow> None)
           | _ \<Rightarrow> None)
      | _ \<Rightarrow> None)"

definition kv_holder :: "string \<Rightarrow> keyspace \<Rightarrow> string \<Rightarrow> (string \<times> uint64) option" where
  "kv_holder prefix kv s =
     (if s = ''generation'' then None else Option.bind (kv (leaseKey prefix s)) hash_holder)"

text \<open>The keyspace after a granted claim.\<close>

definition granted_kv :: "string \<Rightarrow> string \<Rightarrow> string \<Rightarrow> int \<Rightarrow> keyspace \<Rightarrow> keyspace" where
  "granted_kv prefix s p ms kv =
     (let c = showNat (Suc (counter prefix kv))
      in kv(generationKey prefix \<mapsto> (VString c, None),
            leaseKey prefix s :=
              (if ms \<le> 0 then None
               else Some (VHash [''owner'' \<mapsto> p, ''generation'' \<mapsto> c], Some (nat ms)))))"

lemma showInt_int [simp]: "showInt (int n) = showNat n"
  by (simp add: showInt_def)

lemma showInt_Suc [simp]: "showInt (1 + int n) = showNat (Suc n)"
  using showInt_int [of "Suc n"] by simp

lemma ParseInt_showNat [simp]: "n < 2 ^ 63 \<Longrightarrow> ParseInt (showNat n) = Inr (int n)"
  using ParseInt_showInt [of "int n"] by simp

lemma counter_absent: "kv (generationKey prefix) = None \<Longrightarrow> counter prefix kv = 0"
  by (simp add: counter_def)

lemma registry_inv_bound: "registry_inv prefix kv \<Longrightarrow> counter prefix kv < 2 ^ 63"
  by (simp add: registry_inv_def)

lemma registry_inv_lease:
  "registry_inv prefix kv \<Longrightarrow> s \<noteq> ''generation'' \<Longrightarrow> kv (leaseKey prefix s) = Some vd \<Longrightarrow>
   lease_ok (counter prefix kv) vd"
  unfolding registry_inv_def by blast

lemma keys_differ [simp]:
  "s \<noteq> ''generation'' \<Longrightarrow> leaseKey prefix s \<noteq> generationKey prefix"
  "s \<noteq> ''generation'' \<Longrightarrow> generationKey prefix \<noteq> leaseKey prefix s"
  using leaseKey_generationKey [of prefix s] by auto

lemma counter_granted:
  assumes "counter prefix kv < 2 ^ 63" "s \<noteq> ''generation''"
  shows "counter prefix (granted_kv prefix s p ms kv) = Suc (counter prefix kv)"
  using assms by (simp add: counter_def granted_kv_def Let_def ParseUint_showNat)

lemma lease_ok_mono: "lease_ok c vd \<Longrightarrow> c \<le> c' \<Longrightarrow> lease_ok c' vd"
  by (fastforce simp: lease_ok_def)

lemma registry_inv_granted:
  assumes "registry_inv prefix kv" "counter prefix kv < 2 ^ 53" "s \<noteq> ''generation''"
  shows "registry_inv prefix (granted_kv prefix s p ms kv)"
proof -
  have c: "counter prefix (granted_kv prefix s p ms kv) = Suc (counter prefix kv)"
    using assms by (simp add: counter_granted)
  have "lease_ok (Suc (counter prefix kv)) vd"
    if "granted_kv prefix s p ms kv (leaseKey prefix s') = Some vd" "s' \<noteq> ''generation''" for s' vd
  proof (cases "s' = s")
    case True
    then show ?thesis using that assms(3)
      by (auto simp: granted_kv_def Let_def lease_ok_def split: if_splits)
  next
    case False
    then show ?thesis using that assms registry_inv_lease [OF assms(1) that(2)] lease_ok_mono
      by (auto simp: granted_kv_def Let_def)
  qed
  moreover have "granted_kv prefix s p ms kv (generationKey prefix) =
      Some (VString (showNat (Suc (counter prefix kv))), None)"
    using assms(3) by (simp add: granted_kv_def Let_def)
  ultimately show ?thesis
    using assms(2) unfolding registry_inv_def c by auto
qed

lemma hash_holder_ok:
  "lease_ok c vd \<Longrightarrow> c < 2 ^ 63 \<Longrightarrow>
   \<exists>h p g rem. vd = (VHash h, Some rem) \<and> h ''owner'' = Some p \<and> h ''generation'' = Some (showNat g) \<and>
     0 < g \<and> g \<le> c \<and> hash_holder vd = Some (p, of_nat g)"
  by (fastforce simp: lease_ok_def hash_holder_def ParseUint_showNat)

section \<open>The scripts on the keyspace\<close>

lemma claimScript_held:
  assumes "kv k1 = Some (VHash h, Some d)"
  shows "claimScript kv_exec k1 k2 p ms kv =
    (RArr [RInt 0, bulk (h ''owner''), bulk (h ''generation''), RInt (int d)], kv)"
  using assms
  by (simp add: claimScript_def redis_call_def kv_exec_def bulk_def split: option.splits)

lemma claimScript_grant:
  assumes "registry_inv prefix kv" "counter prefix kv < 2 ^ 53" "s \<noteq> ''generation''"
    and "kv (leaseKey prefix s) = None"
  shows "claimScript kv_exec (leaseKey prefix s) (generationKey prefix) p ms kv =
    (RArr [RInt 1, RBulk p, RInt (int (Suc (counter prefix kv))), RInt ms], granted_kv prefix s p ms kv)"
proof -
  let ?g = "generationKey prefix" and ?c = "counter prefix kv"
  have "kv_exec (INCR ?g) kv =
      (RInt (int (Suc ?c)), kv(?g \<mapsto> (VString (showNat (Suc ?c)), None)))"
  proof (cases "kv ?g")
    case None
    then show ?thesis by (simp add: kv_exec_def counter_absent showInt_def)
  next
    case (Some v)
    then have "v = (VString (showNat ?c), None)" using assms(1) by (auto simp: registry_inv_def)
    then show ?thesis using Some assms(2) by (simp add: kv_exec_def add.commute)
  qed
  then show ?thesis
    using assms(3,4)
    by (auto simp: claimScript_def redis_call_def granted_kv_def Let_def sprint_def fun_eq_iff
        kv_exec_def [of "EXISTS _"] kv_exec_def [of "HSET _ _"] kv_exec_def [of "PEXPIRE _ _"])
qed

text \<open>
  A station named \<open>generation\<close> shares its lease key with the counter: the script always ends in
  an error, at worst after moving the counter from nothing to one.
\<close>

lemma claimScript_generation:
  assumes "registry_inv prefix kv"
  shows "\<exists>e kv'. claimScript kv_exec (generationKey prefix) (generationKey prefix) p ms kv = (RErr e, kv') \<and>
    (kv' = kv \<or> kv (generationKey prefix) = None \<and> kv' = kv(generationKey prefix \<mapsto> (VString (showNat 1), None)))"
proof (cases "kv (generationKey prefix)")
  case None
  then show ?thesis
    by (simp add: claimScript_def redis_call_def kv_exec_def wrongtype_def showInt_def)
next
  case (Some v)
  then have "v = (VString (showNat (counter prefix kv)), None)"
    using assms by (auto simp: registry_inv_def)
  with Some show ?thesis
    by (simp add: claimScript_def redis_call_def kv_exec_def wrongtype_def)
qed

lemma renewScript_cases:
  assumes "\<forall>vd. kv k = Some vd \<longrightarrow> lease_ok c vd"
  shows "renewScript kv_exec k p g ms kv =
    (if \<exists>h rem. kv k = Some (VHash h, rem) \<and> h ''owner'' = Some p \<and> h ''generation'' = Some g
     then (RInt 1, snd (kv_exec (PEXPIRE k ms) kv))
     else (RInt 0, kv))"
  using assms
  by (cases "kv k")
    (auto simp: renewScript_def redis_call_def kv_exec_def bulk_def lease_ok_def)

lemma releaseScript_cases:
  assumes "\<forall>vd. kv k = Some vd \<longrightarrow> lease_ok c vd"
  shows "releaseScript kv_exec k p g kv =
    (if \<exists>h rem. kv k = Some (VHash h, rem) \<and> h ''owner'' = Some p \<and> h ''generation'' = Some g
     then (RInt 1, kv(k := None))
     else (RInt 0, kv))"
  using assms
  by (cases "kv k")
    (auto simp: releaseScript_def redis_call_def kv_exec_def bulk_def lease_ok_def)

lemma scripts_on_counter:
  assumes "registry_inv prefix kv"
  shows "(\<exists>e. renewScript kv_exec (generationKey prefix) p g ms kv = (RErr e, kv)) \<or>
      renewScript kv_exec (generationKey prefix) p g ms kv = (RInt 0, kv)"
    and "(\<exists>e. releaseScript kv_exec (generationKey prefix) p g kv = (RErr e, kv)) \<or>
      releaseScript kv_exec (generationKey prefix) p g kv = (RInt 0, kv)"
  using assms
  by (auto simp: registry_inv_def renewScript_def releaseScript_def redis_call_def kv_exec_def wrongtype_def)

section \<open>The operations on the keyspace\<close>

definition kv_env :: "'r redis_env \<Rightarrow> keyspace redis_env" where
  "kv_env env = \<lparr>renv_now = renv_now env, renv_fate = renv_fate env, renv_fate2 = renv_fate2 env,
     renv_between = (\<lambda>kv. kv)\<rparr>"

text \<open>
  A claim either leaves the keyspace alone and fails, grants the lease and says so, or grants it
  and reports an error because the reply was lost. A claim for the station \<open>generation\<close> fails.
\<close>

definition claim_outcome :: "'r redis_env \<Rightarrow> string \<Rightarrow> error + redis_reply \<Rightarrow> claim_result" where
  "claim_outcome env s res =
     (case reply_slice res of
        Inl err \<Rightarrow> (zero_Lease, Some (errors_Wrap ''claim redis session lease: '' err))
      | Inr result \<Rightarrow>
          (case parseClaimResult result of
             Inl err \<Rightarrow> (zero_Lease, Some err)
           | Inr (claimed, owner, generation, remaining) \<Rightarrow>
               let lease = \<lparr>lease_StationIdentity = s, lease_OwnerID = owner,
                     lease_Generation = generation, lease_ExpiresAt = renv_now env + remaining\<rparr>
               in if \<not> claimed then (lease, Some (conflict_error owner generation)) else (lease, None)))"

lemma redis_Claim_valid:
  assumes "s \<noteq> ''''" "p \<noteq> ''''" "0 < d"
  shows "redis_Claim exec prefix env s p d r =
    (let x = round_trip (renv_fate env)
       (claimScript exec (leaseKey prefix s) (generationKey prefix) p (Milliseconds d)) r
     in (claim_outcome env s (fst x), snd x))"
  using assms
  by (simp add: redis_Claim_def claim_outcome_def Let_def split: prod.splits sum.splits)

lemma claim_outcome_error:
  "claim_outcome env s (Inl e) = (zero_Lease, Some (errors_Wrap ''claim redis session lease: '' e))"
  by (simp add: claim_outcome_def reply_slice_def)

lemma claim_outcome_conflict:
  assumes "g < 2 ^ 64"
  shows "\<exists>l err. claim_outcome env s (Inr (RArr [RInt 0, RBulk p, RBulk (showNat g), RInt t])) = (l, Some err)"
  using assms
  by (simp add: claim_outcome_def reply_slice_def parseClaimResult_def sprint_def showInt_def [of 0]
      ParseUint_showNat Let_def split: sum.splits)

lemma claim_outcome_grant:
  assumes "g < 2 ^ 63"
    and "claim_outcome env s (Inr (RArr [RInt 1, RBulk p, RInt (int g), RInt t])) = (l, err)"
  shows "err = None \<Longrightarrow> lease_StationIdentity l = s \<and> lease_OwnerID l = p \<and> lease_Generation l = of_nat g"
  using assms
  by (auto simp: claim_outcome_def reply_slice_def parseClaimResult_def sprint_def
      ParseUint_showNat Let_def split: sum.splits if_splits)

text \<open>What a round trip around a script with known effect does to the keyspace.\<close>

lemma round_trip_effect:
  assumes "cmd r = (rep, r1)"
  obtains (lost) err where "round_trip fate cmd r = (Inl err, r)"
  | (error) err where "round_trip fate cmd r = (Inl err, r1)"
  | (ok) "round_trip fate cmd r = (Inr rep, r1)" "\<forall>e. rep \<noteq> RErr e"
  using assms by (cases fate; cases rep) (auto simp: round_trip_def)

lemma kv_Claim_cases:
  assumes "registry_inv prefix kv" "counter prefix kv < 2 ^ 53"
    and "redis_Claim kv_exec prefix env s p d kv = (res, kv')"
  obtains (refused) l err where "res = (l, Some err)" "kv' = kv"
  | (bumped) l err where "res = (l, Some err)" "kv (generationKey prefix) = None"
      "kv' = kv(generationKey prefix \<mapsto> (VString (showNat 1), None))"
  | (unreported) l err where "res = (l, Some err)" "s \<noteq> ''generation''" "0 < d"
      "kv (leaseKey prefix s) = None" "kv' = granted_kv prefix s p (Milliseconds d) kv"
  | (granted) l where "res = (l, None)" "s \<noteq> ''generation''" "0 < d"
      "kv (leaseKey prefix s) = None" "kv' = granted_kv prefix s p (Milliseconds d) kv"
      "lease_StationIdentity l = s" "lease_OwnerID l = p"
      "lease_Generation l = of_nat (Suc (counter prefix kv))"
proof (cases "s = '''' \<or> p = '''' \<or> d \<le> 0")
  case True
  then show thesis using assms(3) by (intro refused) (auto simp: redis_Claim_def)
next
  case False
  then have d: "0 < d" by simp
  let ?script = "claimScript kv_exec (leaseKey prefix s) (generationKey prefix) p (Milliseconds d)"
  obtain a kv2 where a2: "round_trip (renv_fate env) ?script kv = (a, kv2)" by fastforce
  then have a: "round_trip (renv_fate env) ?script kv = (a, kv')" and res: "res = claim_outcome env s a"
    using assms(3) False by (auto simp: redis_Claim_valid Let_def)
  note e0 = claim_outcome_error [of env s]
  show thesis
  proof (cases "s = ''generation''")
    case True
    then have "leaseKey prefix s = generationKey prefix" by (simp add: leaseKey_generationKey)
    then obtain e kv1 where script: "?script kv = (RErr e, kv1)"
      and kv1: "kv1 = kv \<or> kv (generationKey prefix) = None \<and> kv1 = kv(generationKey prefix \<mapsto> (VString (showNat 1), None))"
      using claimScript_generation [OF assms(1), of p "Milliseconds d"] by auto
    from script show thesis
    proof (cases rule: round_trip_effect [where fate = "renv_fate env"])
      case (lost err)
      then show thesis using a res e0 by (intro refused) simp_all
    next
      case (error err)
      then have "res = (zero_Lease, Some (errors_Wrap ''claim redis session lease: '' err))" "kv' = kv1"
        using a res e0 by simp_all
      with kv1 show thesis using refused bumped by blast
    next
      case ok
      then show thesis by simp
    qed
  next
    case ng: False
    show thesis
    proof (cases "kv (leaseKey prefix s)")
      case (Some vd)
      then obtain h p' g rem where vd: "vd = (VHash h, Some rem)" "h ''owner'' = Some p'"
        "h ''generation'' = Some (showNat g)" "g \<le> counter prefix kv"
        using registry_inv_lease [OF assms(1) ng] by (fastforce simp: lease_ok_def)
      then have script: "?script kv = (RArr [RInt 0, RBulk p', RBulk (showNat g), RInt (int rem)], kv)"
        using Some by (simp add: claimScript_held bulk_def)
      have g: "g < 2 ^ 64" using vd(4) assms(2) by simp
      from script show thesis
      proof (cases rule: round_trip_effect [where fate = "renv_fate env"])
        case ok
        then have kv': "kv' = kv" and "a = Inr (RArr [RInt 0, RBulk p', RBulk (showNat g), RInt (int rem)])"
          using a by simp_all
        then obtain l err where "res = (l, Some err)"
          using res claim_outcome_conflict [OF g, of env s p' "int rem"] by auto
        then show thesis using kv' by (rule refused)
      next
        case (lost err)
        then show thesis using a res e0 by (intro refused) simp_all
      next
        case (error err)
        then show thesis using a res e0 by (intro refused) simp_all
      qed
    next
      case None
      note script = claimScript_grant [OF assms(1,2) ng None, of p "Milliseconds d"]
      have g: "Suc (counter prefix kv) < 2 ^ 63" using assms(2) by simp
      from script show thesis
      proof (cases rule: round_trip_effect [where fate = "renv_fate env"])
        case ok
        then have kv': "kv' = granted_kv prefix s p (Milliseconds d) kv" using a by simp
        obtain l err where le: "res = (l, err)" by (cases res)
        show thesis
        proof (cases err)
          case None
          have "claim_outcome env s
              (Inr (RArr [RInt 1, RBulk p, RInt (int (Suc (counter prefix kv))), RInt (Milliseconds d)])) = (l, None)"
            using le ok a res None by simp
          then have "lease_StationIdentity l = s \<and> lease_OwnerID l = p \<and>
              lease_Generation l = of_nat (Suc (counter prefix kv))"
            by (rule claim_outcome_grant [OF g]) simp
          with None le kv' show thesis
            using ng d \<open>kv (leaseKey prefix s) = None\<close> by (intro granted [of l]) simp_all
        next
          case (Some x)
          with le kv' show thesis
            using ng d \<open>kv (leaseKey prefix s) = None\<close> by (intro unreported [of l x]) simp_all
        qed
      next
        case (lost err)
        then show thesis using a res e0 by (intro refused) simp_all
      next
        case (error err)
        then show thesis using a res e0 ng d None by (intro unreported) simp_all
      qed
    qed
  qed
qed

lemma registry_leases:
  assumes "registry_inv prefix kv" "s \<noteq> ''generation''"
  shows "\<forall>vd. kv (leaseKey prefix s) = Some vd \<longrightarrow> lease_ok (counter prefix kv) vd"
  using assms registry_inv_lease by blast

lemma matches_iff:
  assumes "registry_inv prefix kv" "s \<noteq> ''generation''"
  shows "(\<exists>h rem. kv (leaseKey prefix s) = Some (VHash h, rem) \<and> h ''owner'' = Some p \<and>
      h ''generation'' = Some (showNat (unat g))) \<longleftrightarrow> kv_holder prefix kv s = Some (p, g)" (is "?L \<longleftrightarrow> ?R")
proof (cases "kv (leaseKey prefix s)")
  case None
  then show ?thesis by (simp add: kv_holder_def)
next
  case (Some vd)
  then obtain h p' n rem where vd: "vd = (VHash h, Some rem)" "h ''owner'' = Some p'"
    "h ''generation'' = Some (showNat n)" "n \<le> counter prefix kv" "hash_holder vd = Some (p', of_nat n)"
    using hash_holder_ok registry_inv_lease [OF assms] registry_inv_bound [OF assms(1)] by metis
  have n: "n < 2 ^ 64" using vd(4) registry_inv_bound [OF assms(1)] by simp
  have "showNat n = showNat (unat g) \<longleftrightarrow> n = unat g"
    using n uint64_bound [of g] by (intro showNat_inject) simp_all
  also have "\<dots> \<longleftrightarrow> of_nat n = g"
    using n by (auto simp: unat_of_nat)
  finally have "showNat n = showNat (unat g) \<longleftrightarrow> of_nat n = g" .
  then show ?thesis using Some vd assms(2) by (auto simp: kv_holder_def)
qed


lemma renewScript_outcome:
  assumes "registry_inv prefix kv"
  shows "(\<exists>rep. (rep = RInt 0 \<or> (\<exists>e. rep = RErr e)) \<and>
      renewScript kv_exec (leaseKey prefix s) p (showNat (unat g)) ms kv = (rep, kv)) \<or>
    s \<noteq> ''generation'' \<and> kv_holder prefix kv s = Some (p, g) \<and>
      renewScript kv_exec (leaseKey prefix s) p (showNat (unat g)) ms kv =
        (RInt 1, snd (kv_exec (PEXPIRE (leaseKey prefix s) ms) kv))"
proof (cases "s = ''generation''")
  case True
  then have "leaseKey prefix s = generationKey prefix" by (simp add: leaseKey_generationKey)
  then show ?thesis using scripts_on_counter(1) [OF assms] by metis
next
  case False
  note m = matches_iff [OF assms False, of p g]
  have "renewScript kv_exec (leaseKey prefix s) p (showNat (unat g)) ms kv =
      (if kv_holder prefix kv s = Some (p, g)
       then (RInt 1, snd (kv_exec (PEXPIRE (leaseKey prefix s) ms) kv)) else (RInt 0, kv))"
    using renewScript_cases [where kv = kv, OF registry_leases [OF assms False], of p "showNat (unat g)" ms]
    unfolding m .
  with False show ?thesis by (simp split: if_splits)
qed

lemma releaseScript_outcome:
  assumes "registry_inv prefix kv"
  shows "(\<exists>rep. (rep = RInt 0 \<or> (\<exists>e. rep = RErr e)) \<and>
      releaseScript kv_exec (leaseKey prefix s) p (showNat (unat g)) kv = (rep, kv)) \<or>
    s \<noteq> ''generation'' \<and> kv_holder prefix kv s = Some (p, g) \<and>
      releaseScript kv_exec (leaseKey prefix s) p (showNat (unat g)) kv =
        (RInt 1, kv(leaseKey prefix s := None))"
proof (cases "s = ''generation''")
  case True
  then have "leaseKey prefix s = generationKey prefix" by (simp add: leaseKey_generationKey)
  then show ?thesis using scripts_on_counter(2) [OF assms] by metis
next
  case False
  note m = matches_iff [OF assms False, of p g]
  have "releaseScript kv_exec (leaseKey prefix s) p (showNat (unat g)) kv =
      (if kv_holder prefix kv s = Some (p, g)
       then (RInt 1, kv(leaseKey prefix s := None)) else (RInt 0, kv))"
    using releaseScript_cases [where kv = kv, OF registry_leases [OF assms False], of p "showNat (unat g)"]
    unfolding m .
  with False show ?thesis by (simp split: if_splits)
qed

text \<open>What the operations make of a script's reply.\<close>

lemma redis_Renew_reply:
  assumes "0 < d" "round_trip (renv_fate env)
      (renewScript exec (leaseKey prefix (lease_StationIdentity l)) (lease_OwnerID l)
        (showNat (unat (lease_Generation l))) (Milliseconds d)) r = (a, r')"
  shows "a = Inl err \<Longrightarrow> redis_Renew exec prefix env l d r =
      ((zero_Lease, Some (errors_Wrap ''renew redis session lease: '' err)), r')"
    and "a = Inr (RInt n) \<Longrightarrow> redis_Renew exec prefix env l d r =
      ((if n \<noteq> 1 then (zero_Lease, Some ErrLeaseLost)
        else (l\<lparr>lease_ExpiresAt := renv_now env + d\<rparr>, None)), r')"
  using assms by (simp_all add: redis_Renew_def reply_int_def)

lemma redis_Release_reply:
  assumes "round_trip (renv_fate env)
      (releaseScript exec (leaseKey prefix (lease_StationIdentity l)) (lease_OwnerID l)
        (showNat (unat (lease_Generation l)))) r = (a, r')"
  shows "a = Inl err \<Longrightarrow> redis_Release exec prefix env l r =
      (Some (errors_Wrap ''release redis session lease: '' err), r')"
    and "a = Inr (RInt n) \<Longrightarrow> redis_Release exec prefix env l r =
      (if n \<noteq> 1 then Some ErrLeaseLost else None, r')"
  using assms by (simp_all add: redis_Release_def reply_int_def)

lemma kv_Renew_cases:
  assumes "registry_inv prefix kv" "redis_Renew kv_exec prefix env l d kv = (res, kv')"
  obtains (refused) err where "res = (zero_Lease, Some err)" "kv' = kv"
  | (extended) err where "lease_StationIdentity l \<noteq> ''generation''" "0 < d"
      "kv_holder prefix kv (lease_StationIdentity l) = Some (lease_OwnerID l, lease_Generation l)"
      "kv' = snd (kv_exec (PEXPIRE (leaseKey prefix (lease_StationIdentity l)) (Milliseconds d)) kv)"
      "res = (l\<lparr>lease_ExpiresAt := renv_now env + d\<rparr>, None) \<or> res = (zero_Lease, Some err)"
proof (cases "0 < d")
  case False
  then show thesis using assms(2) by (intro refused) (auto simp: redis_Renew_def)
next
  case d: True
  let ?script = "renewScript kv_exec (leaseKey prefix (lease_StationIdentity l)) (lease_OwnerID l)
      (showNat (unat (lease_Generation l))) (Milliseconds d)"
  note reply = redis_Renew_reply [where exec = kv_exec and r = kv, OF d]
  from renewScript_outcome [OF assms(1), of "lease_StationIdentity l" "lease_OwnerID l" "lease_Generation l"
      "Milliseconds d"]
  show thesis
  proof (elim disjE exE conjE)
    fix rep assume script: "?script kv = (rep, kv)" and rep: "rep = RInt 0"
    from script show thesis
      by (cases rule: round_trip_effect [where fate = "renv_fate env"])
        (use rep assms(2) reply in \<open>auto intro: refused\<close>)
  next
    fix rep e assume script: "?script kv = (rep, kv)" and rep: "rep = RErr e"
    from script show thesis
      by (cases rule: round_trip_effect [where fate = "renv_fate env"])
        (use rep assms(2) reply in \<open>auto intro: refused\<close>)
  next
    assume h: "lease_StationIdentity l \<noteq> ''generation''"
      "kv_holder prefix kv (lease_StationIdentity l) = Some (lease_OwnerID l, lease_Generation l)"
      and script: "?script kv = (RInt 1, snd (kv_exec (PEXPIRE (leaseKey prefix (lease_StationIdentity l)) (Milliseconds d)) kv))"
    from script show thesis
      by (cases rule: round_trip_effect [where fate = "renv_fate env"])
        (use h d assms(2) reply in \<open>auto intro: refused extended\<close>)
  qed
qed

lemma kv_Release_cases:
  assumes "registry_inv prefix kv" "redis_Release kv_exec prefix env l kv = (res, kv')"
  obtains (refused) err where "res = Some err" "kv' = kv"
  | (released) "lease_StationIdentity l \<noteq> ''generation''"
      "kv_holder prefix kv (lease_StationIdentity l) = Some (lease_OwnerID l, lease_Generation l)"
      "kv' = kv(leaseKey prefix (lease_StationIdentity l) := None)"
proof -
  let ?script = "releaseScript kv_exec (leaseKey prefix (lease_StationIdentity l)) (lease_OwnerID l)
      (showNat (unat (lease_Generation l)))"
  note reply = redis_Release_reply [where exec = kv_exec and r = kv]
  from releaseScript_outcome [OF assms(1), of "lease_StationIdentity l" "lease_OwnerID l" "lease_Generation l"]
  show thesis
  proof (elim disjE exE conjE)
    fix rep assume script: "?script kv = (rep, kv)" and rep: "rep = RInt 0"
    from script show thesis
      by (cases rule: round_trip_effect [where fate = "renv_fate env"])
        (use rep assms(2) reply in \<open>auto intro: refused\<close>)
  next
    fix rep e assume script: "?script kv = (rep, kv)" and rep: "rep = RErr e"
    from script show thesis
      by (cases rule: round_trip_effect [where fate = "renv_fate env"])
        (use rep assms(2) reply in \<open>auto intro: refused\<close>)
  next
    assume h: "lease_StationIdentity l \<noteq> ''generation''"
      "kv_holder prefix kv (lease_StationIdentity l) = Some (lease_OwnerID l, lease_Generation l)"
      and script: "?script kv = (RInt 1, kv(leaseKey prefix (lease_StationIdentity l) := None))"
    from script show thesis
      by (cases rule: round_trip_effect [where fate = "renv_fate env"])
        (use h assms(2) reply in \<open>auto intro: refused released simp del: fun_upd_apply\<close>)
  qed
qed

section \<open>Effects on the invariant, the counter and the holders\<close>

lemma unat_next_generation: "c < 2 ^ 53 \<Longrightarrow> unat (1 + of_nat c :: uint64) = Suc c"
  using unat_of_nat [of "Suc c", where 'a = 64] by simp

lemma kv_holder_free: "kv (leaseKey prefix s) = None \<Longrightarrow> kv_holder prefix kv s = None"
  by (simp add: kv_holder_def)

lemma kv_holder_granted:
  assumes "s \<noteq> ''generation''" "counter prefix kv < 2 ^ 53"
  shows "kv_holder prefix (granted_kv prefix s p ms kv) s' =
    (if s' = s then (if ms \<le> 0 then None else Some (p, of_nat (Suc (counter prefix kv))))
     else kv_holder prefix kv s')"
  using assms
  by (auto simp: kv_holder_def granted_kv_def Let_def hash_holder_def ParseUint_showNat)

lemma bumped_effect:
  assumes "registry_inv prefix kv" "kv (generationKey prefix) = None"
    and "kv' = kv(generationKey prefix \<mapsto> (VString (showNat 1), None))"
  shows "registry_inv prefix kv'" "counter prefix kv \<le> counter prefix kv'"
    "kv_holder prefix kv' = kv_holder prefix kv"
proof -
  have c: "counter prefix kv = 0" "counter prefix kv' = 1"
    using assms(2,3) by (simp_all add: counter_def ParseUint_showNat)
  then show "counter prefix kv \<le> counter prefix kv'" by simp
  have "lease_ok 1 vd" if "s \<noteq> ''generation''" "kv' (leaseKey prefix s) = Some vd" for s vd
    using that registry_inv_lease [OF assms(1), of s vd] assms(3) c lease_ok_mono [of 0 vd 1] by simp
  then show "registry_inv prefix kv'"
    unfolding registry_inv_def c using assms(3) by simp
  show "kv_holder prefix kv' = kv_holder prefix kv"
    using assms(3) by (auto simp: kv_holder_def fun_eq_iff)
qed

text \<open>Changing one lease key, to another well-formed lease or to nothing, keeps the rest.\<close>

lemma update_lease_effect:
  assumes "registry_inv prefix kv" "s \<noteq> ''generation''"
    and "\<And>vd. new = Some vd \<Longrightarrow> lease_ok (counter prefix kv) vd"
  shows "registry_inv prefix (kv(leaseKey prefix s := new))"
    "counter prefix (kv(leaseKey prefix s := new)) = counter prefix kv"
    "kv_holder prefix (kv(leaseKey prefix s := new)) s' =
       (if s' = s then Option.bind new hash_holder else kv_holder prefix kv s')"
proof -
  show c: "counter prefix (kv(leaseKey prefix s := new)) = counter prefix kv"
    using assms(2) by (simp add: counter_def)
  show "registry_inv prefix (kv(leaseKey prefix s := new))"
    unfolding registry_inv_def c using assms unfolding registry_inv_def by auto
  show "kv_holder prefix (kv(leaseKey prefix s := new)) s' =
       (if s' = s then Option.bind new hash_holder else kv_holder prefix kv s')"
    using assms(2) by (auto simp: kv_holder_def)
qed

lemma remove_lease_effect:
  assumes "registry_inv prefix kv" "s \<noteq> ''generation''"
  shows "registry_inv prefix (kv(leaseKey prefix s := None))"
    "counter prefix (kv(leaseKey prefix s := None)) = counter prefix kv"
    "kv_holder prefix (kv(leaseKey prefix s := None)) s' = (if s' = s then None else kv_holder prefix kv s')"
  using update_lease_effect [OF assms, of None] by simp_all

lemma pexpire_effect:
  assumes "registry_inv prefix kv" "s \<noteq> ''generation''" "kv_holder prefix kv s = Some h"
    and "kv' = snd (kv_exec (PEXPIRE (leaseKey prefix s) ms) kv)"
  shows "registry_inv prefix kv'" "counter prefix kv' = counter prefix kv"
    "kv_holder prefix kv' s' = (if s' = s \<and> ms \<le> 0 then None else kv_holder prefix kv s')"
proof -
  obtain v d where vd: "kv (leaseKey prefix s) = Some (v, d)"
    using assms(3) by (auto simp: kv_holder_def split: if_splits bind_splits)
  let ?new = "if ms \<le> 0 then None else Some (v, Some (nat ms))"
  have kv': "kv' = kv(leaseKey prefix s := ?new)"
    using assms(4) vd by (simp add: kv_exec_def)
  have ok: "lease_ok (counter prefix kv) (v, d)" by (rule registry_inv_lease [OF assms(1,2) vd])
  then have new: "lease_ok (counter prefix kv) vd'" if "?new = Some vd'" for vd'
    using that by (auto simp: lease_ok_def split: if_splits)
  note upd = update_lease_effect [OF assms(1,2) new, simplified]
  show "registry_inv prefix kv'" "counter prefix kv' = counter prefix kv"
    using upd unfolding kv' by simp_all
  have "hash_holder (v, Some (nat ms)) = hash_holder (v, d)"
    using ok by (auto simp: lease_ok_def hash_holder_def)
  then show "kv_holder prefix kv' s' = (if s' = s \<and> ms \<le> 0 then None else kv_holder prefix kv s')"
    using upd vd assms(2) unfolding kv' by (auto simp: kv_holder_def)
qed

section \<open>From the keyspace to any service\<close>

definition simulates :: "('r \<Rightarrow> keyspace) \<Rightarrow> ('r \<Rightarrow> 'a \<times> 'r) \<Rightarrow> (keyspace \<Rightarrow> 'a \<times> keyspace) \<Rightarrow> bool" where
  "simulates view f g \<longleftrightarrow> (\<forall>r. g (view r) = (fst (f r), view (snd (f r))))"

lemma simulatesD: "simulates view f g \<Longrightarrow> f r = (x, r') \<Longrightarrow> g (view r) = (x, view r')"
  by (simp add: simulates_def)

lemma simulates_Pair: "simulates view (Pair x) (Pair x)"
  by (simp add: simulates_def)

lemma simulates_round_trip:
  "simulates view f g \<Longrightarrow> simulates view (round_trip fate f) (round_trip fate g)"
  by (auto simp: simulates_def round_trip_def split: fate.splits prod.splits redis_reply.splits)

context redis_service
begin

lemma simulates_call:
  assumes "\<forall>k n f. c \<noteq> XADD k n f" and "\<And>rep. simulates view (k rep) (k' rep)"
  shows "simulates view (redis_call exec c k) (redis_call kv_exec c k')"
  unfolding simulates_def
proof
  fix r
  obtain rep r1 where e: "exec c r = (rep, r1)" by fastforce
  then have "kv_exec c (view r) = (rep, view r1)"
    using exec_kv [OF e assms(1)] by (simp add: prod_eq_iff)
  then show "redis_call kv_exec c k' (view r) =
      (fst (redis_call exec c k r), view (snd (redis_call exec c k r)))"
    using e assms(2) by (cases rep) (simp_all add: redis_call_def simulates_def)
qed

lemma simulates_exec: "\<forall>k n f. c \<noteq> XADD k n f \<Longrightarrow> simulates view (exec c) (kv_exec c)"
  using exec_kv unfolding simulates_def by (metis prod.collapse)

lemma simulates_claimScript:
  "simulates view (claimScript exec k1 k2 p ms) (claimScript kv_exec k1 k2 p ms)"
  unfolding claimScript_def
  by (intro simulates_call) (simp_all add: simulates_call simulates_Pair)

lemma simulates_renewScript:
  "simulates view (renewScript exec k p g ms) (renewScript kv_exec k p g ms)"
  unfolding renewScript_def
  by (intro simulates_call) (simp_all add: simulates_call simulates_Pair)

lemma simulates_releaseScript:
  "simulates view (releaseScript exec k p g) (releaseScript kv_exec k p g)"
  unfolding releaseScript_def
  by (intro simulates_call) (simp_all add: simulates_call simulates_Pair)

end

text \<open>
  The contract for the adapter over any service: what it promises of the keyspace under the
  service's state. \<open>limit\<close> is where Lua numbers stop being exact, \<open>min_ttl\<close> is one millisecond.
\<close>

definition registry_env_ok :: "('r \<Rightarrow> keyspace) \<Rightarrow> string \<Rightarrow> 'r redis_env \<Rightarrow> bool" where
  "registry_env_ok view prefix env \<longleftrightarrow>
     (\<forall>r. registry_inv prefix (view r) \<longrightarrow>
        registry_inv prefix (view (renv_between env r)) \<and>
        counter prefix (view r) \<le> counter prefix (view (renv_between env r)))"

locale redis_registry = redis_service exec view
  for exec :: "redis_cmd \<Rightarrow> 'r \<Rightarrow> redis_reply \<times> 'r" and view :: "'r \<Rightarrow> keyspace" +
  fixes prefix :: string
begin

abbreviation r_inv :: "'r \<Rightarrow> bool" where
  "r_inv r \<equiv> registry_inv prefix (view r)"

abbreviation r_issued :: "'r \<Rightarrow> nat" where
  "r_issued r \<equiv> counter prefix (view r)"

abbreviation r_holder :: "'r redis_env \<Rightarrow> 'r \<Rightarrow> string \<Rightarrow> (string \<times> uint64) option" where
  "r_holder env r \<equiv> kv_holder prefix (view r)"

lemma Claim_kv:
  assumes "redis_Claim exec prefix env s p d r = (res, r')"
  shows "redis_Claim kv_exec prefix (kv_env env) s p d (view r) = (res, view r')"
proof -
  let ?script = "\<lambda>ex. claimScript ex (leaseKey prefix s) (generationKey prefix) p (Milliseconds d)"
  obtain a r1 where a: "round_trip (renv_fate env) (?script exec) r = (a, r1)" by fastforce
  have "round_trip (renv_fate env) (?script kv_exec) (view r) = (a, view r1)"
    by (rule simulatesD [OF simulates_round_trip [OF simulates_claimScript] a])
  then show ?thesis
    using assms a
    by (auto simp: redis_Claim_def kv_env_def Let_def split: if_splits sum.splits)
qed

lemma Renew_kv:
  assumes "redis_Renew exec prefix env l d r = (res, r')"
  shows "redis_Renew kv_exec prefix (kv_env env) l d (view r) = (res, view r')"
proof -
  let ?script = "\<lambda>ex. renewScript ex (leaseKey prefix (lease_StationIdentity l)) (lease_OwnerID l)
    (showNat (unat (lease_Generation l))) (Milliseconds d)"
  obtain a r1 where a: "round_trip (renv_fate env) (?script exec) r = (a, r1)" by fastforce
  have "round_trip (renv_fate env) (?script kv_exec) (view r) = (a, view r1)"
    by (rule simulatesD [OF simulates_round_trip [OF simulates_renewScript] a])
  then show ?thesis
    using assms a by (auto simp: redis_Renew_def kv_env_def split: if_splits sum.splits)
qed

lemma Release_kv:
  assumes "redis_Release exec prefix env l r = (res, r')"
  shows "redis_Release kv_exec prefix (kv_env env) l (view r) = (res, view r')"
proof -
  let ?script = "\<lambda>ex. releaseScript ex (leaseKey prefix (lease_StationIdentity l)) (lease_OwnerID l)
    (showNat (unat (lease_Generation l)))"
  obtain a r1 where a: "round_trip (renv_fate env) (?script exec) r = (a, r1)" by fastforce
  have "round_trip (renv_fate env) (?script kv_exec) (view r) = (a, view r1)"
    by (rule simulatesD [OF simulates_round_trip [OF simulates_releaseScript] a])
  then show ?thesis
    using assms a by (auto simp: redis_Release_def kv_env_def split: if_splits sum.splits)
qed

lemma read_keeps:
  assumes "round_trip fate (exec c) r = (res, r')" "c = HMGET k fs \<or> c = PTTL k"
  shows "view r' = view r"
proof -
  have "simulates view (round_trip fate (exec c)) (round_trip fate (kv_exec c))"
    using assms(2) by (intro simulates_round_trip simulates_exec) auto
  from simulatesD [OF this assms(1)] have "round_trip fate (kv_exec c) (view r) = (res, view r')" .
  moreover have "snd (kv_exec c (view r)) = view r"
    using assms(2) by (auto simp: kv_exec_def split: option.splits prod.splits rvalue.splits)
  ultimately show ?thesis
    using snd_round_trip_cases [of fate "kv_exec c" "view r"] by (metis snd_conv)
qed

lemma HMGET_reply:
  assumes "round_trip fate (exec (HMGET (leaseKey prefix s) [''owner'', ''generation''])) r = (res, r')"
    and "reply_slice res = Inr vals" "r_inv r" "vals ! 0 \<noteq> RNil"
  shows "\<exists>p g. vals = [RBulk p, RBulk (showNat g)] \<and> g < 2 ^ 64 \<and>
    kv_holder prefix (view r) s = Some (p, of_nat g)"
proof -
  let ?k = "leaseKey prefix s" and ?c = "HMGET (leaseKey prefix s) [''owner'', ''generation'']"
  have "exec ?c r = (RArr vals, r')"
    using assms(1,2) by (cases res; cases "projr res") (auto simp: reply_slice_def round_trip_Inr)
  then have kv: "kv_exec ?c (view r) = (RArr vals, view r')"
    using simulatesD [OF simulates_exec] by blast
  show ?thesis
  proof (cases "view r ?k")
    case None
    with kv assms(4) show ?thesis by (auto simp: kv_exec_def)
  next
    case (Some vd)
    have "s \<noteq> ''generation''"
    proof
      assume "s = ''generation''"
      then have "?k = generationKey prefix" by (simp add: leaseKey_generationKey)
      then have "fst vd = VString (showNat (r_issued r))" using Some assms(3) by (auto simp: registry_inv_def)
      with kv Some show False by (cases vd) (simp add: kv_exec_def wrongtype_def)
    qed
    then obtain h p g rem where "vd = (VHash h, Some rem)" "h ''owner'' = Some p"
      "h ''generation'' = Some (showNat g)" "g \<le> r_issued r" "hash_holder vd = Some (p, of_nat g)"
      using hash_holder_ok registry_inv_lease [OF assms(3) _ Some] registry_inv_bound [OF assms(3)] by metis
    with kv Some \<open>s \<noteq> ''generation''\<close> registry_inv_bound [OF assms(3)] show ?thesis
      by (auto simp: kv_exec_def bulk_def kv_holder_def)
  qed
qed

lemma Lookup_sound:
  assumes "redis_Lookup exec prefix env s r = ((l, None), r')" "r_inv r"
  shows "lease_StationIdentity l = s \<and>
    kv_holder prefix (view r) s = Some (lease_OwnerID l, lease_Generation l)"
proof -
  obtain a r1 where a: "round_trip (renv_fate env)
      (exec (HMGET (leaseKey prefix s) [''owner'', ''generation''])) r = (a, r1)" by fastforce
  obtain vals where v: "reply_slice a = Inr vals"
    using assms(1) a by (cases "reply_slice a") (auto simp: redis_Lookup_def Let_def)
  have nn: "vals ! 0 \<noteq> RNil"
    using assms(1) a v by (auto simp: redis_Lookup_def Let_def split: prod.splits sum.splits if_splits)
  from HMGET_reply [OF a v assms(2) nn] obtain p g where
    pg: "vals = [RBulk p, RBulk (showNat g)]" "g < 2 ^ 64" "kv_holder prefix (view r) s = Some (p, of_nat g)"
    by blast
  with assms(1) a v show ?thesis
    by (auto simp: redis_Lookup_def Let_def sprint_def ParseUint_showNat
        split: prod.splits sum.splits if_splits)
qed

lemma Lookup_inv:
  assumes "redis_Lookup exec prefix env s r = (res, r')" "r_inv r" "registry_env_ok view prefix env"
  shows "r_inv r' \<and> r_issued r \<le> r_issued r'"
proof -
  obtain a r1 where a: "round_trip (renv_fate env)
      (exec (HMGET (leaseKey prefix s) [''owner'', ''generation''])) r = (a, r1)" by fastforce
  obtain b r2 where b: "round_trip (renv_fate2 env) (exec (PTTL (leaseKey prefix s))) (renv_between env r1) = (b, r2)"
    by fastforce
  have "view r1 = view r" "view r2 = view (renv_between env r1)"
    using read_keeps [OF a] read_keeps [OF b] by auto
  moreover have "r' = r1 \<or> r' = r2"
    using assms(1) a b by (auto simp: redis_Lookup_def Let_def split: sum.splits if_splits)
  ultimately show ?thesis
    using assms(2,3) unfolding registry_env_ok_def by (metis order_refl)
qed

end

sublocale redis_registry \<subseteq> fenced_registry "redis_Registry exec prefix" "registry_env_ok view prefix"
  r_inv r_issued "2 ^ 53" millisecond r_holder
proof (unfold_locales, goal_cases)
  case (1 r e s p d res r')
  from 1(4) have "redis_Claim kv_exec prefix (kv_env e) s p d (view r) = (res, view r')"
    by (simp add: Claim_kv)
  from 1(1,3) this show ?case
    by (cases rule: kv_Claim_cases)
      (use 1(1,3) in \<open>simp_all add: registry_inv_granted counter_granted registry_inv_bound bumped_effect(1,2)\<close>)
next
  case (2 r e s p d l r')
  from 2(4) have "redis_Claim kv_exec prefix (kv_env e) s p d (view r) = ((l, None), view r')"
    by (simp add: Claim_kv)
  from 2(1,3) this show ?case
    by (cases rule: kv_Claim_cases) (use 2(3) in \<open>simp_all add: counter_granted unat_next_generation\<close>)
next
  case (3 r e s p d l r')
  from 3(4) have "redis_Claim kv_exec prefix (kv_env e) s p d (view r) = ((l, None), view r')"
    by (simp add: Claim_kv)
  from 3(1,3) this show ?case
    by (cases rule: kv_Claim_cases) (simp_all add: kv_holder_def)
next
  case (4 r e d s p l r')
  then have ms: "0 < Milliseconds d" by (simp add: Milliseconds_pos_iff)
  from 4(5) have "redis_Claim kv_exec prefix (kv_env e) s p d (view r) = ((l, None), view r')"
    by (simp add: Claim_kv)
  from 4(1,3) this show ?case
    by (cases rule: kv_Claim_cases) (use ms 4(3) in \<open>simp_all add: kv_holder_granted\<close>)
next
  case (5 r e s p d res r' s' h)
  from 5(4) have "redis_Claim kv_exec prefix (kv_env e) s p d (view r) = (res, view r')"
    by (simp add: Claim_kv)
  from 5(1,3) this show ?case
    by (cases rule: kv_Claim_cases)
      (use 5(1,3,5) in \<open>auto simp: kv_holder_granted bumped_effect(3) kv_holder_free\<close>)
next
  case (6 r e l d res r')
  from 6(3) have "redis_Renew kv_exec prefix (kv_env e) l d (view r) = (res, view r')"
    by (simp add: Renew_kv)
  from 6(1) this show ?case
    by (cases rule: kv_Renew_cases) (use 6(1) in \<open>simp_all add: pexpire_effect(1,2)\<close>)
next
  case (7 r e l d l' r')
  from 7(3) have "redis_Renew kv_exec prefix (kv_env e) l d (view r) = ((l', None), view r')"
    by (simp add: Renew_kv)
  from 7(1) this show ?case
    by (cases rule: kv_Renew_cases) simp_all
next
  case (8 r e l d l' r')
  from 8(3) have "redis_Renew kv_exec prefix (kv_env e) l d (view r) = ((l', None), view r')"
    by (simp add: Renew_kv)
  from 8(1) this show ?case
    by (cases rule: kv_Renew_cases) simp_all
next
  case (9 r e d l l' r')
  then have ms: "0 < Milliseconds d" by (simp add: Milliseconds_pos_iff)
  from 9(4) have "redis_Renew kv_exec prefix (kv_env e) l d (view r) = ((l', None), view r')"
    by (simp add: Renew_kv)
  from 9(1) this show ?case
    by (cases rule: kv_Renew_cases) (use 9(1) ms in \<open>simp_all add: pexpire_effect(3)\<close>)
next
  case (10 r e l err r')
  from 10(3) have "redis_Release kv_exec prefix (kv_env e) l (view r) = (err, view r')"
    by (simp add: Release_kv)
  from 10(1) this show ?case
    by (cases rule: kv_Release_cases) (use 10(1) in \<open>simp_all add: remove_lease_effect\<close>)
next
  case (11 r e l r')
  from 11(3) have "redis_Release kv_exec prefix (kv_env e) l (view r) = (None, view r')"
    by (simp add: Release_kv)
  from 11(1) this show ?case
    by (cases rule: kv_Release_cases) (use 11(1) in \<open>simp_all add: remove_lease_effect\<close>)
next
  case (12 r e l err r' s h)
  from 12(3) have "redis_Release kv_exec prefix (kv_env e) l (view r) = (err, view r')"
    by (simp add: Release_kv)
  from 12(1) this show ?case
    by (cases rule: kv_Release_cases) (use 12 in \<open>auto simp: remove_lease_effect\<close>)
next
  case (13 r e s res r')
  then show ?case using Lookup_inv by simp
next
  case (14 r e s l r')
  then show ?case using Lookup_sound by simp
next
  case (15 r e l d res r' s h)
  from 15(3) have "redis_Renew kv_exec prefix (kv_env e) l d (view r) = (res, view r')"
    by (simp add: Renew_kv)
  from 15(1) this show ?case
    by (cases rule: kv_Renew_cases) (use 15 in \<open>auto simp: pexpire_effect(3)\<close>)
qed

context redis_registry begin

lemma is_fenced: "fenced_registry (redis_Registry exec prefix) (registry_env_ok view prefix)
  r_inv r_issued (2 ^ 53) millisecond r_holder"
  by (rule fenced_registry_axioms)

end

lemma redis_fenced_registry:
  "redis_service exec view \<Longrightarrow>
   fenced_registry (redis_Registry exec prefix) (registry_env_ok view prefix)
     (\<lambda>r. registry_inv prefix (view r)) (\<lambda>r. counter prefix (view r)) (2 ^ 53) millisecond
     (\<lambda>_ r. kv_holder prefix (view r))"
  by (rule redis_registry.is_fenced [OF redis_registry.intro])

lemmas redis_lease_registry = fenced_registry.axioms(1) [OF redis_fenced_registry]

text \<open>The adapter as the server builds it: prefix \<open>csms\<close>, over the store.\<close>

interpretation csms_store: redis_registry st_exec st_view "''csms''"
  by unfold_locales

section \<open>Exact results of delivered operations\<close>

lemma int64_Milliseconds: "0 < d \<Longrightarrow> d < 2 ^ 63 \<Longrightarrow> int64 (Milliseconds d * millisecond) = Milliseconds d * millisecond"
  unfolding Milliseconds_def
  by (rule int64_eq; simp add: go_div_nonneg; linarith)

lemma Milliseconds_range: "0 < d \<Longrightarrow> d < 2 ^ 63 \<Longrightarrow> 0 \<le> Milliseconds d \<and> Milliseconds d < 2 ^ 63"
  by (simp add: Milliseconds_def go_div_nonneg) linarith

lemma kv_Claim_free:
  assumes "registry_inv prefix kv" "counter prefix kv < 2 ^ 53" "kv (leaseKey prefix s) = None"
    and "s \<noteq> ''generation''" "s \<noteq> ''''" "p \<noteq> ''''" "0 < d" "d < 2 ^ 63" "renv_fate env = Delivered"
  shows "redis_Claim kv_exec prefix env s p d kv =
    ((\<lparr>lease_StationIdentity = s, lease_OwnerID = p, lease_Generation = of_nat (Suc (counter prefix kv)),
       lease_ExpiresAt = renv_now env + Milliseconds d * millisecond\<rparr>, None),
     granted_kv prefix s p (Milliseconds d) kv)"
  using assms Milliseconds_range [OF assms(7,8)] int64_Milliseconds [OF assms(7,8)]
  by (simp add: redis_Claim_valid claimScript_grant round_trip_def claim_outcome_def reply_slice_def
      parseClaimResult_def sprint_def ParseUint_showNat ParseInt_showInt Let_def del: of_nat_Suc)

lemma kv_Claim_held:
  assumes "registry_inv prefix kv" "kv (leaseKey prefix s) = Some (v, Some rem)" "rem < 2 ^ 63"
    and "kv_holder prefix kv s = Some (q, g)"
    and "s \<noteq> ''''" "p \<noteq> ''''" "0 < d" "renv_fate env = Delivered"
  shows "redis_Claim kv_exec prefix env s p d kv =
    ((\<lparr>lease_StationIdentity = s, lease_OwnerID = q, lease_Generation = g,
       lease_ExpiresAt = renv_now env + int64 (int rem * millisecond)\<rparr>, Some (conflict_error q g)), kv)"
proof -
  have s: "s \<noteq> ''generation''" using assms(4) by (auto simp: kv_holder_def)
  obtain h where h: "v = VHash h" "h ''owner'' = Some q" "h ''generation'' = Some (showNat (unat g))"
    using matches_iff [OF assms(1) s, of q g] assms(2,4) by auto
  have "ParseInt (showNat rem) = Inr (int rem)" using assms(3) by simp
  then show ?thesis
    using assms h claimScript_held [of kv "leaseKey prefix s" h rem] uint64_bound [of g]
    by (simp add: redis_Claim_valid round_trip_def claim_outcome_def reply_slice_def parseClaimResult_def
        sprint_def bulk_def ParseUint_showNat ParseInt_showInt Let_def)
qed

lemma kv_Renew_exact:
  assumes "registry_inv prefix kv" "0 < d" "renv_fate env = Delivered" "lease_StationIdentity l \<noteq> ''generation''"
  shows "redis_Renew kv_exec prefix env l d kv =
    (if kv_holder prefix kv (lease_StationIdentity l) = Some (lease_OwnerID l, lease_Generation l)
     then ((l\<lparr>lease_ExpiresAt := renv_now env + d\<rparr>, None),
           snd (kv_exec (PEXPIRE (leaseKey prefix (lease_StationIdentity l)) (Milliseconds d)) kv))
     else ((zero_Lease, Some ErrLeaseLost), kv))"
  using renewScript_cases [where kv = kv, OF registry_leases [OF assms(1,4)], of "lease_OwnerID l"
      "showNat (unat (lease_Generation l))" "Milliseconds d"] assms(2,3)
  unfolding matches_iff [OF assms(1,4)]
  by (simp add: redis_Renew_def round_trip_def reply_int_def)

lemma kv_Release_exact:
  assumes "registry_inv prefix kv" "renv_fate env = Delivered" "lease_StationIdentity l \<noteq> ''generation''"
  shows "redis_Release kv_exec prefix env l kv =
    (if kv_holder prefix kv (lease_StationIdentity l) = Some (lease_OwnerID l, lease_Generation l)
     then (None, kv(leaseKey prefix (lease_StationIdentity l) := None))
     else (Some ErrLeaseLost, kv))"
  using releaseScript_cases [where kv = kv, OF registry_leases [OF assms(1,3)], of "lease_OwnerID l"
      "showNat (unat (lease_Generation l))"] assms(2)
  unfolding matches_iff [OF assms(1,3)]
  by (simp add: redis_Release_def round_trip_def reply_int_def)

lemma kv_env_simps [simp]: "renv_now (kv_env e) = renv_now e" "renv_fate (kv_env e) = renv_fate e"
  by (simp_all add: kv_env_def)

lemmas redis_Claim_kv = redis_registry.Claim_kv [OF redis_registry.intro]
  and redis_Renew_kv = redis_registry.Renew_kv [OF redis_registry.intro]
  and redis_Release_kv = redis_registry.Release_kv [OF redis_registry.intro]

section \<open>Properties\<close>

text \<open>
  C11: A delivered claim of a free station succeeds over any Redis service with the documented
  behaviour: the lease carries the next generation, and the claimant becomes the holder. The
  station name \<open>generation\<close> is excluded.
\<close>

theorem redis_claim_free:
  assumes "redis_service exec view" and "registry_inv prefix (view r)" and "counter prefix (view r) < 2 ^ 53"
    and "view r (leaseKey prefix s) = None" and "s \<noteq> ''generation''" and "s \<noteq> ''''" and "p \<noteq> ''''"
    and "millisecond \<le> d" and "d < 2 ^ 63" and "renv_fate env = Delivered"
    and "redis_Claim exec prefix env s p d r = (res, r')"
  shows "res = (\<lparr>lease_StationIdentity = s, lease_OwnerID = p,
      lease_Generation = of_nat (Suc (counter prefix (view r))),
      lease_ExpiresAt = renv_now env + Milliseconds d * millisecond\<rparr>, None) \<and>
    kv_holder prefix (view r') s = Some (p, of_nat (Suc (counter prefix (view r)))) \<and>
    counter prefix (view r') = Suc (counter prefix (view r))"
proof -
  have d: "0 < d" "0 < Milliseconds d" using assms(8) by (simp_all add: Milliseconds_pos_iff)
  have "(\<lparr>lease_StationIdentity = s, lease_OwnerID = p, lease_Generation = of_nat (Suc (counter prefix (view r))),
      lease_ExpiresAt = renv_now env + Milliseconds d * millisecond\<rparr>, None) = res"
    and v: "view r' = granted_kv prefix s p (Milliseconds d) (view r)"
    using redis_Claim_kv [OF assms(1,11)] kv_Claim_free [OF assms(2-7) d(1) assms(9), of "kv_env env"] assms(10)
    by (simp_all del: of_nat_Suc)
  then show ?thesis
    using d kv_holder_granted [OF assms(5,3)] counter_granted [OF registry_inv_bound [OF assms(2)] assms(5)]
    by (simp add: v del: of_nat_Suc)
qed

text \<open>
  C12: While a station has a live lease, a delivered claim by anybody fails with
  \<open>ErrOwnershipConflict\<close>, reports the holder's owner and generation, and changes nothing.
\<close>

theorem redis_claim_conflict:
  assumes "redis_service exec view" and "registry_inv prefix (view r)"
    and "view r (leaseKey prefix s) = Some (v, Some rem)" and "rem < 2 ^ 63"
    and "kv_holder prefix (view r) s = Some (q, g)"
    and "s \<noteq> ''''" and "p \<noteq> ''''" and "0 < d" and "renv_fate env = Delivered"
    and "redis_Claim exec prefix env s p d r = ((l, err), r')"
  shows "(\<exists>x. err = Some x \<and> errors_Is x ErrOwnershipConflict) \<and>
    lease_OwnerID l = q \<and> lease_Generation l = g \<and> view r' = view r"
  using redis_Claim_kv [OF assms(1,10)] kv_Claim_held [OF assms(2-8), of "kv_env env"] assms(9) by auto

text \<open>
  C13: A delivered renewal succeeds exactly for the current holder, whose lease then runs for the
  new lifetime; with any other lease it reports \<open>ErrLeaseLost\<close> and changes nothing.
\<close>

theorem redis_renew_exact:
  assumes "redis_service exec view" and "registry_inv prefix (view r)"
    and "lease_StationIdentity l \<noteq> ''generation''" and "millisecond \<le> d" and "renv_fate env = Delivered"
    and "redis_Renew exec prefix env l d r = (res, r')"
  shows "if kv_holder prefix (view r) (lease_StationIdentity l) = Some (lease_OwnerID l, lease_Generation l)
    then res = (l\<lparr>lease_ExpiresAt := renv_now env + d\<rparr>, None) \<and>
      kv_holder prefix (view r') = kv_holder prefix (view r) \<and>
      map_option snd (view r' (leaseKey prefix (lease_StationIdentity l))) = Some (Some (nat (Milliseconds d)))
    else res = (zero_Lease, Some ErrLeaseLost) \<and> view r' = view r"
proof -
  let ?s = "lease_StationIdentity l"
  have d: "0 < d" "0 < Milliseconds d" using assms(4) by (simp_all add: Milliseconds_pos_iff)
  note exact = redis_Renew_kv [OF assms(1,6)] kv_Renew_exact [OF assms(2) d(1) _ assms(3), of "kv_env env"]
  show ?thesis
  proof (cases "kv_holder prefix (view r) ?s = Some (lease_OwnerID l, lease_Generation l)")
    case True
    obtain vd where "view r (leaseKey prefix ?s) = Some vd"
      using True by (auto simp: kv_holder_def split: if_splits bind_splits)
    moreover have v: "view r' = snd (kv_exec (PEXPIRE (leaseKey prefix ?s) (Milliseconds d)) (view r))"
      using exact True assms(5) by simp
    ultimately show ?thesis
      using exact True assms(5) d pexpire_effect(3) [OF assms(2,3) True v] by (cases vd) (auto simp: kv_exec_def)
  next
    case False
    then show ?thesis using exact assms(5) by auto
  qed
qed

text \<open>
  C14: A delivered release succeeds exactly for the current holder, and then frees that station and
  no other; with any other lease it reports \<open>ErrLeaseLost\<close> and changes nothing.
\<close>

theorem redis_release_exact:
  assumes "redis_service exec view" and "registry_inv prefix (view r)"
    and "lease_StationIdentity l \<noteq> ''generation''" and "renv_fate env = Delivered"
    and "redis_Release exec prefix env l r = (res, r')"
  shows "if kv_holder prefix (view r) (lease_StationIdentity l) = Some (lease_OwnerID l, lease_Generation l)
    then res = None \<and> view r' = (view r)(leaseKey prefix (lease_StationIdentity l) := None)
    else res = Some ErrLeaseLost \<and> view r' = view r"
  using redis_Release_kv [OF assms(1,5)] kv_Release_exact [OF assms(2) _ assms(3), of "kv_env env"] assms(4)
  by (simp split: if_splits)

text \<open>
  C15: Whatever happens to the round trip, a renewal or a release with a stale lease leaves the
  current holder of every station in place.
\<close>

theorem redis_stale_lease_harmless:
  assumes "redis_service exec view" and "registry_inv prefix (view r)" and "registry_env_ok view prefix env"
    and "kv_holder prefix (view r) s = Some h"
    and "s \<noteq> lease_StationIdentity l \<or> h \<noteq> (lease_OwnerID l, lease_Generation l)"
  shows "kv_holder prefix (view (snd (redis_Renew exec prefix env l d r))) s = Some h \<and>
    kv_holder prefix (view (snd (redis_Release exec prefix env l r))) s = Some h"
  using fenced_registry.renew_foreign [OF redis_fenced_registry [OF assms(1)] assms(2,3) _ assms(4,5), of d
      "fst (redis_Renew exec prefix env l d r)" "snd (redis_Renew exec prefix env l d r)"]
    lease_registry.release_foreign [OF redis_lease_registry [OF assms(1)] assms(2,3) _ assms(4,5),
      of "fst (redis_Release exec prefix env l r)" "snd (redis_Release exec prefix env l r)"]
  by simp

text \<open>
  The lease key of the station \<open>generation\<close> is the key of the generation counter, so no claim
  for that station ever succeeds.
\<close>

theorem redis_generation_station_refused:
  assumes "redis_service exec view" and "registry_inv prefix (view r)" and "counter prefix (view r) < 2 ^ 53"
    and "redis_Claim exec prefix env ''generation'' p d r = ((l, err), r')"
  shows "err \<noteq> None"
  using assms(2,3) redis_Claim_kv [OF assms(1,4)] by (cases rule: kv_Claim_cases) auto

text \<open>
  A claim with a positive lifetime below one millisecond reports success on a free station, but
  the expiry of zero milliseconds deletes the lease at once: nobody holds the station afterwards.
\<close>

theorem redis_submillisecond_claim_lost:
  assumes "redis_service exec view" and "registry_inv prefix (view r)" and "counter prefix (view r) < 2 ^ 53"
    and "view r (leaseKey prefix s) = None" and "s \<noteq> ''generation''" and "s \<noteq> ''''" and "p \<noteq> ''''"
    and "0 < d" and "d < millisecond" and "renv_fate env = Delivered"
    and "redis_Claim exec prefix env s p d r = ((l, err), r')"
  shows "err = None \<and> kv_holder prefix (view r') s = None"
proof -
  have "d < 2 ^ 63" and ms: "Milliseconds d \<le> 0"
    using assms(9) Milliseconds_pos_iff [OF assms(8)] by simp_all
  then have "err = None" and v: "view r' = granted_kv prefix s p (Milliseconds d) (view r)"
    using redis_Claim_kv [OF assms(1,11)] kv_Claim_free [OF assms(2-8), of "kv_env env"] assms(10) by auto
  then show ?thesis
    using ms kv_holder_granted [OF assms(5,3)] by (simp add: v)
qed

section \<open>The properties at work\<close>

text \<open>An empty store, and the store in which \<open>pod-a\<close> holds station \<open>cp1\<close> for two minutes.\<close>

definition demo_store :: store where
  "demo_store = \<lparr>st_now = 0, st_data = Map.empty\<rparr>"

definition demo_kv :: keyspace where
  "demo_kv = granted_kv ''csms'' ''cp1'' ''pod-a'' 120000 Map.empty"

definition held_store :: store where
  "held_store = \<lparr>st_now = 0, st_data = st_put 0 demo_kv\<rparr>"

definition demo_env :: "store redis_env" where
  "demo_env = \<lparr>renv_now = 0, renv_fate = Delivered, renv_fate2 = Delivered, renv_between = (\<lambda>r. r)\<rparr>"

definition demo_lease :: "string \<Rightarrow> uint64 \<Rightarrow> Lease" where
  "demo_lease p g = \<lparr>lease_StationIdentity = ''cp1'', lease_OwnerID = p, lease_Generation = g, lease_ExpiresAt = 0\<rparr>"

lemma empty_registry [simp]: "registry_inv prefix Map.empty" "counter prefix Map.empty = 0"
  by (simp_all add: registry_inv_def counter_def)

lemma demo_view [simp]: "st_view demo_store = Map.empty" "st_view held_store = demo_kv"
  using st_view_put [of held_store demo_kv]
  by (auto simp: demo_store_def held_store_def st_view_def fun_eq_iff)

lemma demo_kv_inv [simp]: "registry_inv ''csms'' demo_kv" "counter ''csms'' demo_kv = 1"
  unfolding demo_kv_def by (simp_all add: registry_inv_granted counter_granted)

lemma demo_kv_lease:
  "demo_kv (leaseKey ''csms'' s) =
     (if s = ''cp1'' then Some (VHash [''owner'' \<mapsto> ''pod-a'', ''generation'' \<mapsto> showNat 1], Some 120000)
      else if s = ''generation'' then Some (VString (showNat 1), None) else None)"
  by (simp add: demo_kv_def granted_kv_def Let_def leaseKey_generationKey)

lemma demo_holder [simp]: "kv_holder ''csms'' demo_kv s = (if s = ''cp1'' then Some (''pod-a'', 1) else None)"
  unfolding demo_kv_def by (simp add: kv_holder_granted kv_holder_free)

lemma demo_env_simps [simp]: "renv_fate demo_env = Delivered" "renv_now demo_env = 0"
    "registry_env_ok view prefix demo_env"
  by (simp_all add: demo_env_def registry_env_ok_def)

lemma demo_lease_simps [simp]: "lease_StationIdentity (demo_lease p g) = ''cp1''"
    "lease_OwnerID (demo_lease p g) = p" "lease_Generation (demo_lease p g) = g"
  by (simp_all add: demo_lease_def)

theorem redis_claim_free_witness:
  "snd (fst (redis_Claim st_exec ''csms'' demo_env ''cp1'' ''pod-a'' (2 * minute) demo_store)) = None \<and>
   kv_holder ''csms'' (st_view (snd (redis_Claim st_exec ''csms'' demo_env ''cp1'' ''pod-a'' (2 * minute) demo_store)))
     ''cp1'' = Some (''pod-a'', 1)"
  using redis_claim_free [OF store.redis_service_axioms, of "''csms''" demo_store "''cp1''" "''pod-a''" "2 * minute" demo_env
      "fst (redis_Claim st_exec ''csms'' demo_env ''cp1'' ''pod-a'' (2 * minute) demo_store)"
      "snd (redis_Claim st_exec ''csms'' demo_env ''cp1'' ''pod-a'' (2 * minute) demo_store)"]
  by simp

theorem redis_claim_conflict_witness:
  "\<exists>x. redis_Claim st_exec ''csms'' demo_env ''cp1'' ''pod-b'' minute held_store = x \<and>
     lease_OwnerID (fst (fst x)) = ''pod-a'' \<and> lease_Generation (fst (fst x)) = 1 \<and>
     errors_Is (the (snd (fst x))) ErrOwnershipConflict \<and> st_view (snd x) = demo_kv"
proof -
  obtain l err r' where x: "redis_Claim st_exec ''csms'' demo_env ''cp1'' ''pod-b'' minute held_store = ((l, err), r')"
    by (metis prod.exhaust)
  show ?thesis
    unfolding x
    using redis_claim_conflict [OF store.redis_service_axioms _ _ _ _ _ _ _ _ x,
        of "VHash [''owner'' \<mapsto> ''pod-a'', ''generation'' \<mapsto> showNat 1]" 120000 "''pod-a''" 1]
    by (auto simp: demo_kv_lease)
qed

theorem redis_renew_exact_witness:
  "snd (fst (redis_Renew st_exec ''csms'' demo_env (demo_lease ''pod-a'' 1) minute held_store)) = None \<and>
   snd (fst (redis_Renew st_exec ''csms'' demo_env (demo_lease ''pod-b'' 7) minute held_store)) = Some ErrLeaseLost"
  using redis_renew_exact [OF store.redis_service_axioms _ _ _ _ prod.collapse [symmetric],
      of "''csms''" held_store "demo_lease ''pod-a'' 1" minute demo_env]
    redis_renew_exact [OF store.redis_service_axioms _ _ _ _ prod.collapse [symmetric],
      of "''csms''" held_store "demo_lease ''pod-b'' 7" minute demo_env]
  by simp

theorem redis_release_exact_witness:
  "fst (redis_Release st_exec ''csms'' demo_env (demo_lease ''pod-a'' 1) held_store) = None \<and>
   fst (redis_Release st_exec ''csms'' demo_env (demo_lease ''pod-a'' 2) held_store) = Some ErrLeaseLost"
  using redis_release_exact [OF store.redis_service_axioms _ _ _ prod.collapse [symmetric],
      of "''csms''" held_store "demo_lease ''pod-a'' 1" demo_env]
    redis_release_exact [OF store.redis_service_axioms _ _ _ prod.collapse [symmetric],
      of "''csms''" held_store "demo_lease ''pod-a'' 2" demo_env]
  by simp

theorem redis_stale_lease_harmless_witness:
  "kv_holder ''csms'' (st_view (snd (redis_Renew st_exec ''csms'' demo_env (demo_lease ''pod-b'' 7) minute held_store)))
     ''cp1'' = Some (''pod-a'', 1)"
  using redis_stale_lease_harmless [OF store.redis_service_axioms, of "''csms''" held_store demo_env "''cp1''"
      "(''pod-a'', 1)" "demo_lease ''pod-b'' 7" minute]
  by simp

theorem redis_generation_station_refused_witness:
  "snd (fst (redis_Claim st_exec ''csms'' demo_env ''generation'' ''pod-a'' minute demo_store)) \<noteq> None"
  using redis_generation_station_refused [OF store.redis_service_axioms, of "''csms''" demo_store demo_env "''pod-a''" minute
      "fst (fst (redis_Claim st_exec ''csms'' demo_env ''generation'' ''pod-a'' minute demo_store))"
      "snd (fst (redis_Claim st_exec ''csms'' demo_env ''generation'' ''pod-a'' minute demo_store))"
      "snd (redis_Claim st_exec ''csms'' demo_env ''generation'' ''pod-a'' minute demo_store)"]
  by simp

theorem redis_submillisecond_claim_lost_witness:
  "snd (fst (redis_Claim st_exec ''csms'' demo_env ''cp1'' ''pod-a'' 500000 demo_store)) = None \<and>
   kv_holder ''csms'' (st_view (snd (redis_Claim st_exec ''csms'' demo_env ''cp1'' ''pod-a'' 500000 demo_store))) ''cp1'' = None"
  using redis_submillisecond_claim_lost [OF store.redis_service_axioms, of "''csms''" demo_store "''cp1''" "''pod-a''" 500000 demo_env
      "fst (fst (redis_Claim st_exec ''csms'' demo_env ''cp1'' ''pod-a'' 500000 demo_store))"
      "snd (fst (redis_Claim st_exec ''csms'' demo_env ''cp1'' ''pod-a'' 500000 demo_store))"
      "snd (redis_Claim st_exec ''csms'' demo_env ''cp1'' ''pod-a'' 500000 demo_store)"]
  by simp

end
