(* ===== verification/Memory_Registry.thy ===== *)
theory Memory_Registry
  imports Session_Registry
begin

text \<open>
  The in-process registry (internal/sessionregistry/memory.go). Each operation runs under the
  registry's mutex, so it is one step on the record \<open>Memory\<close>; the environment supplies the
  caller's context error and the clock reading. The theory shows the lease contract for it,
  and that it does not meet the fenced contract: a stale renewal deletes the current lease.
\<close>

section \<open>State and operations\<close>

record Memory =
  mem_generation :: uint64
  mem_leases :: "string \<rightharpoonup> Lease"

record mem_env =
  menv_ctx :: "error option"
  menv_now :: time

definition NewMemory :: Memory where
  "NewMemory = \<lparr>mem_generation = 0, mem_leases = Map.empty\<rparr>"

definition validate :: "error option \<Rightarrow> string \<Rightarrow> string \<Rightarrow> duration \<Rightarrow> error option" where
  "validate ctx stationIdentity ownerID ttl =
     (case ctx of
        Some err \<Rightarrow> Some err
      | None \<Rightarrow>
          if stationIdentity = '''' \<or> ownerID = ''''
          then Some (errors_New ''station identity and owner ID are required'')
          else if ttl \<le> 0 then Some (errors_New ''lease TTL must be positive'')
          else None)"

definition mem_Claim ::
  "mem_env \<Rightarrow> string \<Rightarrow> string \<Rightarrow> duration \<Rightarrow> Memory \<Rightarrow> claim_result \<times> Memory" where
  "mem_Claim env stationIdentity ownerID ttl r =
     (case validate (menv_ctx env) stationIdentity ownerID ttl of
        Some err \<Rightarrow> ((zero_Lease, Some err), r)
      | None \<Rightarrow>
          let now = menv_now env;
              grant =
                (let g = mem_generation r + 1;
                     lease = \<lparr>lease_StationIdentity = stationIdentity, lease_OwnerID = ownerID,
                       lease_Generation = g, lease_ExpiresAt = now + ttl\<rparr>
                 in ((lease, None),
                     r\<lparr>mem_generation := g, mem_leases := (mem_leases r)(stationIdentity \<mapsto> lease)\<rparr>))
          in case mem_leases r stationIdentity of
               Some current \<Rightarrow>
                 if After (lease_ExpiresAt current) now
                 then ((current,
                        Some (conflict_error (lease_OwnerID current) (lease_Generation current))), r)
                 else grant
             | None \<Rightarrow> grant)"

definition mem_Renew ::
  "mem_env \<Rightarrow> Lease \<Rightarrow> duration \<Rightarrow> Memory \<Rightarrow> claim_result \<times> Memory" where
  "mem_Renew env lease ttl r =
     (case validate (menv_ctx env) (lease_StationIdentity lease) (lease_OwnerID lease) ttl of
        Some err \<Rightarrow> ((zero_Lease, Some err), r)
      | None \<Rightarrow>
          let now = menv_now env;
              lost = ((zero_Lease, Some ErrLeaseLost),
                      r\<lparr>mem_leases := (mem_leases r)(lease_StationIdentity lease := None)\<rparr>)
          in case mem_leases r (lease_StationIdentity lease) of
               None \<Rightarrow> lost
             | Some current \<Rightarrow>
                 if \<not> After (lease_ExpiresAt current) now
                    \<or> lease_OwnerID current \<noteq> lease_OwnerID lease
                    \<or> lease_Generation current \<noteq> lease_Generation lease
                 then lost
                 else let current' = current\<lparr>lease_ExpiresAt := now + ttl\<rparr>
                      in ((current', None),
                          r\<lparr>mem_leases := (mem_leases r)(lease_StationIdentity lease \<mapsto> current')\<rparr>))"

definition mem_Release :: "mem_env \<Rightarrow> Lease \<Rightarrow> Memory \<Rightarrow> error option \<times> Memory" where
  "mem_Release env lease r =
     (case menv_ctx env of
        Some err \<Rightarrow> (Some err, r)
      | None \<Rightarrow>
          (case mem_leases r (lease_StationIdentity lease) of
             None \<Rightarrow> (None, r)
           | Some current \<Rightarrow>
               if lease_OwnerID current \<noteq> lease_OwnerID lease
                  \<or> lease_Generation current \<noteq> lease_Generation lease
               then (Some ErrLeaseLost, r)
               else (None, r\<lparr>mem_leases := (mem_leases r)(lease_StationIdentity lease := None)\<rparr>)))"

definition mem_Lookup :: "mem_env \<Rightarrow> string \<Rightarrow> Memory \<Rightarrow> claim_result \<times> Memory" where
  "mem_Lookup env stationIdentity r =
     (case menv_ctx env of
        Some err \<Rightarrow> ((zero_Lease, Some err), r)
      | None \<Rightarrow>
          if stationIdentity = ''''
          then ((zero_Lease, Some (errors_New ''station identity is required'')), r)
          else
            let missing = ((zero_Lease, Some ErrNotFound),
                           r\<lparr>mem_leases := (mem_leases r)(stationIdentity := None)\<rparr>)
            in case mem_leases r stationIdentity of
                 None \<Rightarrow> missing
               | Some lease \<Rightarrow>
                   if \<not> After (lease_ExpiresAt lease) (menv_now env) then missing
                   else ((lease, None), r))"

definition mem_Registry :: "(mem_env, Memory) Registry" where
  "mem_Registry = \<lparr>reg_Claim = mem_Claim, reg_Renew = mem_Renew, reg_Release = mem_Release,
     reg_Lookup = mem_Lookup\<rparr>"

lemmas mem_op_defs = mem_Claim_def mem_Renew_def mem_Release_def mem_Lookup_def validate_def

section \<open>The lease contract\<close>

text \<open>Every stored lease is filed under its own station, with a generation already issued.\<close>

definition mem_inv :: "Memory \<Rightarrow> bool" where
  "mem_inv r \<longleftrightarrow> (\<forall>s l. mem_leases r s = Some l \<longrightarrow>
     lease_StationIdentity l = s \<and> lease_Generation l \<le> mem_generation r)"

definition mem_holder :: "mem_env \<Rightarrow> Memory \<Rightarrow> string \<Rightarrow> (string \<times> uint64) option" where
  "mem_holder env r s =
     (case mem_leases r s of
        Some l \<Rightarrow> if After (lease_ExpiresAt l) (menv_now env)
                  then Some (lease_OwnerID l, lease_Generation l) else None
      | None \<Rightarrow> None)"

abbreviation mem_issued :: "Memory \<Rightarrow> nat" where
  "mem_issued r \<equiv> unat (mem_generation r)"

definition mem_limit :: nat where
  "mem_limit = 2 ^ 64 - 1"

lemma generation_succ: "unat g < mem_limit \<Longrightarrow> unat (g + 1) = Suc (unat g)" for g :: uint64
  by (simp add: unat_word_ariths mem_limit_def)

lemma generation_succ_le: "unat g < mem_limit \<Longrightarrow> h \<le> g \<Longrightarrow> h \<le> g + 1" for g :: uint64
  by (simp add: word_le_nat_alt generation_succ)

lemma mem_Registry_simps [simp]:
  "reg_Claim mem_Registry = mem_Claim" "reg_Renew mem_Registry = mem_Renew"
  "reg_Release mem_Registry = mem_Release" "reg_Lookup mem_Registry = mem_Lookup"
  by (simp_all add: mem_Registry_def)

lemma mem_invD:
  "mem_inv r \<Longrightarrow> mem_leases r s = Some l \<Longrightarrow>
   lease_StationIdentity l = s \<and> lease_Generation l \<le> mem_generation r"
  by (simp add: mem_inv_def)

lemma NewMemory_inv: "mem_inv NewMemory"
  by (simp add: mem_inv_def NewMemory_def)

text \<open>The two outcomes of a claim: refused with the state as it was, or granted.\<close>

lemma mem_Claim_cases:
  assumes "mem_Claim env s p d r = (res, r')"
  obtains (refused) l err where "res = (l, Some err)" "r' = r"
  | (granted) l where "res = (l, None)" "mem_holder env r s = None" "0 < d"
      "l = \<lparr>lease_StationIdentity = s, lease_OwnerID = p, lease_Generation = mem_generation r + 1,
            lease_ExpiresAt = menv_now env + d\<rparr>"
      "r' = r\<lparr>mem_generation := mem_generation r + 1, mem_leases := (mem_leases r)(s \<mapsto> l)\<rparr>"
proof (cases "validate (menv_ctx env) s p d = None \<and> mem_holder env r s = None")
  case True
  then have "0 < d" by (auto simp: validate_def split: option.splits if_splits)
  moreover have "mem_Claim env s p d r =
      (let l = \<lparr>lease_StationIdentity = s, lease_OwnerID = p, lease_Generation = mem_generation r + 1,
            lease_ExpiresAt = menv_now env + d\<rparr>
       in ((l, None), r\<lparr>mem_generation := mem_generation r + 1, mem_leases := (mem_leases r)(s \<mapsto> l)\<rparr>))"
    using True by (cases "mem_leases r s") (auto simp: mem_Claim_def mem_holder_def Let_def split: if_splits)
  ultimately show ?thesis using True assms granted by (simp add: Let_def)
next
  case False
  then have "\<exists>l err. mem_Claim env s p d r = ((l, Some err), r)"
    by (cases "validate (menv_ctx env) s p d")
      (auto simp: mem_Claim_def mem_holder_def Let_def split: option.splits if_splits)
  then show ?thesis using assms refused by auto
qed

text \<open>
  The outcomes of a renewal: refused by validation, lost with the station's entry deleted, or
  extended.
\<close>

lemma mem_Renew_cases:
  assumes "mem_Renew env l d r = (res, r')"
  obtains (refused) err where "res = (zero_Lease, Some err)" "r' = r"
  | (lost) "res = (zero_Lease, Some ErrLeaseLost)"
      "r' = r\<lparr>mem_leases := (mem_leases r)(lease_StationIdentity l := None)\<rparr>"
  | (renewed) c where "mem_leases r (lease_StationIdentity l) = Some c"
      "After (lease_ExpiresAt c) (menv_now env)" "lease_OwnerID c = lease_OwnerID l"
      "lease_Generation c = lease_Generation l" "0 < d"
      "res = (c\<lparr>lease_ExpiresAt := menv_now env + d\<rparr>, None)"
      "r' = r\<lparr>mem_leases := (mem_leases r)(lease_StationIdentity l \<mapsto>
               c\<lparr>lease_ExpiresAt := menv_now env + d\<rparr>)\<rparr>"
proof (cases "validate (menv_ctx env) (lease_StationIdentity l) (lease_OwnerID l) d")
  case (Some err)
  then show ?thesis using assms refused [of err] by (simp add: mem_Renew_def)
next
  case None
  then have d: "0 < d" by (auto simp: validate_def split: option.splits if_splits)
  show ?thesis
  proof (cases "mem_holder env r (lease_StationIdentity l) = Some (lease_OwnerID l, lease_Generation l)")
    case True
    then obtain c where c: "mem_leases r (lease_StationIdentity l) = Some c"
      "After (lease_ExpiresAt c) (menv_now env)" "lease_OwnerID c = lease_OwnerID l"
      "lease_Generation c = lease_Generation l"
      by (auto simp: mem_holder_def split: option.splits if_splits)
    then show ?thesis using assms None d renewed [of c] by (simp add: mem_Renew_def Let_def)
  next
    case False
    then have "mem_Renew env l d r = ((zero_Lease, Some ErrLeaseLost),
        r\<lparr>mem_leases := (mem_leases r)(lease_StationIdentity l := None)\<rparr>)"
      using None by (cases "mem_leases r (lease_StationIdentity l)")
        (auto simp: mem_Renew_def mem_holder_def Let_def split: if_splits)
    then show ?thesis using assms lost by simp
  qed
qed

lemma mem_Claim_inv:
  assumes "mem_inv r" "mem_issued r < mem_limit" "mem_Claim e s p d r = (res, r')"
  shows "mem_inv r' \<and> mem_issued r \<le> mem_issued r'"
  using assms(3)
proof (cases rule: mem_Claim_cases)
  case (granted l)
  with assms(1,2) show ?thesis
    by (auto simp: mem_inv_def generation_succ generation_succ_le)
qed (use assms(1) in simp)

lemma mem_Renew_inv:
  assumes "mem_inv r" "mem_Renew e l d r = (res, r')"
  shows "mem_inv r' \<and> mem_issued r' = mem_issued r"
  using assms(2)
proof (cases rule: mem_Renew_cases)
  case (renewed c)
  have "lease_StationIdentity c = lease_StationIdentity l \<and> lease_Generation c \<le> mem_generation r"
    by (rule mem_invD [OF assms(1) renewed(1)])
  with assms(1) show ?thesis by (simp add: renewed(7) mem_inv_def)
qed (use assms(1) in \<open>simp_all add: mem_inv_def\<close>)

lemma mem_Renew_same:
  assumes "mem_inv r" "mem_Renew e l d r = ((l', None), r')"
  shows "lease_StationIdentity l' = lease_StationIdentity l \<and> lease_OwnerID l' = lease_OwnerID l \<and>
    lease_Generation l' = lease_Generation l"
  using assms(2)
proof (cases rule: mem_Renew_cases)
  case (renewed c)
  then show ?thesis using mem_invD [OF assms(1) renewed(1)] by simp
qed simp_all

lemma mem_Renew_holder:
  assumes "mem_Renew e l d r = ((l', None), r')"
  shows "mem_holder e r (lease_StationIdentity l) = Some (lease_OwnerID l, lease_Generation l)"
    and "mem_holder e r' (lease_StationIdentity l) = Some (lease_OwnerID l, lease_Generation l)"
  using assms by (cases rule: mem_Renew_cases; simp add: mem_holder_def After_def)+

interpretation memory: lease_registry mem_Registry "\<lambda>_. True" mem_inv mem_issued mem_limit 1 mem_holder
proof (unfold_locales, goal_cases)
  case (1 r e s p d res r')
  then show ?case by (simp add: mem_Claim_inv)
next
  case (2 r e s p d l r')
  from 2(4) show ?case unfolding mem_Registry_simps
    by (cases rule: mem_Claim_cases) (simp_all add: generation_succ [OF 2(3)])
next
  case (3 r e s p d l r')
  from 3(4) show ?case unfolding mem_Registry_simps by (cases rule: mem_Claim_cases) simp_all
next
  case (4 r e d s p l r')
  from 4(5) show ?case unfolding mem_Registry_simps
    by (cases rule: mem_Claim_cases) (simp_all add: mem_holder_def After_def)
next
  case (5 r e s p d res r' s' h)
  from 5(4) show ?case unfolding mem_Registry_simps
    by (cases rule: mem_Claim_cases) (use 5(5) in \<open>auto simp: mem_holder_def\<close>)
next
  case (6 r e l d res r')
  then show ?case by (simp add: mem_Renew_inv)
next
  case (7 r e l d l' r')
  then show ?case by (simp add: mem_Renew_same)
next
  case (8 r e l d l' r')
  then show ?case by (simp add: mem_Renew_holder)
next
  case (9 r e d l l' r')
  then show ?case by (simp add: mem_Renew_holder)
next
  case (10 r e l err r')
  then show ?case
    by (auto simp: mem_Release_def mem_inv_def split: option.splits if_splits)
next
  case (11 r e l r')
  then show ?case
    by (auto simp: mem_Release_def mem_holder_def split: option.splits if_splits)
next
  case (12 r e l err r' s h)
  then show ?case
    by (auto simp: mem_Release_def mem_holder_def split: option.splits if_splits)
next
  case (13 r e s res r')
  then show ?case
    by (auto simp: mem_Lookup_def mem_inv_def Let_def split: option.splits if_splits)
next
  case (14 r e s l r')
  then show ?case
    by (auto simp: mem_Lookup_def mem_inv_def mem_holder_def Let_def split: option.splits if_splits)
qed

section \<open>Properties\<close>

text \<open>
  A stale renewal evicts the current holder. When a station is held by one runtime, a renewal
  with another owner's or an older generation's lease reports \<open>ErrLeaseLost\<close> and deletes the
  current lease, so the next claim by anybody is granted although the holder never released it.
\<close>

theorem mem_stale_renew_evicts:
  assumes "mem_holder env r (lease_StationIdentity l) = Some h" and "h \<noteq> (lease_OwnerID l, lease_Generation l)"
    and "menv_ctx env = None" and "lease_StationIdentity l \<noteq> ''''" and "lease_OwnerID l \<noteq> ''''" and "0 < d"
    and "p \<noteq> ''''"
  shows "\<exists>r'. mem_Renew env l d r = ((zero_Lease, Some ErrLeaseLost), r') \<and>
    mem_holder env r' (lease_StationIdentity l) = None \<and>
    snd (fst (mem_Claim env (lease_StationIdentity l) p d r')) = None"
  using assms
  by (auto simp: mem_op_defs mem_holder_def Let_def split: option.splits if_splits)

definition demo_held :: Memory where
  "demo_held = \<lparr>mem_generation = 2, mem_leases = [''cp1'' \<mapsto> \<lparr>lease_StationIdentity = ''cp1'',
     lease_OwnerID = ''pod-b'', lease_Generation = 2, lease_ExpiresAt = 100\<rparr>]\<rparr>"

theorem mem_stale_renew_evicts_witness:
  "\<exists>r'. mem_Renew \<lparr>menv_ctx = None, menv_now = 10\<rparr> \<lparr>lease_StationIdentity = ''cp1'', lease_OwnerID = ''pod-a'',
       lease_Generation = 1, lease_ExpiresAt = 5\<rparr> 60 demo_held = ((zero_Lease, Some ErrLeaseLost), r') \<and>
     mem_holder \<lparr>menv_ctx = None, menv_now = 10\<rparr> r' ''cp1'' = None"
  using mem_stale_renew_evicts [of "\<lparr>menv_ctx = None, menv_now = 10\<rparr>" demo_held
      "\<lparr>lease_StationIdentity = ''cp1'', lease_OwnerID = ''pod-a'', lease_Generation = 1, lease_ExpiresAt = 5\<rparr>"
      "(''pod-b'', 2)" 60 "''pod-a''"]
  by (auto simp: demo_held_def mem_holder_def After_def)

text \<open>
  C19: The life of a lease. A claim of a station without live lease is granted with the next
  generation; a lookup then finds it; until it expires every other claim fails with
  \<open>ErrOwnershipConflict\<close>; a renewal before the expiry extends it; its release frees the station.
\<close>

theorem mem_lease_life:
  assumes "mem_inv r" and "mem_issued r < mem_limit"
    and "menv_ctx e = None" and "menv_ctx e' = None" and "menv_now e \<le> menv_now e'" and "menv_now e' < menv_now e + d"
    and "mem_holder e r s = None" and "s \<noteq> ''''" and "p \<noteq> ''''" and "q \<noteq> ''''"
    and "mem_Claim e s p d r = ((l, err), r1)"
  shows "err = None \<and> lease_OwnerID l = p \<and> unat (lease_Generation l) = Suc (mem_issued r) \<and>
    mem_Lookup e' s r1 = ((l, None), r1) \<and>
    mem_Claim e' s q d r1 = ((l, Some (conflict_error p (lease_Generation l))), r1) \<and>
    (case mem_Renew e' l d r1 of ((l', err'), r2) \<Rightarrow>
       err' = None \<and> lease_ExpiresAt l' = menv_now e' + d \<and> lease_Generation l' = lease_Generation l \<and>
       fst (mem_Release e' l' r2) = None \<and>
       snd (fst (mem_Lookup e' s (snd (mem_Release e' l' r2)))) = Some ErrNotFound)"
proof -
  have d: "0 < d" using assms(5,6) by simp
  let ?l = "\<lparr>lease_StationIdentity = s, lease_OwnerID = p, lease_Generation = mem_generation r + 1,
      lease_ExpiresAt = menv_now e + d\<rparr>"
  have eq: "l = ?l" "err = None"
    and r1: "r1 = r\<lparr>mem_generation := mem_generation r + 1, mem_leases := (mem_leases r)(s \<mapsto> ?l)\<rparr>"
    using assms(3,7-11) d
    by (auto simp: mem_Claim_def validate_def mem_holder_def Let_def split: option.splits if_splits)
  show ?thesis
    using assms(2,4-6,8-10) d
    by (simp add: eq r1 mem_op_defs Let_def After_def generation_succ)
qed

theorem mem_lease_life_witness:
  "\<exists>l r1. mem_Claim \<lparr>menv_ctx = None, menv_now = 0\<rparr> ''cp1'' ''pod-a'' 60 NewMemory = ((l, None), r1) \<and>
     mem_Claim \<lparr>menv_ctx = None, menv_now = 10\<rparr> ''cp1'' ''pod-b'' 60 r1 =
       ((l, Some (conflict_error ''pod-a'' (lease_Generation l))), r1)"
proof -
  obtain l err r1 where c: "mem_Claim \<lparr>menv_ctx = None, menv_now = 0\<rparr> ''cp1'' ''pod-a'' 60 NewMemory = ((l, err), r1)"
    by (metis prod.exhaust)
  show ?thesis
    using mem_lease_life [OF NewMemory_inv _ _ _ _ _ _ _ _ _ c,
        of "\<lparr>menv_ctx = None, menv_now = 10\<rparr>" "''pod-b''"] c
    by (simp add: NewMemory_def mem_limit_def mem_holder_def)
qed

end
