(* ===== verification/Ownership.thy ===== *)
theory Ownership
  imports Redis_Registry Memory_Registry
begin

text \<open>
  The ownership manager of a runtime (internal/runtime/ownership.go) and the cluster of runtimes
  that share one registry. Entries are objects on a heap, since the entry map and the renewal
  goroutine of a session share them. The handlers are cut where other goroutines can run in
  between: \<open>onConnect\<close> after the claim, \<open>onDisconnect\<close> before the release. The cluster is a step
  relation over these pieces; whatever the scheduling, a generation is held by one entry of one
  runtime at most, which is what fences commands.
\<close>

section \<open>The manager\<close>

text \<open>What the code uses of a \<open>csms.Session\<close>: its identity, and that it can be closed.\<close>

record session =
  sess_id :: nat
  sess_Identity :: string

record ownershipEntry =
  oe_lease :: Lease
  oe_cancelled :: bool

text \<open>
  \<open>om_claimed\<close> holds the leases that \<open>onConnect\<close> has obtained and not yet filed, \<open>om_renewing\<close> the
  running renewal goroutines by entry address, \<open>om_closed\<close> the sessions \<open>Close\<close> was called on.
\<close>

record ownershipManager =
  om_ownerID :: string
  om_ttl :: duration
  om_renewInterval :: duration
  om_entries :: "string \<rightharpoonup> nat"
  om_heap :: "nat \<rightharpoonup> ownershipEntry"
  om_next :: nat
  om_claimed :: "nat \<rightharpoonup> session \<times> Lease"
  om_renewing :: "nat \<rightharpoonup> session"
  om_closed :: "nat list"

definition newOwnershipManager :: "string \<Rightarrow> duration \<Rightarrow> duration \<Rightarrow> ownershipManager" where
  "newOwnershipManager ownerID ttl renewInterval =
     \<lparr>om_ownerID = ownerID, om_ttl = ttl, om_renewInterval = renewInterval, om_entries = Map.empty,
      om_heap = Map.empty, om_next = 0, om_claimed = Map.empty, om_renewing = Map.empty, om_closed = []\<rparr>"

text \<open>
  \<open>onConnect\<close>: the claim, and on success filing the entry and starting the renewal goroutine. The
  first part returns the address under which the second part files the entry.
\<close>

definition onConnect_claim ::
  "('e, 'r) Registry \<Rightarrow> 'e \<Rightarrow> session \<Rightarrow> ownershipManager \<times> 'r \<Rightarrow> nat option \<times> ownershipManager \<times> 'r" where
  "onConnect_claim R env s mr =
     (case mr of (m, r) \<Rightarrow>
      case reg_Claim R env (sess_Identity s) (om_ownerID m) (om_ttl m) r of
        ((lease, Some err), r') \<Rightarrow> (None, m\<lparr>om_closed := sess_id s # om_closed m\<rparr>, r')
      | ((lease, None), r') \<Rightarrow>
          (Some (om_next m),
           m\<lparr>om_next := Suc (om_next m), om_claimed := (om_claimed m)(om_next m \<mapsto> (s, lease))\<rparr>, r'))"

definition onConnect_file :: "nat \<Rightarrow> ownershipManager \<Rightarrow> ownershipManager" where
  "onConnect_file a m =
     (case om_claimed m a of
        None \<Rightarrow> m
      | Some (s, lease) \<Rightarrow>
          m\<lparr>om_claimed := (om_claimed m)(a := None),
            om_heap := (om_heap m)(a \<mapsto> \<lparr>oe_lease = lease, oe_cancelled = False\<rparr>),
            om_entries := (om_entries m)(sess_Identity s \<mapsto> a),
            om_renewing := (om_renewing m)(a \<mapsto> s)\<rparr>)"

definition onConnect ::
  "('e, 'r) Registry \<Rightarrow> 'e \<Rightarrow> session \<Rightarrow> ownershipManager \<times> 'r \<Rightarrow> ownershipManager \<times> 'r" where
  "onConnect R env s mr =
     (case onConnect_claim R env s mr of
        (None, m, r) \<Rightarrow> (m, r)
      | (Some a, m, r) \<Rightarrow> (onConnect_file a m, r))"

text \<open>
  One turn of the goroutine \<open>renew\<close>: either its context is done and it ends, or the ticker fired
  and it renews under the entry's lock, closing the session and ending when that fails. With both
  ready Go picks one, so a tick may be taken after the cancellation too.
\<close>

definition renew_done :: "nat \<Rightarrow> ownershipManager \<Rightarrow> ownershipManager" where
  "renew_done a m = m\<lparr>om_renewing := (om_renewing m)(a := None)\<rparr>"

definition renew_tick ::
  "('e, 'r) Registry \<Rightarrow> 'e \<Rightarrow> nat \<Rightarrow> ownershipManager \<times> 'r \<Rightarrow> ownershipManager \<times> 'r" where
  "renew_tick R env a mr =
     (case mr of (m, r) \<Rightarrow>
      case (om_renewing m a, om_heap m a) of
        (Some s, Some entry) \<Rightarrow>
          (case reg_Renew R env (oe_lease entry) (om_ttl m) r of
             ((renewed, None), r') \<Rightarrow> (m\<lparr>om_heap := (om_heap m)(a \<mapsto> entry\<lparr>oe_lease := renewed\<rparr>)\<rparr>, r')
           | ((renewed, Some err), r') \<Rightarrow>
               (m\<lparr>om_closed := sess_id s # om_closed m, om_renewing := (om_renewing m)(a := None)\<rparr>, r'))
      | _ \<Rightarrow> (m, r))"

text \<open>
  \<open>onDisconnect\<close>: detaching the entry filed under the session's identity, cancelling its renewal
  and reading its lease; then releasing that lease.
\<close>

definition onDisconnect_detach :: "session \<Rightarrow> ownershipManager \<Rightarrow> Lease option \<times> ownershipManager" where
  "onDisconnect_detach s m =
     (let m' = m\<lparr>om_entries := (om_entries m)(sess_Identity s := None)\<rparr> in
      case om_entries m (sess_Identity s) of
        None \<Rightarrow> (None, m')
      | Some a \<Rightarrow>
          (case om_heap m a of
             None \<Rightarrow> (None, m')
           | Some entry \<Rightarrow>
               (Some (oe_lease entry), m'\<lparr>om_heap := (om_heap m)(a \<mapsto> entry\<lparr>oe_cancelled := True\<rparr>)\<rparr>)))"

definition onDisconnect ::
  "('e, 'r) Registry \<Rightarrow> 'e \<Rightarrow> session \<Rightarrow> ownershipManager \<times> 'r \<Rightarrow> ownershipManager \<times> 'r" where
  "onDisconnect R env s mr =
     (case mr of (m, r) \<Rightarrow>
      case onDisconnect_detach s m of
        (None, m') \<Rightarrow> (m', r)
      | (Some lease, m') \<Rightarrow> (m', snd (reg_Release R env lease r)))"

definition owns :: "ownershipManager \<Rightarrow> string \<Rightarrow> uint64 \<Rightarrow> bool" where
  "owns m identity generation =
     (case om_entries m identity of
        None \<Rightarrow> False
      | Some a \<Rightarrow>
          (case om_heap m a of
             None \<Rightarrow> False
           | Some entry \<Rightarrow>
               lease_OwnerID (oe_lease entry) = om_ownerID m \<and>
               lease_Generation (oe_lease entry) = generation))"

section \<open>The cluster\<close>

text \<open>
  Runtimes are named by \<open>'p\<close>; they need not have distinct owner IDs. \<open>cl_releasing\<close> are the leases
  that some \<open>onDisconnect\<close> has read and is about to release.
\<close>

record ('p, 'r) cluster =
  cl_registry :: 'r
  cl_pods :: "'p \<Rightarrow> ownershipManager"
  cl_releasing :: "Lease list"

inductive cluster_step ::
  "('e, 'r) Registry \<Rightarrow> ('e \<Rightarrow> bool) \<Rightarrow> ('r \<Rightarrow> bool) \<Rightarrow> ('r \<Rightarrow> nat) \<Rightarrow> nat \<Rightarrow>
   ('p, 'r) cluster \<Rightarrow> ('p, 'r) cluster \<Rightarrow> bool"
  for R env_ok inv issued limit where
  claim: "env_ok e \<Longrightarrow> issued (cl_registry c) < limit \<Longrightarrow>
    onConnect_claim R e s (cl_pods c p, cl_registry c) = (a, m, r) \<Longrightarrow>
    cluster_step R env_ok inv issued limit c (c\<lparr>cl_pods := (cl_pods c)(p := m), cl_registry := r\<rparr>)"
| filed: "cluster_step R env_ok inv issued limit c
    (c\<lparr>cl_pods := (cl_pods c)(p := onConnect_file a (cl_pods c p))\<rparr>)"
| tick: "env_ok e \<Longrightarrow> renew_tick R e a (cl_pods c p, cl_registry c) = (m, r) \<Longrightarrow>
    cluster_step R env_ok inv issued limit c (c\<lparr>cl_pods := (cl_pods c)(p := m), cl_registry := r\<rparr>)"
| stop: "cluster_step R env_ok inv issued limit c
    (c\<lparr>cl_pods := (cl_pods c)(p := renew_done a (cl_pods c p))\<rparr>)"
| detach: "onDisconnect_detach s (cl_pods c p) = (l, m) \<Longrightarrow>
    cluster_step R env_ok inv issued limit c
      (c\<lparr>cl_pods := (cl_pods c)(p := m),
        cl_releasing := (case l of None \<Rightarrow> cl_releasing c | Some x \<Rightarrow> x # cl_releasing c)\<rparr>)"
| release: "env_ok e \<Longrightarrow> l \<in> set (cl_releasing c) \<Longrightarrow> reg_Release R e l (cl_registry c) = (err, r) \<Longrightarrow>
    cluster_step R env_ok inv issued limit c
      (c\<lparr>cl_registry := r, cl_releasing := remove1 l (cl_releasing c)\<rparr>)"
| lookup: "env_ok e \<Longrightarrow> reg_Lookup R e s (cl_registry c) = (res, r) \<Longrightarrow>
    cluster_step R env_ok inv issued limit c (c\<lparr>cl_registry := r\<rparr>)"
| restart: "cluster_step R env_ok inv issued limit c
    (c\<lparr>cl_pods := (cl_pods c)(p := newOwnershipManager ownerID ttl interval)\<rparr>)"
| environment: "inv r \<Longrightarrow> issued (cl_registry c) \<le> issued r \<Longrightarrow>
    cluster_step R env_ok inv issued limit c (c\<lparr>cl_registry := r\<rparr>)"

inductive cluster_reachable ::
  "('e, 'r) Registry \<Rightarrow> ('e \<Rightarrow> bool) \<Rightarrow> ('r \<Rightarrow> bool) \<Rightarrow> ('r \<Rightarrow> nat) \<Rightarrow> nat \<Rightarrow> ('p, 'r) cluster \<Rightarrow> bool"
  for R env_ok inv issued limit where
  start: "inv r \<Longrightarrow> (\<And>p. \<exists>i t n. pods p = newOwnershipManager i t n) \<Longrightarrow>
    cluster_reachable R env_ok inv issued limit \<lparr>cl_registry = r, cl_pods = pods, cl_releasing = []\<rparr>"
| step: "cluster_reachable R env_ok inv issued limit c \<Longrightarrow> cluster_step R env_ok inv issued limit c c' \<Longrightarrow>
    cluster_reachable R env_ok inv issued limit c'"

section \<open>Generations are unique across the cluster\<close>

text \<open>The lease at an address: claimed and not yet filed, or in a filed entry.\<close>

definition lease_at :: "ownershipManager \<Rightarrow> nat \<Rightarrow> Lease option" where
  "lease_at m a =
     (case om_heap m a of
        Some entry \<Rightarrow> Some (oe_lease entry)
      | None \<Rightarrow> map_option snd (om_claimed m a))"

text \<open>What each manager keeps on its own, and what holds between the managers.\<close>

definition manager_inv :: "nat \<Rightarrow> ownershipManager \<Rightarrow> bool" where
  "manager_inv n m \<longleftrightarrow>
     (\<forall>a l. lease_at m a = Some l \<longrightarrow> a < om_next m \<and> lease_OwnerID l = om_ownerID m \<and>
        0 < lease_Generation l \<and> unat (lease_Generation l) \<le> n) \<and>
     (\<forall>a s l. om_claimed m a = Some (s, l) \<longrightarrow> om_heap m a = None \<and> lease_StationIdentity l = sess_Identity s) \<and>
     (\<forall>s a. om_entries m s = Some a \<longrightarrow>
        (\<exists>entry. om_heap m a = Some entry \<and> lease_StationIdentity (oe_lease entry) = s))"

definition unique_generations :: "('p \<Rightarrow> ownershipManager) \<Rightarrow> bool" where
  "unique_generations pods \<longleftrightarrow>
     (\<forall>p q a b l l'. lease_at (pods p) a = Some l \<longrightarrow> lease_at (pods q) b = Some l' \<longrightarrow>
        lease_Generation l = lease_Generation l' \<longrightarrow> p = q \<and> a = b)"

lemma manager_inv_mono: "manager_inv n m \<Longrightarrow> n \<le> n' \<Longrightarrow> manager_inv n' m"
  unfolding manager_inv_def by (meson le_trans)

lemma lease_at_update [simp]:
  "lease_at (m\<lparr>om_closed := c\<rparr>) = lease_at m" "lease_at (m\<lparr>om_renewing := g\<rparr>) = lease_at m"
  by (rule ext, simp add: lease_at_def split: option.split)+

lemma manager_inv_update [simp]:
  "manager_inv n (m\<lparr>om_closed := c\<rparr>) = manager_inv n m"
  "manager_inv n (m\<lparr>om_renewing := g\<rparr>) = manager_inv n m"
  by (simp_all add: manager_inv_def)

lemma manager_inv_new [simp]: "manager_inv n (newOwnershipManager i t d)"
  by (simp add: manager_inv_def newOwnershipManager_def lease_at_def)

lemma lease_at_new [simp]: "lease_at (newOwnershipManager i t d) a = None"
  by (simp add: newOwnershipManager_def lease_at_def)

lemma manager_inv_lease:
  "manager_inv n m \<Longrightarrow> lease_at m a = Some l \<Longrightarrow>
     a < om_next m \<and> lease_OwnerID l = om_ownerID m \<and> 0 < lease_Generation l \<and> unat (lease_Generation l) \<le> n"
  by (simp add: manager_inv_def)

text \<open>An update of one manager that brings no new generation keeps them unique; so does one fresh lease.\<close>

lemma manager_inv_entry:
  assumes "manager_inv n m" and "om_entries m s = Some a"
  obtains entry where "om_heap m a = Some entry" "lease_StationIdentity (oe_lease entry) = s"
  using assms unfolding manager_inv_def by blast

lemma unique_generations_same:
  assumes "unique_generations pods"
    and "\<And>a l'. lease_at m a = Some l' \<Longrightarrow>
      \<exists>l. lease_at (pods p) a = Some l \<and> lease_Generation l = lease_Generation l'"
  shows "unique_generations (pods(p := m))"
  using assms unfolding unique_generations_def fun_upd_def by (smt (verit, best))

lemma unique_generations_fresh:
  assumes u: "unique_generations pods" and inv: "\<And>q. manager_inv n (pods q)"
    and l: "n < unat (lease_Generation l)" and m: "lease_at m = (lease_at (pods p))(a \<mapsto> l)"
  shows "unique_generations (pods(p := m))"
proof -
  have old: "unat (lease_Generation l') \<le> n" if "lease_at (pods q) b = Some l'" for q b l'
    using manager_inv_lease [OF inv that] by simp
  have at: "lease_at ((pods(p := m)) q) b = (if q = p \<and> b = a then Some l else lease_at (pods q) b)" for q b
    by (simp add: m)
  show ?thesis
    unfolding unique_generations_def at
    using u [unfolded unique_generations_def] old l
    by (auto split: if_splits dest: old)
qed

text \<open>The pieces that do not call the registry.\<close>

lemma onConnect_file_lease_at:
  "manager_inv n m \<Longrightarrow> lease_at (onConnect_file a m) = lease_at m"
  by (rule ext) (auto simp: onConnect_file_def lease_at_def manager_inv_def split: option.splits)

lemma onConnect_file_inv:
  assumes "manager_inv n m"
  shows "manager_inv n (onConnect_file a m)"
proof (cases "om_claimed m a")
  case None
  then show ?thesis using assms by (simp add: onConnect_file_def)
next
  case (Some sl)
  obtain s l where sl: "sl = (s, l)" by (cases sl)
  have unfiled: "om_heap m a = None" "lease_StationIdentity l = sess_Identity s"
    using assms Some sl by (auto simp: manager_inv_def)
  then have other: "om_entries m s' \<noteq> Some a" for s'
    using assms by (fastforce simp: manager_inv_def)
  have next_eq: "om_next (onConnect_file a m) = om_next m" "om_ownerID (onConnect_file a m) = om_ownerID m"
    using Some sl by (simp_all add: onConnect_file_def)
  show ?thesis
    using assms unfiled other
    unfolding manager_inv_def next_eq onConnect_file_lease_at [OF assms]
    by (auto simp: onConnect_file_def Some sl split: if_splits)
qed

lemma renew_done_lease_at [simp]: "lease_at (renew_done a m) = lease_at m"
  by (simp add: renew_done_def)

lemma renew_done_inv [simp]: "manager_inv n (renew_done a m) = manager_inv n m"
  by (simp add: renew_done_def)

lemma onDisconnect_detach_lease_at:
  "onDisconnect_detach s m = (l, m') \<Longrightarrow> lease_at m' = lease_at m"
  by (rule ext) (auto simp: onDisconnect_detach_def lease_at_def Let_def split: option.splits if_splits)

lemma onDisconnect_detach_effect:
  assumes "onDisconnect_detach s m = (l, m')"
  shows "om_next m' = om_next m" "om_ownerID m' = om_ownerID m" "om_claimed m' = om_claimed m"
    "om_heap m' a = None \<longleftrightarrow> om_heap m a = None"
    "om_entries m' = (om_entries m)(sess_Identity s := None)"
  using assms by (auto simp: onDisconnect_detach_def Let_def split: option.splits if_splits)

lemma onDisconnect_detach_keeps:
  "onDisconnect_detach s m = (l, m') \<Longrightarrow> om_heap m a = Some entry \<Longrightarrow>
     \<exists>entry'. om_heap m' a = Some entry' \<and> oe_lease entry' = oe_lease entry"
  by (auto simp: onDisconnect_detach_def Let_def split: option.splits)

lemma onDisconnect_detach_inv:
  assumes inv: "manager_inv n m" and d: "onDisconnect_detach s m = (l, m')"
  shows "manager_inv n m'"
proof -
  have "\<exists>entry. om_heap m' a = Some entry \<and> lease_StationIdentity (oe_lease entry) = s'"
    if "om_entries m' s' = Some a" for s' a
  proof -
    from that have "om_entries m s' = Some a"
      by (simp add: onDisconnect_detach_effect [OF d] split: if_splits)
    from manager_inv_entry [OF inv this] obtain entry
      where "om_heap m a = Some entry" "lease_StationIdentity (oe_lease entry) = s'" .
    then show ?thesis using onDisconnect_detach_keeps [OF d] by fastforce
  qed
  with inv show ?thesis
    unfolding manager_inv_def onDisconnect_detach_lease_at [OF d]
    by (simp add: onDisconnect_detach_effect [OF d] del: fun_upd_apply)
qed

section \<open>The invariant of the cluster\<close>

definition cluster_inv :: "('r \<Rightarrow> bool) \<Rightarrow> ('r \<Rightarrow> nat) \<Rightarrow> ('p, 'r) cluster \<Rightarrow> bool" where
  "cluster_inv ok issued c \<longleftrightarrow>
     ok (cl_registry c) \<and> (\<forall>p. manager_inv (issued (cl_registry c)) (cl_pods c p)) \<and>
     unique_generations (cl_pods c)"

lemma cluster_inv_pod:
  assumes "cluster_inv ok issued c" and "ok r" and "issued (cl_registry c) \<le> issued r"
    and "manager_inv (issued r) m" and "unique_generations ((cl_pods c)(p := m))"
  shows "cluster_inv ok issued (c\<lparr>cl_pods := (cl_pods c)(p := m), cl_registry := r\<rparr>)"
  using assms by (auto simp: cluster_inv_def intro: manager_inv_mono)

text \<open>Steps of a manager that keep the lease at every address keep the invariant.\<close>

lemma cluster_inv_same:
  assumes "cluster_inv ok issued c"
    and "manager_inv (issued (cl_registry c)) m" and "\<And>a. lease_at m a = lease_at (cl_pods c p) a \<or> lease_at m a = None"
  shows "cluster_inv ok issued (c\<lparr>cl_pods := (cl_pods c)(p := m)\<rparr>)"
proof -
  have "unique_generations ((cl_pods c)(p := m))"
    using assms by (intro unique_generations_same) (auto simp: cluster_inv_def, metis option.distinct(1))
  then show ?thesis
    using cluster_inv_pod [OF assms(1) _ _ assms(2), of p] assms(1) by (simp add: cluster_inv_def)
qed

lemma cluster_inv_registry:
  "cluster_inv ok issued c \<Longrightarrow> ok r \<Longrightarrow> issued (cl_registry c) \<le> issued r \<Longrightarrow>
     cluster_inv ok issued (c\<lparr>cl_registry := r\<rparr>)"
  by (auto simp: cluster_inv_def intro: manager_inv_mono)

lemma cluster_inv_releasing [simp]:
  "cluster_inv ok issued (c\<lparr>cl_releasing := x\<rparr>) = cluster_inv ok issued c"
  by (simp add: cluster_inv_def)

context lease_registry begin

lemma claim_step:
  assumes c: "cluster_inv inv issued c" and e: "env_ok e" "issued (cl_registry c) < limit"
    and s: "onConnect_claim R e s (cl_pods c p, cl_registry c) = (a, m, r)"
  shows "cluster_inv inv issued (c\<lparr>cl_pods := (cl_pods c)(p := m), cl_registry := r\<rparr>)"
proof -
  let ?m = "cl_pods c p" and ?r = "cl_registry c"
  have I: "inv ?r" "manager_inv (issued ?r) (cl_pods c q)" "unique_generations (cl_pods c)" for q
    using c by (auto simp: cluster_inv_def)
  obtain l err r0 where claim: "reg_Claim R e (sess_Identity s) (om_ownerID ?m) (om_ttl ?m) ?r = ((l, err), r0)"
    by (metis prod.exhaust)
  have r: "r0 = r" using s claim by (auto simp: onConnect_claim_def split: option.splits)
  note keep = claim_inv [OF I(1) e claim [unfolded r]]
  show ?thesis
  proof (cases err)
    case (Some x)
    then have m: "m = ?m\<lparr>om_closed := sess_id s # om_closed ?m\<rparr>"
      using s claim by (simp add: onConnect_claim_def)
    show ?thesis
      unfolding m using keep I
      by (intro cluster_inv_pod [OF c]) (auto intro: manager_inv_mono unique_generations_same)
  next
    case None
    let ?n = "om_next ?m"
    have m: "m = ?m\<lparr>om_next := Suc ?n, om_claimed := (om_claimed ?m)(?n \<mapsto> (s, l))\<rparr>"
      using s claim None by (simp add: onConnect_claim_def)
    note fresh = claim_fresh [OF I(1) e claim [unfolded r None]]
    have unused: "lease_at ?m ?n = None" using manager_inv_lease [OF I(2) [of p], of ?n] by fastforce
    have at: "lease_at m = (lease_at ?m)(?n \<mapsto> l)"
      using unused by (intro ext) (auto simp: m lease_at_def split: option.splits)
    have pos: "0 < lease_Generation l" using fresh by (simp add: word_gt_0) (metis nat.distinct(1) unat_0)
    have "om_heap ?m ?n = None" using unused by (simp add: lease_at_def split: option.splits)
    then have "manager_inv (issued r) m"
      unfolding manager_inv_def at
      using manager_inv_mono [OF I(2) [of p], of "issued r"] fresh pos
      by (auto simp: m manager_inv_def less_Suc_eq)
    moreover have "unique_generations ((cl_pods c)(p := m))"
      using fresh by (intro unique_generations_fresh [OF I(3) I(2) _ at]) simp
    ultimately show ?thesis using keep by (intro cluster_inv_pod [OF c]) auto
  qed
qed

lemma tick_step:
  assumes c: "cluster_inv inv issued c" and e: "env_ok e"
    and s: "renew_tick R e a (cl_pods c p, cl_registry c) = (m, r)"
  shows "cluster_inv inv issued (c\<lparr>cl_pods := (cl_pods c)(p := m), cl_registry := r\<rparr>)"
proof -
  let ?m = "cl_pods c p" and ?r = "cl_registry c"
  have I: "inv ?r" "manager_inv (issued ?r) ?m" "unique_generations (cl_pods c)"
    using c by (auto simp: cluster_inv_def)
  show ?thesis
  proof (cases "om_renewing ?m a = None \<or> om_heap ?m a = None")
    case True
    then have "m = ?m" "r = ?r" using s by (auto simp: renew_tick_def split: option.splits)
    then show ?thesis using c by simp
  next
    case False
    then obtain sess entry where here: "om_renewing ?m a = Some sess" "om_heap ?m a = Some entry" by auto
    obtain l err r0 where renew: "reg_Renew R e (oe_lease entry) (om_ttl ?m) ?r = ((l, err), r0)"
      by (metis prod.exhaust)
    have r: "r0 = r" using s renew here by (auto simp: renew_tick_def split: option.splits)
    note keep = renew_inv [OF I(1) e renew [unfolded r]]
    show ?thesis
    proof (cases err)
      case (Some x)
      then have m: "m = ?m\<lparr>om_closed := sess_id sess # om_closed ?m,
          om_renewing := (om_renewing ?m)(a := None)\<rparr>"
        using s renew here by (simp add: renew_tick_def)
      show ?thesis
        unfolding m using keep I
        by (intro cluster_inv_pod [OF c]) (auto intro: unique_generations_same)
    next
      case None
      then have m: "m = ?m\<lparr>om_heap := (om_heap ?m)(a \<mapsto> entry\<lparr>oe_lease := l\<rparr>)\<rparr>"
        using s renew here by (simp add: renew_tick_def)
      note same = renew_same [OF I(1) e renew [unfolded r None]]
      have at: "lease_at m = (lease_at ?m)(a \<mapsto> l)" and was: "lease_at ?m a = Some (oe_lease entry)"
        using here by (auto simp: m lease_at_def split: option.splits)
      have "lease_StationIdentity (oe_lease entry) = s'" if "om_entries ?m s' = Some a" for s'
        using manager_inv_entry [OF I(2) that] here(2) by auto
      then have "manager_inv (issued r) m"
        unfolding manager_inv_def at using I(2) here was same keep
        by (auto simp: m manager_inv_def)
      moreover have "unique_generations ((cl_pods c)(p := m))"
        using same was at by (intro unique_generations_same [OF I(3)]) (auto split: if_splits)
      ultimately show ?thesis using keep by (intro cluster_inv_pod [OF c]) auto
    qed
  qed
qed

lemma cluster_step_inv:
  assumes step: "cluster_step R env_ok inv issued limit c c'" and c: "cluster_inv inv issued c"
  shows "cluster_inv inv issued c'"
  using step
proof cases
  case (claim e s p a m r)
  then show ?thesis using claim_step [OF c] by blast
next
  case (filed p a)
  have "manager_inv (issued (cl_registry c)) (cl_pods c p)" using c by (simp add: cluster_inv_def)
  then show ?thesis
    unfolding filed by (intro cluster_inv_same [OF c]) (simp_all add: onConnect_file_inv onConnect_file_lease_at)
next
  case (tick e a p m r)
  then show ?thesis using tick_step [OF c] by blast
next
  case (stop p a)
  have "manager_inv (issued (cl_registry c)) (cl_pods c p)" using c by (simp add: cluster_inv_def)
  then show ?thesis unfolding stop by (intro cluster_inv_same [OF c]) simp_all
next
  case (detach s p l m)
  have "manager_inv (issued (cl_registry c)) (cl_pods c p)" using c by (simp add: cluster_inv_def)
  then have "cluster_inv inv issued (c\<lparr>cl_pods := (cl_pods c)(p := m)\<rparr>)"
    using onDisconnect_detach_inv detach(2) onDisconnect_detach_lease_at
    by (intro cluster_inv_same [OF c]) auto
  then show ?thesis unfolding detach(1) by (simp add: cluster_inv_def)
next
  case (release e l err r)
  have "inv r \<and> issued r = issued (cl_registry c)"
    using release_inv [OF _ release(2,4)] c by (simp add: cluster_inv_def)
  then show ?thesis using cluster_inv_registry [OF c, of r] by (simp add: release(1) cluster_inv_def)
next
  case (lookup e s res r)
  have "inv r \<and> issued (cl_registry c) \<le> issued r"
    using lookup_inv [OF _ lookup(2,3)] c by (simp add: cluster_inv_def)
  then show ?thesis using cluster_inv_registry [OF c, of r] lookup(1) by simp
next
  case (restart p ownerID ttl interval)
  have "manager_inv (issued (cl_registry c)) (cl_pods c p)" using c by (simp add: cluster_inv_def)
  then show ?thesis unfolding restart by (intro cluster_inv_same [OF c]) simp_all
next
  case (environment r)
  then show ?thesis using cluster_inv_registry [OF c] by simp
qed

lemma cluster_reachable_inv:
  "cluster_reachable R env_ok inv issued limit c \<Longrightarrow> cluster_inv inv issued c"
proof (induction rule: cluster_reachable.induct)
  case (start r pods)
  have "lease_at (pods p) a = None" "manager_inv n (pods p)" for p a n
    using start(2) [of p] by auto
  then show ?case using start(1) by (simp add: cluster_inv_def unique_generations_def)
next
  case (step c c')
  then show ?case using cluster_step_inv by blast
qed

lemma owns_unique:
  assumes "cluster_reachable R env_ok inv issued limit c"
    and p: "owns (cl_pods c p) s g" and q: "owns (cl_pods c q) s' g"
  shows "p = q \<and> s = s'"
proof -
  have I: "manager_inv (issued (cl_registry c)) (cl_pods c x)" "unique_generations (cl_pods c)" for x
    using cluster_reachable_inv [OF assms(1)] by (auto simp: cluster_inv_def)
  obtain a en where a: "om_entries (cl_pods c p) s = Some a" "om_heap (cl_pods c p) a = Some en"
      "lease_Generation (oe_lease en) = g" "lease_at (cl_pods c p) a = Some (oe_lease en)"
    using p by (auto simp: owns_def lease_at_def split: option.splits)
  obtain b en' where b: "om_entries (cl_pods c q) s' = Some b" "om_heap (cl_pods c q) b = Some en'"
      "lease_Generation (oe_lease en') = g" "lease_at (cl_pods c q) b = Some (oe_lease en')"
    using q by (auto simp: owns_def lease_at_def split: option.splits)
  have eq: "p = q \<and> a = b" using I(2) a(3,4) b(3,4) unfolding unique_generations_def by blast
  have "lease_StationIdentity (oe_lease en) = s" "lease_StationIdentity (oe_lease en') = s'"
    using manager_inv_entry [OF I(1) a(1)] a(2) manager_inv_entry [OF I(1) b(1)] b(2) by auto
  then show ?thesis using a(2) b(2) eq by auto
qed

text \<open>One session's handlers, run without interference.\<close>

lemma connect_owns:
  assumes "inv r" "env_ok e" "issued r < limit" "min_ttl \<le> om_ttl m"
    and claim: "reg_Claim R e (sess_Identity s) (om_ownerID m) (om_ttl m) r = ((l, None), r')"
  shows "owns (fst (onConnect R e s (m, r))) (sess_Identity s) (lease_Generation l) \<and>
    holder e (snd (onConnect R e s (m, r))) (sess_Identity s) = Some (om_ownerID m, lease_Generation l) \<and>
    unat (lease_Generation l) = Suc (issued r)"
  using claim claim_fresh [OF assms(1-3) claim] claim_holds [OF assms(1-4) claim]
  by (simp add: onConnect_def onConnect_claim_def onConnect_file_def owns_def)

lemma refused_connect:
  assumes "reg_Claim R e (sess_Identity s) (om_ownerID m) (om_ttl m) r = ((l, Some err), r')"
  shows "onConnect R e s (m, r) = (m\<lparr>om_closed := sess_id s # om_closed m\<rparr>, r')"
  using assms by (simp add: onConnect_def onConnect_claim_def)

lemma disconnect_forgets:
  assumes "inv r" "env_ok e" and d: "onDisconnect R e s (m, r) = (m', r')"
  shows "\<not> owns m' (sess_Identity s) g \<and> inv r' \<and> issued r' = issued r"
proof (cases "onDisconnect_detach s m")
  case (Pair l m0)
  have "m' = m0" using d Pair by (auto simp: onDisconnect_def split: option.splits)
  moreover have "\<not> owns m0 (sess_Identity s) g"
    by (simp add: owns_def onDisconnect_detach_effect [OF Pair])
  moreover have "inv r' \<and> issued r' = issued r"
  proof (cases l)
    case None
    then show ?thesis using d Pair assms(1) by (simp add: onDisconnect_def)
  next
    case (Some x)
    then have "reg_Release R e x r = (fst (reg_Release R e x r), r')"
      using d Pair by (simp add: onDisconnect_def prod_eq_iff)
    then show ?thesis by (rule release_inv [OF assms(1,2)])
  qed
  ultimately show ?thesis by simp
qed

lemma disconnect_keeps_others:
  assumes "inv r" "env_ok e" and m: "manager_inv n m" and d: "onDisconnect R e s (m, r) = (m', r')"
    and h: "holder e r s' = Some h" and other: "s' \<noteq> sess_Identity s \<or> \<not> owns m s' (snd h)"
  shows "holder e r' s' = Some h"
proof (cases "om_entries m (sess_Identity s)")
  case None
  then show ?thesis using d h by (simp add: onDisconnect_def onDisconnect_detach_def Let_def)
next
  case (Some a)
  from manager_inv_entry [OF m Some] obtain entry where
    en: "om_heap m a = Some entry" "lease_StationIdentity (oe_lease entry) = sess_Identity s" .
  have "lease_OwnerID (oe_lease entry) = om_ownerID m"
    using manager_inv_lease [OF m, of a "oe_lease entry"] en by (simp add: lease_at_def)
  then have foreign: "s' \<noteq> lease_StationIdentity (oe_lease entry) \<or>
      h \<noteq> (lease_OwnerID (oe_lease entry), lease_Generation (oe_lease entry))"
    using other en Some by (auto simp: owns_def)
  have "reg_Release R e (oe_lease entry) r = (fst (reg_Release R e (oe_lease entry) r), r')"
    using d Some en by (simp add: onDisconnect_def onDisconnect_detach_def Let_def prod_eq_iff)
  from release_foreign [OF assms(1,2) this h foreign] show ?thesis .
qed

end

section \<open>Properties\<close>

text \<open>
  C1: Fencing. Over any Redis service with the documented behaviour, in every state that a
  cluster of runtimes can reach by any interleaving of connects, renewals, disconnects, lookups,
  restarts, lost requests and lost replies, a generation is owned by one runtime at most, and for
  one station only.
\<close>

theorem fencing_unique_owner:
  assumes "redis_service exec view"
    and "cluster_reachable (redis_Registry exec prefix) (registry_env_ok view prefix)
      (\<lambda>r. registry_inv prefix (view r)) (\<lambda>r. counter prefix (view r)) (2 ^ 53) c"
    and "owns (cl_pods c p) s g" and "owns (cl_pods c q) s' g"
  shows "p = q \<and> s = s'"
  by (rule lease_registry.owns_unique [OF redis_lease_registry [OF assms(1)] assms(2-4)])

text \<open>A cluster of runtimes over the empty store in which runtime 0 has connected station \<open>cp1\<close>.\<close>

definition demo_pods :: "nat \<Rightarrow> ownershipManager" where
  "demo_pods p = newOwnershipManager (if p = 0 then ''pod-a'' else ''pod-b'') (2 * minute) (30 * second)"

definition demo_session :: session where
  "demo_session = \<lparr>sess_id = 1, sess_Identity = ''cp1''\<rparr>"

definition demo_claim :: "nat option \<times> ownershipManager \<times> store" where
  "demo_claim = onConnect_claim (redis_Registry st_exec ''csms'') demo_env demo_session (demo_pods 0, demo_store)"

definition demo_cluster :: "(nat, store) cluster" where
  "demo_cluster = \<lparr>cl_registry = snd (snd demo_claim),
     cl_pods = demo_pods(0 := onConnect_file 0 (fst (snd demo_claim))), cl_releasing = []\<rparr>"

lemma demo_claim_result:
  "fst demo_claim = Some 0 \<and>
   om_claimed (fst (snd demo_claim)) 0 = Some (demo_session, \<lparr>lease_StationIdentity = ''cp1'', lease_OwnerID = ''pod-a'',
     lease_Generation = 1, lease_ExpiresAt = 2 * minute\<rparr>) \<and> om_ownerID (fst (snd demo_claim)) = ''pod-a''"
proof -
  have "redis_Claim kv_exec ''csms'' (kv_env demo_env) ''cp1'' ''pod-a'' (2 * minute) (st_view demo_store) =
    ((\<lparr>lease_StationIdentity = ''cp1'', lease_OwnerID = ''pod-a'', lease_Generation = 1,
       lease_ExpiresAt = 2 * minute\<rparr>, None), granted_kv ''csms'' ''cp1'' ''pod-a'' 120000 Map.empty)"
    using kv_Claim_free [of "''csms''" Map.empty "''cp1''" "''pod-a''" "2 * minute" "kv_env demo_env"]
    by (simp add: Milliseconds_def go_div_nonneg)
  with redis_Claim_kv [OF store.redis_service_axioms prod.collapse [symmetric],
      of "''csms''" demo_env "''cp1''" "''pod-a''" "2 * minute" demo_store]
  obtain r' where "redis_Claim st_exec ''csms'' demo_env ''cp1'' ''pod-a'' (2 * minute) demo_store =
      ((\<lparr>lease_StationIdentity = ''cp1'', lease_OwnerID = ''pod-a'', lease_Generation = 1,
       lease_ExpiresAt = 2 * minute\<rparr>, None), r')"
    by (simp add: prod_eq_iff)
  then show ?thesis
    by (simp add: demo_claim_def onConnect_claim_def demo_session_def demo_pods_def newOwnershipManager_def)
qed

lemma demo_cluster_reachable:
  "cluster_reachable (redis_Registry st_exec ''csms'') (registry_env_ok st_view ''csms'')
     (\<lambda>r. registry_inv ''csms'' (st_view r)) (\<lambda>r. counter ''csms'' (st_view r)) (2 ^ 53) demo_cluster"
  (is "?reach demo_cluster")
proof -
  let ?c0 = "\<lparr>cl_registry = demo_store, cl_pods = demo_pods, cl_releasing = []\<rparr>"
  let ?c1 = "?c0\<lparr>cl_pods := (cl_pods ?c0)(0 := fst (snd demo_claim)), cl_registry := snd (snd demo_claim)\<rparr>"
  have "?reach ?c0"
    by (rule cluster_reachable.start) (auto simp: demo_pods_def)
  then have "?reach ?c1"
    by (rule cluster_reachable.step)
      (rule cluster_step.claim [where e = demo_env and s = demo_session and a = "fst demo_claim"],
        simp_all add: demo_claim_def)
  then have "?reach (?c1\<lparr>cl_pods := (cl_pods ?c1)(0 := onConnect_file 0 (cl_pods ?c1 0))\<rparr>)"
    by (rule cluster_reachable.step) (rule cluster_step.filed)
  then show ?thesis by (simp add: demo_cluster_def)
qed

lemma demo_cluster_owns: "owns (cl_pods demo_cluster 0) ''cp1'' 1"
  using demo_claim_result by (simp add: demo_cluster_def onConnect_file_def owns_def demo_session_def)

theorem fencing_unique_owner_witness:
  "owns (cl_pods demo_cluster 0) ''cp1'' 1 \<and> {p. owns (cl_pods demo_cluster p) ''cp1'' 1} = {0}"
proof -
  have "p = 0" if "owns (cl_pods demo_cluster p) ''cp1'' 1" for p
    using fencing_unique_owner [OF store.redis_service_axioms demo_cluster_reachable that demo_cluster_owns] ..
  then show ?thesis using demo_cluster_owns by blast
qed

text \<open>
  C16: A connect whose claim is granted makes the runtime own the station under a generation
  larger than all before it, and the registry agrees on owner and generation.
\<close>

theorem connect_owns_station:
  assumes "redis_service exec view" and "registry_inv prefix (view r)" and "registry_env_ok view prefix e"
    and "counter prefix (view r) < 2 ^ 53" and "millisecond \<le> om_ttl m"
    and "redis_Claim exec prefix e (sess_Identity s) (om_ownerID m) (om_ttl m) r = ((l, None), r')"
    and "onConnect (redis_Registry exec prefix) e s (m, r) = (m', r'')"
  shows "owns m' (sess_Identity s) (lease_Generation l) \<and>
    kv_holder prefix (view r'') (sess_Identity s) = Some (om_ownerID m, lease_Generation l) \<and>
    unat (lease_Generation l) = Suc (counter prefix (view r))"
  using lease_registry.connect_owns [OF redis_lease_registry [OF assms(1)] assms(2-5), of s l r'] assms(6,7)
  by simp

text \<open>
  C17: After a disconnect the runtime owns the station under no generation, and the leases of all
  other stations, and any lease on this one that the runtime does not own, are still held.
\<close>

theorem disconnect_releases_only_own:
  assumes "redis_service exec view" and "registry_inv prefix (view r)" and "registry_env_ok view prefix e"
    and "manager_inv n m" and "onDisconnect (redis_Registry exec prefix) e s (m, r) = (m', r')"
  shows "\<not> owns m' (sess_Identity s) g \<and>
    (kv_holder prefix (view r) s' = Some h \<longrightarrow> s' \<noteq> sess_Identity s \<or> \<not> owns m s' (snd h) \<longrightarrow>
     kv_holder prefix (view r') s' = Some h)"
  using lease_registry.disconnect_forgets [OF redis_lease_registry [OF assms(1)] assms(2,3,5), of g]
    lease_registry.disconnect_keeps_others [OF redis_lease_registry [OF assms(1)] assms(2-5), of s' h]
  by simp

lemma demo_cluster_inv:
  "registry_inv ''csms'' (st_view (cl_registry demo_cluster)) \<and>
   manager_inv (counter ''csms'' (st_view (cl_registry demo_cluster))) (cl_pods demo_cluster 0)"
  using lease_registry.cluster_reachable_inv
    [OF redis_lease_registry [OF store.redis_service_axioms] demo_cluster_reachable]
  by (simp add: cluster_inv_def)

theorem connect_owns_station_witness:
  "owns (fst (onConnect (redis_Registry st_exec ''csms'') demo_env demo_session (demo_pods 0, demo_store))) ''cp1'' 1"
proof -
  let ?x = "redis_Claim st_exec ''csms'' demo_env ''cp1'' ''pod-a'' (2 * minute) demo_store"
  obtain l r' where x: "?x = ((l, None), r')" "lease_Generation l = 1"
    using demo_claim_result
    by (auto simp: demo_claim_def onConnect_claim_def demo_session_def demo_pods_def newOwnershipManager_def
        split: prod.splits option.splits)
  have "sess_Identity demo_session = ''cp1''" "om_ownerID (demo_pods 0) = ''pod-a''" "om_ttl (demo_pods 0) = 2 * minute"
    by (simp_all add: demo_session_def demo_pods_def newOwnershipManager_def)
  then show ?thesis
    using connect_owns_station [OF store.redis_service_axioms _ _ _ _ _ prod.collapse [symmetric],
        of "''csms''" demo_store demo_env "demo_pods 0" demo_session l r'] x
    by simp
qed

theorem disconnect_releases_only_own_witness:
  "owns (cl_pods demo_cluster 0) ''cp1'' 1 \<and>
   \<not> owns (fst (onDisconnect (redis_Registry st_exec ''csms'') demo_env demo_session
       (cl_pods demo_cluster 0, cl_registry demo_cluster))) ''cp1'' 1"
  using demo_cluster_owns
    disconnect_releases_only_own [OF store.redis_service_axioms conjunct1 [OF demo_cluster_inv] _
      conjunct2 [OF demo_cluster_inv] prod.collapse [symmetric], of demo_env demo_session 1]
  by (simp add: demo_session_def)

text \<open>
  C18: A second session of a station on the same runtime is refused and closed; the disconnect
  callback of that refused session then detaches the first session's entry, cancels its renewals
  and releases its lease, although the first session is still open.
\<close>

theorem refused_session_evicts_owner:
  assumes "sess_Identity s2 = sess_Identity s1" and "sess_id s2 \<noteq> sess_id s1" and "sess_Identity s1 \<noteq> ''''"
    and "ownerID \<noteq> ''''" and "0 < ttl" and "menv_ctx e = None" and "mem_holder e r (sess_Identity s1) = None"
    and "onConnect mem_Registry e s1 (newOwnershipManager ownerID ttl interval, r) = (m1, r1)"
    and "onConnect mem_Registry e s2 (m1, r1) = (m2, r2)"
    and "onDisconnect mem_Registry e s2 (m2, r2) = (m3, r3)"
  shows "om_closed m2 = [sess_id s2] \<and> om_closed m3 = [sess_id s2] \<and>
    owns m2 (sess_Identity s1) (mem_generation r + 1) \<and>
    mem_holder e r2 (sess_Identity s1) = Some (ownerID, mem_generation r + 1) \<and>
    \<not> owns m3 (sess_Identity s1) g \<and> mem_holder e r3 (sess_Identity s1) = None \<and>
    map_option oe_cancelled (om_heap m3 0) = Some True"
proof -
  let ?id = "sess_Identity s1" and ?g = "mem_generation r + 1" and ?m = "newOwnershipManager ownerID ttl interval"
  let ?l = "\<lparr>lease_StationIdentity = ?id, lease_OwnerID = ownerID, lease_Generation = ?g,
      lease_ExpiresAt = menv_now e + ttl\<rparr>"
  let ?r1 = "r\<lparr>mem_generation := ?g, mem_leases := (mem_leases r)(?id \<mapsto> ?l)\<rparr>"
  have "mem_Claim e ?id ownerID ttl r = ((?l, None), ?r1)"
    using assms(3-7) by (auto simp: mem_Claim_def validate_def mem_holder_def Let_def split: option.splits if_splits)
  then have m1: "m1 = onConnect_file 0 (?m\<lparr>om_next := 1, om_claimed := [0 \<mapsto> (s1, ?l)]\<rparr>)" and r1: "r1 = ?r1"
    using assms(8) by (simp_all add: onConnect_def onConnect_claim_def newOwnershipManager_def)
  have own: "om_ownerID m1 = ownerID" "om_ttl m1 = ttl" "om_closed m1 = []"
    by (simp_all add: m1 onConnect_file_def newOwnershipManager_def)
  have "mem_Claim e ?id ownerID ttl r1 = ((?l, Some (conflict_error ownerID ?g)), r1)"
    using assms(3-6) by (simp add: r1 mem_Claim_def validate_def Let_def After_def)
  then have m2: "m2 = m1\<lparr>om_closed := [sess_id s2]\<rparr>" and r2: "r2 = r1"
    using assms(1,9) own by (simp_all add: onConnect_def onConnect_claim_def)
  show ?thesis
    using assms(1,5,6,10)
    by (auto simp: m2 r2 m1 r1 onDisconnect_def onDisconnect_detach_def onConnect_file_def newOwnershipManager_def
        Let_def owns_def mem_holder_def mem_Release_def After_def)
qed

theorem refused_session_evicts_owner_witness:
  "\<exists>m2 r2 m3 r3. onDisconnect mem_Registry \<lparr>menv_ctx = None, menv_now = 0\<rparr> \<lparr>sess_id = 2, sess_Identity = ''cp1''\<rparr> (m2, r2) = (m3, r3) \<and>
     owns m2 ''cp1'' 1 \<and> om_closed m3 = [2] \<and> \<not> owns m3 ''cp1'' 1"
proof -
  let ?e = "\<lparr>menv_ctx = None, menv_now = 0\<rparr>"
  let ?s1 = "\<lparr>sess_id = 1, sess_Identity = ''cp1''\<rparr>" and ?s2 = "\<lparr>sess_id = 2, sess_Identity = ''cp1''\<rparr>"
  obtain m1 r1 where 1: "onConnect mem_Registry ?e ?s1 (newOwnershipManager ''pod-a'' minute second, NewMemory) = (m1, r1)"
    by fastforce
  obtain m2 r2 where 2: "onConnect mem_Registry ?e ?s2 (m1, r1) = (m2, r2)" by fastforce
  obtain m3 r3 where 3: "onDisconnect mem_Registry ?e ?s2 (m2, r2) = (m3, r3)" by fastforce
  have "mem_holder ?e NewMemory ''cp1'' = None" "mem_generation NewMemory = 0"
    by (simp_all add: mem_holder_def NewMemory_def)
  then show ?thesis
    using refused_session_evicts_owner [OF _ _ _ _ _ _ _ 1 2 3, of 1] 3 by auto
qed

end
