(* ===== verification/Commands.thy ===== *)
theory Commands
  imports Ownership Bus_Protocol
begin

text \<open>
  The runtime's side of a command (internal/runtime/commands.go): the JSON of a reset command,
  \<open>handleCommand\<close> with its fencing check, and \<open>callReset\<close>. The OCPP library is outside the
  repository: what the code uses of it (the session of a station, a Reset call on it, the JSON of
  the confirmation) is the record \<open>ocpp\<close>, an argument of the definitions. So is \<open>fmt_q\<close>, the
  quoting of \<open>%q\<close>, which depends on the Unicode tables of the Go release.
\<close>

section \<open>Reset commands\<close>

definition resetAction :: string where
  "resetAction = ''Reset''"

record resetCommand =
  rc_Type :: string
  rc_EVSEID :: "int option"

definition zero_resetCommand :: resetCommand where
  "zero_resetCommand = \<lparr>rc_Type = '''', rc_EVSEID = None\<rparr>"

definition reset_fields :: "string list" where
  "reset_fields = [''type'', ''evseId'']"

definition marshal_resetCommand :: "resetCommand \<Rightarrow> string" where
  "marshal_resetCommand rc =
     object_text ((''type'', quote (rc_Type rc)) #
       (case rc_EVSEID rc of None \<Rightarrow> [] | Some n \<Rightarrow> [(''evseId'', showInt n)]))"

text \<open>A number is stored into an \<open>int\<close> only when its text is a decimal integer of 64 bits.\<close>

definition set_reset_field :: "string \<Rightarrow> json \<Rightarrow> resetCommand \<Rightarrow> error + resetCommand" where
  "set_reset_field field v rc =
     (if field = ''type'' then store_string v (\<lambda>x. rc\<lparr>rc_Type := x\<rparr>) rc
      else
        (case v of
           JNull \<Rightarrow> Inr (rc\<lparr>rc_EVSEID := None\<rparr>)
         | JNum n \<Rightarrow> (case ParseInt n of Inr i \<Rightarrow> Inr (rc\<lparr>rc_EVSEID := Some i\<rparr>) | Inl _ \<Rightarrow> Inl json_error)
         | _ \<Rightarrow> Inl json_error))"

text \<open>Unknown members are an error when \<open>strict\<close> (\<open>DisallowUnknownFields\<close>) and skipped otherwise.\<close>

fun set_reset_members :: "bool \<Rightarrow> (string \<times> string \<times> json) list \<Rightarrow> resetCommand \<Rightarrow> error + resetCommand" where
  "set_reset_members strict [] rc = Inr rc"
| "set_reset_members strict ((k, raw, v) # ms) rc =
     (case field_of reset_fields (unquote k) of
        None \<Rightarrow> if strict then Inl json_error else set_reset_members strict ms rc
      | Some f \<Rightarrow>
          (case set_reset_field f v rc of
             Inl err \<Rightarrow> Inl err
           | Inr rc' \<Rightarrow> set_reset_members strict ms rc'))"

definition store_resetCommand :: "bool \<Rightarrow> json \<Rightarrow> error + resetCommand" where
  "store_resetCommand strict v =
     (case v of
        JObj ms \<Rightarrow> set_reset_members strict ms zero_resetCommand
      | JNull \<Rightarrow> Inr zero_resetCommand
      | _ \<Rightarrow> Inl json_error)"

definition unmarshal_resetCommand :: "string \<Rightarrow> error + resetCommand" where
  "unmarshal_resetCommand s =
     (case json_parse s of
        None \<Rightarrow> Inl json_error
      | Some v \<Rightarrow> store_resetCommand False v)"

section \<open>The handler\<close>

datatype reset_type = ResetRequestTypeHard | ResetRequestTypeSoft

datatype reset_request =
    Reset_v16 reset_type
  | Reset_v201 string "int option"
  | Reset_v21 string "int option"

text \<open>A session is known by the identity of its station.\<close>

record ('h, 'c) ocpp =
  ocpp_Session :: "string \<Rightarrow> 'h \<Rightarrow> version option"
  ocpp_CallReset :: "string \<Rightarrow> reset_request \<Rightarrow> 'h \<Rightarrow> (error + 'c) \<times> 'h"
  ocpp_marshal :: "'c \<Rightarrow> error + string"

definition reset_type_error :: error where
  "reset_type_error = errors_New ''reset type must be Immediate or OnIdle''"

text \<open>The request \<open>callReset\<close> sends, by protocol version.\<close>

definition reset_request_for :: "(string \<Rightarrow> string) \<Rightarrow> version \<Rightarrow> resetCommand \<Rightarrow> error + reset_request" where
  "reset_request_for fmt_q version request =
     (case version of
        OCPP16 \<Rightarrow>
          if rc_Type request = ''OnIdle'' then Inr (Reset_v16 ResetRequestTypeSoft)
          else if rc_Type request \<noteq> ''Immediate'' then Inl reset_type_error
          else Inr (Reset_v16 ResetRequestTypeHard)
      | OCPP201 \<Rightarrow>
          if rc_Type request \<noteq> ''Immediate'' \<and> rc_Type request \<noteq> ''OnIdle'' then Inl reset_type_error
          else Inr (Reset_v201 (rc_Type request) (rc_EVSEID request))
      | OCPP21 \<Rightarrow>
          if rc_Type request \<noteq> ''Immediate'' \<and> rc_Type request \<noteq> ''OnIdle'' then Inl reset_type_error
          else Inr (Reset_v21 (rc_Type request) (rc_EVSEID request))
      | Other_version v \<Rightarrow> Inl (errors_New (''unsupported OCPP version '' @ fmt_q v)))"

definition callReset ::
  "('h, 'c) ocpp \<Rightarrow> (string \<Rightarrow> string) \<Rightarrow> version \<Rightarrow> string \<Rightarrow> resetCommand \<Rightarrow> 'h \<Rightarrow> (error + string) \<times> 'h" where
  "callReset lib fmt_q version session request h =
     (case reset_request_for fmt_q version request of
        Inl err \<Rightarrow> (Inl err, h)
      | Inr req \<Rightarrow>
          (case ocpp_CallReset lib session req h of
             (Inl err, h') \<Rightarrow> (Inl err, h')
           | (Inr confirmation, h') \<Rightarrow> (ocpp_marshal lib confirmation, h')))"

definition fail_Result :: "string \<Rightarrow> error \<Rightarrow> Result" where
  "fail_Result code err = zero_Result\<lparr>res_Success := False, res_ErrorCode := code, res_ErrorDescription := err_text err\<rparr>"

definition handleCommand ::
  "('h, 'c) ocpp \<Rightarrow> (string \<Rightarrow> string) \<Rightarrow> ownershipManager option \<Rightarrow> error option \<Rightarrow> Command \<Rightarrow> 'h \<Rightarrow> Result \<times> 'h" where
  "handleCommand lib fmt_q ownership ctxErr command h =
     (case ctxErr of
        Some err \<Rightarrow> (fail_Result ''Expired'' err, h)
      | None \<Rightarrow>
          if (case ownership of
                None \<Rightarrow> True
              | Some m \<Rightarrow> cmd_OwnerID command \<noteq> om_ownerID m \<or>
                  \<not> owns m (cmd_StationIdentity command) (cmd_OwnerGeneration command))
          then (fail_Result ''NotOwner'' (errors_New ''station ownership changed''), h)
          else
            (case ocpp_Session lib (cmd_StationIdentity command) h of
               None \<Rightarrow> (fail_Result ''StationNotConnected'' (errors_New ''station is not connected to this runtime''), h)
             | Some version \<Rightarrow>
                 if cmd_Action command \<noteq> resetAction
                 then (fail_Result ''UnsupportedAction'' (errors_New (''unsupported command action '' @ fmt_q (cmd_Action command))), h)
                 else
                   (case unmarshal_resetCommand (cmd_Payload command) of
                      Inl err \<Rightarrow> (fail_Result ''InvalidPayload'' err, h)
                    | Inr request \<Rightarrow>
                        (case callReset lib fmt_q version (cmd_StationIdentity command) request h of
                           (Inl err, h') \<Rightarrow> (fail_Result ''OCPPCallFailed'' err, h')
                         | (Inr payload, h') \<Rightarrow> (zero_Result\<lparr>res_Success := True, res_Payload := Some payload\<rparr>, h')))))"

section \<open>The JSON of a reset command\<close>

lemma is_digit_char [simp]: "d < 10 \<Longrightarrow> is_digit (digit_char d)"
  by (simp add: is_digit_def)

lemma showNat_digits: "\<forall>c \<in> set (showNat n). is_digit c"
proof (induction n rule: showNat.induct)
  case (1 n)
  then show ?case by (subst showNat.simps) auto
qed

lemma digit_char_0: "d < 10 \<Longrightarrow> digit_char d = CHR ''0'' \<Longrightarrow> d = 0"
  by (drule arg_cong [where f = byte]) (simp add: digit_char_def)

lemma showNat_no_zero: "0 < n \<Longrightarrow> hd (showNat n) \<noteq> CHR ''0''"
proof (induction n rule: showNat.induct)
  case (1 n)
  then show ?case
    by (cases "n < 10") (auto simp: showNat.simps [of n] hd_append dest: digit_char_0)
qed

lemma scan_int_showNat: "scan_int (showNat n) = Some (showNat n, [])"
proof (cases "n = 0")
  case True
  moreover have "digit_char 0 = CHR ''0''" by code_simp
  ultimately show ?thesis by (simp add: showNat.simps [of 0] scan_int_def)
next
  case False
  have "takeWhile is_digit (showNat n) = showNat n" "dropWhile is_digit (showNat n) = []"
    using showNat_digits [of n] by (simp_all add: takeWhile_eq_all_conv)
  then show ?thesis
    using False showNat_no_zero [of n] showNat_nonempty [of n]
    by (auto simp: scan_int_def scan_digits_def Let_def split: list.split)
qed

lemma scan_number_showInt: "scan_number (showInt n) = Some (showInt n, [])"
proof (cases "n < 0")
  case True
  then show ?thesis by (simp add: showInt_def scan_number_def scan_int_showNat scan_frac_def scan_exp_def)
next
  case False
  obtain c r where cr: "showNat (nat n) = c # r" using showNat_nonempty by (metis list.exhaust)
  then have "c \<noteq> CHR ''-''" using showNat_digits [of "nat n"] by auto
  then show ?thesis
    using False scan_int_showNat [of "nat n"] cr by (simp add: showInt_def scan_number_def scan_frac_def scan_exp_def)
qed

lemma parses_to_showInt: "parses_to (showInt n) (JNum (showInt n))"
  by (rule parses_to_number [OF scan_number_token [OF scan_number_showInt]])

lemma reset_names:
  "plain_name ''type''" "plain_name ''evseId''" "unquote ''type'' = ''type''" "unquote ''evseId'' = ''evseId''"
  by (simp_all add: plain_name_def)

lemma parse_resetCommand:
  "json_parse (marshal_resetCommand rc) =
     Some (JObj ((''type'', quote (rc_Type rc), JStr (quote_body (rc_Type rc))) #
       (case rc_EVSEID rc of None \<Rightarrow> [] | Some n \<Rightarrow> [(''evseId'', showInt n, JNum (showInt n))])))"
proof -
  define kts where "kts = (''type'', quote (rc_Type rc)) # (case rc_EVSEID rc of None \<Rightarrow> [] | Some n \<Rightarrow> [(''evseId'', showInt n)])"
  define vs where "vs = JStr (quote_body (rc_Type rc)) # (case rc_EVSEID rc of None \<Rightarrow> [] | Some n \<Rightarrow> [JNum (showInt n)])"
  have "members_to kts vs"
    using plain_name_token [OF reset_names(1)] plain_name_token [OF reset_names(2)]
    by (simp add: members_to_def kts_def vs_def parses_to_quote parses_to_showInt split: option.split)
  then have "json_parse (object_text kts) = Some (JObj (members_of kts vs))"
    by (rule parses_to_json_parse [OF parses_to_object])
  then show ?thesis
    by (simp add: marshal_resetCommand_def kts_def vs_def members_of_def split: option.splits)
qed

lemma reset_roundtrip:
  assumes "valid_utf8 (rc_Type rc)" "\<And>n. rc_EVSEID rc = Some n \<Longrightarrow> - (2 ^ 63) \<le> n \<and> n < 2 ^ 63"
  shows "\<exists>v. json_parse (marshal_resetCommand rc) = Some v \<and> store_resetCommand strict v = Inr rc"
proof (cases "rc_EVSEID rc")
  case None
  then show ?thesis
    using assms(1)
    by (simp add: parse_resetCommand store_resetCommand_def reset_names reset_fields_def set_reset_field_def
        store_string_def unquote_quote_body zero_resetCommand_def)
next
  case (Some n)
  then show ?thesis
    using assms(1) assms(2) [OF Some] ParseInt_showInt [of n]
    by (simp add: parse_resetCommand store_resetCommand_def reset_names reset_fields_def set_reset_field_def
        store_string_def unquote_quote_body zero_resetCommand_def)
qed

section \<open>What the handler does\<close>

text \<open>The conditions under which a command reaches its station, with the request it sends.\<close>

definition admits ::
  "('h, 'c) ocpp \<Rightarrow> (string \<Rightarrow> string) \<Rightarrow> ownershipManager option \<Rightarrow> error option \<Rightarrow> Command \<Rightarrow> 'h \<Rightarrow> reset_request \<Rightarrow> bool" where
  "admits lib fmt_q ownership ctxErr c h req \<longleftrightarrow>
     ctxErr = None \<and>
     (\<exists>m version rc. ownership = Some m \<and> cmd_OwnerID c = om_ownerID m \<and>
        owns m (cmd_StationIdentity c) (cmd_OwnerGeneration c) \<and>
        ocpp_Session lib (cmd_StationIdentity c) h = Some version \<and> cmd_Action c = resetAction \<and>
        unmarshal_resetCommand (cmd_Payload c) = Inr rc \<and> reset_request_for fmt_q version rc = Inr req)"

lemma handle_admitted:
  assumes "admits lib fmt_q ownership ctxErr c h req"
  shows "handleCommand lib fmt_q ownership ctxErr c h =
    (case ocpp_CallReset lib (cmd_StationIdentity c) req h of
       (Inl err, h') \<Rightarrow> (fail_Result ''OCPPCallFailed'' err, h')
     | (Inr conf, h') \<Rightarrow>
         (case ocpp_marshal lib conf of
            Inl err \<Rightarrow> (fail_Result ''OCPPCallFailed'' err, h')
          | Inr payload \<Rightarrow> (zero_Result\<lparr>res_Success := True, res_Payload := Some payload\<rparr>, h')))"
  using assms
  by (auto simp: admits_def handleCommand_def callReset_def split: prod.split sum.split)

definition refused :: "Result \<times> 'h \<Rightarrow> 'h \<Rightarrow> bool" where
  "refused rh h \<longleftrightarrow> snd rh = h \<and> (\<exists>err. fst rh \<in> set (map (\<lambda>code. fail_Result code err)
     [''Expired'', ''NotOwner'', ''StationNotConnected'', ''UnsupportedAction'', ''InvalidPayload'', ''OCPPCallFailed'']))"

lemma refused_fail [simp]:
  "refused (fail_Result ''Expired'' err, h) h" "refused (fail_Result ''NotOwner'' err, h) h"
  "refused (fail_Result ''StationNotConnected'' err, h) h" "refused (fail_Result ''UnsupportedAction'' err, h) h"
  "refused (fail_Result ''InvalidPayload'' err, h) h" "refused (fail_Result ''OCPPCallFailed'' err, h) h"
  by (simp_all add: refused_def) blast+

lemma handle_refused:
  assumes "\<nexists>req. admits lib fmt_q ownership ctxErr c h req"
  shows "refused (handleCommand lib fmt_q ownership ctxErr c h) h"
proof (cases "ctxErr = None \<and> (\<exists>m. ownership = Some m \<and> cmd_OwnerID c = om_ownerID m \<and>
    owns m (cmd_StationIdentity c) (cmd_OwnerGeneration c))")
  case False
  then show ?thesis by (cases ctxErr; cases ownership) (simp_all add: handleCommand_def)
next
  case True
  then obtain m where m: "ctxErr = None" "ownership = Some m" "cmd_OwnerID c = om_ownerID m"
    "owns m (cmd_StationIdentity c) (cmd_OwnerGeneration c)" by blast
  have no_request: "\<exists>err. reset_request_for fmt_q version rc = Inl err"
    if "ocpp_Session lib (cmd_StationIdentity c) h = Some version" "cmd_Action c = resetAction"
      "unmarshal_resetCommand (cmd_Payload c) = Inr rc" for version rc
    using assms m that by (cases "reset_request_for fmt_q version rc") (auto simp: admits_def)
  show ?thesis
  proof (cases "ocpp_Session lib (cmd_StationIdentity c) h")
    case None
    then show ?thesis using m by (simp add: handleCommand_def)
  next
    case (Some version)
    show ?thesis
    proof (cases "unmarshal_resetCommand (cmd_Payload c)")
      case (Inl err)
      then show ?thesis using m Some by (simp add: handleCommand_def)
    next
      case (Inr rc)
      show ?thesis
      proof (cases "cmd_Action c = resetAction")
        case True
        then obtain err where "reset_request_for fmt_q version rc = Inl err" using no_request [OF Some True Inr] by blast
        then show ?thesis using m Some Inr True by (simp add: handleCommand_def callReset_def)
      next
        case False
        then show ?thesis using m Some by (simp add: handleCommand_def)
      qed
    qed
  qed
qed


text \<open>A library that counts the calls it makes, with one connected station.\<close>

definition demo_lib :: "(nat, unit) ocpp" where
  "demo_lib = \<lparr>ocpp_Session = \<lambda>s h. if s = ''cp1'' then Some OCPP16 else None,
     ocpp_CallReset = \<lambda>s req h. (Inr (), Suc h), ocpp_marshal = \<lambda>_. Inr ''{\"status\":\"Accepted\"}''\<rparr>"

lemma demo_lib_simps:
  "ocpp_CallReset demo_lib s req h = (Inr (), Suc h)" "ocpp_marshal demo_lib conf = Inr ''{\"status\":\"Accepted\"}''"
  by (simp_all add: demo_lib_def)

definition demo_reset :: Command where
  "demo_reset = demo_command\<lparr>cmd_StationIdentity := ''cp1'', cmd_OwnerGeneration := 1,
     cmd_Payload := ''{\"type\":\"OnIdle\"}''\<rparr>"

lemma demo_reset_payload: "unmarshal_resetCommand ''{\"type\":\"OnIdle\"}'' = Inr \<lparr>rc_Type = ''OnIdle'', rc_EVSEID = None\<rparr>"
  by code_simp

lemma demo_cluster_owner: "om_ownerID (cl_pods demo_cluster 0) = ''pod-a''"
  by (simp add: demo_cluster_def onConnect_file_def demo_claim_def onConnect_claim_def demo_pods_def newOwnershipManager_def
      split: option.split prod.split)

lemma demo_admits: "admits demo_lib id (Some (cl_pods demo_cluster 0)) None demo_reset 0 (Reset_v16 ResetRequestTypeSoft)"
  using demo_cluster_owns demo_cluster_owner demo_reset_payload
  by (simp add: admits_def demo_lib_def demo_reset_def demo_command_def resetAction_def reset_request_for_def)


text \<open>C5: in every reachable state of a cluster of runtimes over Redis, a command reaches its station
  through one runtime at most, even if several runtimes were handed the command.\<close>

theorem command_reaches_one_runtime:
  assumes "redis_service exec view"
    and "cluster_reachable (redis_Registry exec prefix) (registry_env_ok view prefix)
      (\<lambda>r. registry_inv prefix (view r)) (\<lambda>r. counter prefix (view r)) (2 ^ 53) c"
    and "snd (handleCommand lib fmt_q (Some (cl_pods c p)) e1 cmd h1) \<noteq> h1"
    and "snd (handleCommand lib fmt_q (Some (cl_pods c q)) e2 cmd h2) \<noteq> h2"
  shows "p = q"
proof -
  have "owns m (cmd_StationIdentity cmd) (cmd_OwnerGeneration cmd)"
    if "snd (handleCommand lib fmt_q (Some m) e cmd h) \<noteq> h" for m e h
  proof (rule ccontr)
    assume "\<not> owns m (cmd_StationIdentity cmd) (cmd_OwnerGeneration cmd)"
    then have "\<nexists>req. admits lib fmt_q (Some m) e cmd h req" by (simp add: admits_def)
    from handle_refused [OF this] show False using that by (simp add: refused_def)
  qed
  then have "owns (cl_pods c p) (cmd_StationIdentity cmd) (cmd_OwnerGeneration cmd)"
    "owns (cl_pods c q) (cmd_StationIdentity cmd) (cmd_OwnerGeneration cmd)"
    using assms(3,4) by blast+
  then show ?thesis
    using lease_registry.owns_unique [OF redis_lease_registry [OF assms(1)] assms(2)] by blast
qed

lemma command_reaches_one_runtime_witness:
  "{p. snd (handleCommand demo_lib id (Some (cl_pods demo_cluster p)) None demo_reset 0) \<noteq> 0} = {0}"
proof -
  have zero: "snd (handleCommand demo_lib id (Some (cl_pods demo_cluster 0)) None demo_reset 0) \<noteq> 0"
    unfolding handle_admitted [OF demo_admits] by (simp add: demo_lib_def)
  then have "p = 0" if "snd (handleCommand demo_lib id (Some (cl_pods demo_cluster p)) None demo_reset 0) \<noteq> 0" for p
    by (rule command_reaches_one_runtime [OF store.redis_service_axioms demo_cluster_reachable that])
  with zero show ?thesis by blast
qed

end
