(* ===== verification/Rate_Limit.thy ===== *)
theory Rate_Limit
  imports Bus_Protocol
begin

text \<open>
  The command API's rate limiter (internal/runtime/rate_limit.go): a counter per credential and
  time window in Redis, shared by all runtimes.
\<close>

section \<open>The limiter\<close>

definition commandRateScript ::
  "(redis_cmd \<Rightarrow> 'r \<Rightarrow> redis_reply \<times> 'r) \<Rightarrow> string \<Rightarrow> int \<Rightarrow> 'r \<Rightarrow> redis_reply \<times> 'r" where
  "commandRateScript exec key ms =
     redis_call exec (INCR key)
       (\<lambda>count. if count = RInt 1 then redis_call exec (PEXPIRE key ms) (\<lambda>_ r. (count, r)) else (\<lambda>r. (count, r)))"

record redisCommandRateLimiter =
  rl_prefix :: string
  rl_limit :: int
  rl_window :: duration

text \<open>\<open>now\<close> is the clock's reading; the window is positive where the limiter is built, so the division is defined.\<close>

definition windowID :: "redisCommandRateLimiter \<Rightarrow> time \<Rightarrow> int" where
  "windowID limiter now = go_div (UnixNano now) (rl_window limiter)"

definition rateKey :: "redisCommandRateLimiter \<Rightarrow> string \<Rightarrow> time \<Rightarrow> string" where
  "rateKey limiter subject now =
     rl_prefix limiter @ '':command-rate:'' @ subject @ '':'' @ showInt (windowID limiter now)"

definition Allow ::
  "(redis_cmd \<Rightarrow> 'r \<Rightarrow> redis_reply \<times> 'r) \<Rightarrow> redisCommandRateLimiter \<Rightarrow> time \<Rightarrow> string \<Rightarrow> ('r, 'h) world \<Rightarrow>
   (error + bool) \<times> ('r, 'h) world" where
  "Allow exec limiter now subject w =
     (case call (commandRateScript exec (rateKey limiter subject now) (Milliseconds (rl_window limiter))) w of
        (Inl err, w') \<Rightarrow> (Inl (errors_Wrap ''apply Redis command rate limit: '' err), w')
      | (Inr (RInt count), w') \<Rightarrow> (Inr (count \<le> rl_limit limiter), w')
      | (Inr _, w') \<Rightarrow> (Inl (errors_Wrap ''apply Redis command rate limit: '' (errors_New ''redis: unexpected type for Int64'')), w'))"

section \<open>Counting\<close>

text \<open>The number of requests counted under a key, if it is a counter.\<close>

definition counted :: "keyspace \<Rightarrow> string \<Rightarrow> nat option" where
  "counted kv k =
     (case kv k of
        None \<Rightarrow> Some 0
      | Some (VString s, _) \<Rightarrow> (case ParseInt s of Inr i \<Rightarrow> if 0 < i then Some (nat i) else None | Inl _ \<Rightarrow> None)
      | Some _ \<Rightarrow> None)"

lemma no_xadd_counter [simp]: "no_xadd (INCR k)" "no_xadd (PEXPIRE k ms)"
  by (simp_all add: no_xadd_def)

lemma script_counts:
  assumes "counted kv k = Some n" "int n < 2 ^ 63 - 1" "0 < ms"
  obtains kv' where "commandRateScript kv_exec k ms kv = (RInt (int (Suc n)), kv')" "counted kv' k = Some (Suc n)"
    "\<And>k'. k' \<noteq> k \<Longrightarrow> kv' k' = kv k'"
proof (cases "kv k")
  case None
  then have n: "n = 0" using assms(1) by (simp add: counted_def)
  have one: "ParseInt (showInt 1) = Inr 1" by (simp add: ParseInt_showInt)
  let ?kv = "kv(k \<mapsto> (VString (showInt 1), Some (nat ms)))"
  have "commandRateScript kv_exec k ms kv = (RInt (int (Suc n)), ?kv)"
    using None assms(3) n by (simp add: commandRateScript_def redis_call_def kv_exec_def)
  then show thesis by (rule that) (simp_all add: counted_def one n)
next
  case (Some vd)
  then obtain s d where v: "kv k = Some (VString s, d)" and i: "ParseInt s = Inr (int n)" and n: "0 < n"
    using assms(1) by (cases vd; cases "fst vd") (auto simp: counted_def split: sum.splits if_splits)
  have succ: "ParseInt (showInt (int n + 1)) = Inr (int n + 1)"
    using assms(2) by (simp add: ParseInt_showInt)
  let ?kv = "kv(k \<mapsto> (VString (showInt (int n + 1)), d))"
  have "commandRateScript kv_exec k ms kv = (RInt (int (Suc n)), ?kv)"
    using v i n assms(2) by (simp add: commandRateScript_def redis_call_def kv_exec_def add.commute)
  then show thesis by (rule that) (simp_all add: counted_def succ nat_add_distrib)
qed

context redis_service
begin

lemma script_view: "commandRateScript kv_exec k ms (view r) = (fst (commandRateScript exec k ms r), view (snd (commandRateScript exec k ms r)))"
proof -
  have e: "kv_exec c (view r) = (fst (exec c r), view (snd (exec c r)))" if "no_xadd c" for c r
    by (rule exec_view [OF that])
  show ?thesis
    by (simp add: commandRateScript_def redis_call_def e split: prod.split redis_reply.split)
qed

lemma allow_counts:
  assumes "rests view kv h w" "counted kv (rateKey limiter subject now) = Some n" "int n < 2 ^ 63 - 1"
    and "millisecond \<le> rl_window limiter"
  obtains w' kv' where "Allow exec limiter now subject w = (Inr (int (Suc n) \<le> rl_limit limiter), w')" "rests view kv' h w'"
    "counted kv' (rateKey limiter subject now) = Some (Suc n)"
proof -
  let ?k = "rateKey limiter subject now" and ?ms = "Milliseconds (rl_window limiter)"
  have "0 < ?ms" using assms(4) by (simp add: Milliseconds_pos_iff)
  then obtain kv' where kv': "commandRateScript kv_exec ?k ?ms kv = (RInt (int (Suc n)), kv')" "counted kv' ?k = Some (Suc n)"
    using script_counts [OF assms(2,3)] by metis
  obtain w' where "call (commandRateScript exec ?k ?ms) w = (Inr (RInt (int (Suc n))), w')" "rests view kv' h w'"
    using call_rests [OF assms(1), where kcmd = "commandRateScript kv_exec ?k ?ms" and cmd = "commandRateScript exec ?k ?ms"]
      script_view kv'(1) by fastforce
  then show thesis using that kv'(2) by (simp add: Allow_def)
qed

end

text \<open>A series of requests of one credential at the given times.\<close>

fun allow_all ::
  "(redis_cmd \<Rightarrow> 'r \<Rightarrow> redis_reply \<times> 'r) \<Rightarrow> redisCommandRateLimiter \<Rightarrow> string \<Rightarrow> time list \<Rightarrow> ('r, 'h) world \<Rightarrow>
   (error + bool) list \<times> ('r, 'h) world" where
  "allow_all exec limiter subject [] w = ([], w)"
| "allow_all exec limiter subject (t # ts) w =
     (case Allow exec limiter t subject w of
        (a, w1) \<Rightarrow> (case allow_all exec limiter subject ts w1 of (rest, w2) \<Rightarrow> (a # rest, w2)))"

context redis_service
begin

lemma allow_all_counts:
  assumes "rests view kv h w" "\<forall>t \<in> set ts. rateKey limiter subject t = k" "counted kv k = Some n"
    and "int (n + length ts) < 2 ^ 63" "millisecond \<le> rl_window limiter"
  shows "fst (allow_all exec limiter subject ts w) = map (\<lambda>i. Inr (int i \<le> rl_limit limiter)) [Suc n..<Suc (n + length ts)]"
  using assms(1-4)
proof (induction ts arbitrary: kv w n)
  case (Cons t ts)
  have k: "rateKey limiter subject t = k" using Cons.prems(2) by simp
  have bound: "int n < 2 ^ 63 - 1" using Cons.prems(4) by simp
  obtain w1 kv1 where w1: "Allow exec limiter t subject w = (Inr (int (Suc n) \<le> rl_limit limiter), w1)" "rests view kv1 h w1"
    "counted kv1 k = Some (Suc n)"
    using allow_counts [OF Cons.prems(1), of limiter subject t n] Cons.prems(3) bound assms(5) k by metis
  have "fst (allow_all exec limiter subject ts w1) =
      map (\<lambda>i. Inr (int i \<le> rl_limit limiter)) [Suc (Suc n)..<Suc (Suc n + length ts)]"
    by (rule Cons.IH [OF w1(2) _ w1(3)]) (use Cons.prems(2,4) in simp_all)
  then show ?case
    using w1(1) by (simp add: upt_rec [of "Suc n"] case_prod_unfold del: upt_Suc)
qed simp

end


definition demo_limiter :: redisCommandRateLimiter where
  "demo_limiter = \<lparr>rl_prefix = ''csms'', rl_limit = 2, rl_window = minute\<rparr>"


end
