(* ===== verification/Command_API.thy ===== *)
theory Command_API
  imports Commands Rate_Limit
begin

unbundle bit_operations_syntax

text \<open>
  The command API (internal/runtime/command_api.go): \<open>serverCommandHandler\<close> over the interfaces it
  is given (registry, bus, rate limiter), bearer authentication with its constant-time comparison,
  the path of the endpoint, and command identifiers. Log output is not modelled; SHA-256 and the
  random source are arguments.
\<close>

section \<open>Authentication\<close>

text \<open>\<open>subtle.ConstantTimeCompare\<close>: all bytes are read, the differences are collected in one byte.\<close>

definition char_byte :: "char \<Rightarrow> 8 word" where
  "char_byte c = of_nat (byte c)"

definition ConstantTimeByteEq :: "8 word \<Rightarrow> 8 word \<Rightarrow> int" where
  "ConstantTimeByteEq x y = uint (drop_bit 31 ((ucast (x XOR y) :: 32 word) - 1))"

fun collect_differences :: "8 word \<Rightarrow> string \<Rightarrow> string \<Rightarrow> 8 word" where
  "collect_differences v (a # x) (b # y) = collect_differences (v OR (char_byte a XOR char_byte b)) x y"
| "collect_differences v _ _ = v"

definition ConstantTimeCompare :: "string \<Rightarrow> string \<Rightarrow> int" where
  "ConstantTimeCompare x y =
     (if length x \<noteq> length y then 0 else ConstantTimeByteEq (collect_differences 0 x y) 0)"

definition hex_EncodeToString :: "string \<Rightarrow> string" where
  "hex_EncodeToString s = concat (map (\<lambda>c. [hex_digit (byte c div 16), hex_digit (byte c mod 16)]) s)"

definition match_keys :: "string \<Rightarrow> string list \<Rightarrow> int" where
  "match_keys provided apiKeys =
     foldl (\<lambda>matched apiKey.
         if length provided = length apiKey then matched OR ConstantTimeCompare provided apiKey else matched)
       0 apiKeys"

definition authenticateBearer :: "(string \<Rightarrow> string) \<Rightarrow> string \<Rightarrow> string list \<Rightarrow> string \<times> bool" where
  "authenticateBearer sha256 header apiKeys =
     (let prefix = ''Bearer '' in
      if \<not> HasPrefix header prefix then ('''', False)
      else
        let provided = TrimPrefix header prefix in
        if match_keys provided apiKeys \<noteq> 1 then ('''', False)
        else (hex_EncodeToString (take 8 (sha256 provided)), True))"

section \<open>Path, identifiers, bodies\<close>

definition resetPathIdentity :: "string \<Rightarrow> string \<times> bool" where
  "resetPathIdentity path =
     (let prefix = ''/api/v1/stations/''; suffix = ''/commands/reset'' in
      if \<not> HasPrefix path prefix \<or> \<not> HasSuffix path suffix then ('''', False)
      else
        let identity = TrimSuffix (TrimPrefix path prefix) suffix
        in (identity, identity \<noteq> '''' \<and> CHR ''/'' \<notin> set identity))"

definition newCommandID :: "string option \<Rightarrow> time \<Rightarrow> string" where
  "newCommandID rand now =
     (case rand of
        Some val \<Rightarrow> hex_EncodeToString val
      | None \<Rightarrow> hex_EncodeToString (format_RFC3339Nano now))"

definition commandTimeout :: duration where
  "commandTimeout = 30 * second"

text \<open>
  The decoder reads one JSON value from at most 4096 bytes of the body; a body that goes on is an
  error only if the value has not ended by then. A value that is not an object or array ends at the
  byte after it.
\<close>

definition decode_body :: "string \<Rightarrow> error + resetCommand" where
  "decode_body body =
     (case first_value (take 4096 body) of
        None \<Rightarrow> Inl json_error
      | Some (v, r) \<Rightarrow>
          if 4096 < length body \<and> r = [] \<and> (case v of JObj _ \<Rightarrow> False | JArr _ \<Rightarrow> False | _ \<Rightarrow> True)
          then Inl json_error
          else store_resetCommand True v)"

record http_request =
  rq_Method :: string
  rq_Path :: string
  rq_Authorization :: string
  rq_Body :: string

record http_response =
  rs_Status :: nat
  rs_Headers :: "(string \<times> string) list"
  rs_Body :: string

definition writeAPIError :: "(string \<times> string) list \<Rightarrow> nat \<Rightarrow> string \<Rightarrow> string \<Rightarrow> http_response" where
  "writeAPIError headers status code description =
     \<lparr>rs_Status = status, rs_Headers = headers,
      rs_Body = object_text [(''errorCode'', quote code), (''errorDescription'', quote description)] @ [CHR 0x0A]\<rparr>"

section \<open>The handler\<close>

text \<open>The interfaces, as operations on the world; each may be nil (\<open>None\<close>).\<close>

record 'w bus_ops =
  bo_Publish :: "Command \<Rightarrow> 'w \<Rightarrow> error option \<times> 'w"
  bo_AwaitResult :: "time \<Rightarrow> string \<Rightarrow> 'w \<Rightarrow> (error + Result) \<times> 'w"

record 'w api_env =
  ae_sha256 :: "string \<Rightarrow> string"
  ae_now :: "'w \<Rightarrow> time"
  ae_rand :: "'w \<Rightarrow> string option"

definition api_command :: "'w api_env \<Rightarrow> string \<Rightarrow> Lease \<Rightarrow> resetCommand \<Rightarrow> 'w \<Rightarrow> Command" where
  "api_command env identity lease payload w =
     (let now = ae_now env w in
      \<lparr>cmd_ID = newCommandID (ae_rand env w) now, cmd_StationIdentity = identity, cmd_OwnerID = lease_OwnerID lease,
       cmd_OwnerGeneration = lease_Generation lease, cmd_Action = resetAction,
       cmd_Payload = marshal_resetCommand payload, cmd_CreatedAt = now, cmd_Deadline = now + commandTimeout\<rparr>)"

text \<open>The handler in three parts: publishing and waiting, what comes before for an admitted credential, and
  the whole.\<close>

definition json_headers :: "(string \<times> string) list" where
  "json_headers = [(''Content-Type'', ''application/json'')]"

definition after_publish :: "'w bus_ops \<Rightarrow> Command \<Rightarrow> 'w \<Rightarrow> http_response \<times> 'w" where
  "after_publish b command w =
     (case bo_Publish b command w of
        (Some err, w3) \<Rightarrow> (writeAPIError json_headers 503 ''CommandPublishFailed'' (err_text err), w3)
      | (None, w3) \<Rightarrow>
          (case bo_AwaitResult b (cmd_Deadline command) (cmd_ID command) w3 of
             (Inl err, w4) \<Rightarrow> (writeAPIError json_headers 504 ''CommandTimeout'' (err_text err), w4)
           | (Inr result, w4) \<Rightarrow>
               (\<lparr>rs_Status = (if res_Success result then 200 else 409), rs_Headers = json_headers,
                 rs_Body = (case marshal_Result result of Inr s \<Rightarrow> s @ [CHR 0x0A] | Inl _ \<Rightarrow> '''')\<rparr>, w4)))"

definition after_admission ::
  "'w api_env \<Rightarrow> (string \<Rightarrow> 'w \<Rightarrow> claim_result \<times> 'w) \<Rightarrow> 'w bus_ops \<Rightarrow> http_request \<Rightarrow> 'w \<Rightarrow> http_response \<times> 'w" where
  "after_admission env lookup b request w1 =
     (case resetPathIdentity (rq_Path request) of
        (identity, ok) \<Rightarrow>
          if \<not> ok then (writeAPIError json_headers 404 ''NotFound'' ''command endpoint was not found'', w1)
          else
            (case decode_body (rq_Body request) of
               Inl err \<Rightarrow> (writeAPIError json_headers 400 ''InvalidPayload'' (err_text err), w1)
             | Inr payload \<Rightarrow>
                 (case lookup identity w1 of
                    ((lease, Some err), w2) \<Rightarrow>
                      if errors_Is err ErrNotFound
                      then (writeAPIError json_headers 409 ''StationNotConnected'' (err_text err), w2)
                      else (writeAPIError json_headers 500 ''RegistryFailure'' (err_text err), w2)
                  | ((lease, None), w2) \<Rightarrow> after_publish b (api_command env identity lease payload w2) w2)))"

definition serverCommandHandler ::
  "'w api_env \<Rightarrow> string list \<Rightarrow> (string \<Rightarrow> 'w \<Rightarrow> claim_result \<times> 'w) option \<Rightarrow> 'w bus_ops option \<Rightarrow>
   (string \<Rightarrow> 'w \<Rightarrow> (error + bool) \<times> 'w) option \<Rightarrow> http_request \<Rightarrow> 'w \<Rightarrow> http_response \<times> 'w" where
  "serverCommandHandler env apiKeys ownership bus limiter request w =
     (if rq_Method request \<noteq> ''POST''
      then (writeAPIError json_headers 405 ''MethodNotAllowed'' ''POST is required'', w)
      else if apiKeys = [] \<or> ownership = None \<or> bus = None \<or> limiter = None
      then (writeAPIError json_headers 503 ''CommandAPIUnavailable'' ''command API is not configured'', w)
      else
        (case authenticateBearer (ae_sha256 env) (rq_Authorization request) apiKeys of
           (keyID, authenticated) \<Rightarrow>
             if \<not> authenticated
             then (writeAPIError json_headers 401 ''Unauthorized'' ''valid bearer credentials are required'', w)
             else
               (case the limiter keyID w of
                  (Inl err, w1) \<Rightarrow>
                    (writeAPIError json_headers 503 ''RateLimitUnavailable'' ''command admission is unavailable'', w1)
                | (Inr allowed, w1) \<Rightarrow>
                    if \<not> allowed
                    then (writeAPIError (json_headers @ [(''Retry-After'', ''60'')]) 429 ''RateLimited'' ''command rate limit exceeded'', w1)
                    else after_admission env (the ownership) (the bus) request w1)))"

section \<open>Authentication is membership\<close>

lemma ConstantTimeByteEq_0: "ConstantTimeByteEq v 0 = (if v = 0 then 1 else 0)"
proof (cases "v = 0")
  case True
  then show ?thesis by (simp add: ConstantTimeByteEq_def)
next
  case False
  have "uint v \<noteq> 0" using False by (simp add: uint_0_iff)
  then have "0 < uint v" using uint_ge_0 [of v] by linarith
  moreover have "uint v < 256" using uint_lt2p [of v] by simp
  ultimately have "uint ((ucast v :: 32 word) - 1) < 2 ^ 31"
    by (simp add: uint_word_ariths uint_up_ucast is_up)
  then show ?thesis
    using False by (simp add: ConstantTimeByteEq_def drop_bit_eq_div uint_div)
qed

lemma char_byte_inject [simp]: "char_byte a = char_byte b \<longleftrightarrow> a = b"
proof
  assume "char_byte a = char_byte b"
  then have "unat (char_byte a) = unat (char_byte b)" by simp
  then have "byte a = byte b"
    by (simp add: char_byte_def unat_of_nat of_char_mod_256 del: of_char_eq_iff)
  then show "a = b" by simp
qed simp

lemma xor_zero_eq: "a XOR b = 0 \<Longrightarrow> a = (b :: 'a::len word)"
  by (metis xor.assoc xor.right_neutral xor_self_eq)

lemma collect_differences_0:
  "length x = length y \<Longrightarrow> collect_differences v x y = 0 \<longleftrightarrow> v = 0 \<and> x = y"
  by (induction v x y rule: collect_differences.induct) (auto simp: or_eq_0_iff dest: xor_zero_eq)

lemma ConstantTimeCompare_eq: "ConstantTimeCompare x y = (if x = y then 1 else 0)"
  by (auto simp: ConstantTimeCompare_def ConstantTimeByteEq_0 collect_differences_0)

lemma or_bit: "b \<in> {0, 1} \<Longrightarrow> a \<in> {0, 1} \<Longrightarrow> (a :: int) OR b = (if a = 1 \<or> b = 1 then 1 else 0)"
  by auto

lemma match_keys_eq: "match_keys provided apiKeys = (if provided \<in> set apiKeys then 1 else 0)"
proof -
  have "foldl (\<lambda>matched apiKey. if length provided = length apiKey
      then matched OR ConstantTimeCompare provided apiKey else matched) a apiKeys =
      (if a = 1 \<or> provided \<in> set apiKeys then 1 else 0)" if "a \<in> {0, 1}" for a
    using that by (induction apiKeys arbitrary: a) (auto simp: ConstantTimeCompare_eq or_bit)
  then show ?thesis by (simp add: match_keys_def)
qed

lemma authenticateBearer_eq:
  "authenticateBearer sha256 header apiKeys =
     (if \<exists>k \<in> set apiKeys. header = ''Bearer '' @ k
      then (hex_EncodeToString (take 8 (sha256 (drop 7 header))), True) else ('''', False))"
proof (cases "HasPrefix header ''Bearer ''")
  case True
  then obtain t where t: "header = ''Bearer '' @ t" by (auto simp: HasPrefix_iff)
  then have "TrimPrefix header ''Bearer '' = t" by (metis TrimPrefix_append)
  then show ?thesis using True t by (simp add: authenticateBearer_def match_keys_eq)
next
  case False
  then show ?thesis by (auto simp: authenticateBearer_def Let_def HasPrefix_iff)
qed

text \<open>C29: the constant-time authentication accepts exactly the bearer credentials that are one of the
  configured keys, byte for byte, and identifies them by the first eight bytes of their SHA-256 in
  hexadecimal; everything else is refused.\<close>

theorem authenticate_is_membership:
  "authenticateBearer sha256 header apiKeys =
     (if header \<in> (@) ''Bearer '' ` set apiKeys
      then (hex_EncodeToString (take 8 (sha256 (drop 7 header))), True) else ('''', False))"
  unfolding authenticateBearer_eq by (auto simp: image_iff)

section \<open>Paths\<close>

lemma affix_overlap:
  assumes "p @ t = u @ s" "\<nexists>v. t = v @ s"
  obtains x where "p = u @ x" "s = x @ t" "x \<noteq> []"
  using assms by (auto simp: append_eq_append_conv2)

text \<open>The suffix of the path cannot begin inside its prefix without leaving a slash behind.\<close>

lemma path_overlap:
  assumes "''/api/v1/stations/'' = u @ x" "''/commands/reset'' = x @ t" "x \<noteq> []"
  shows "CHR ''/'' \<in> set t"
proof -
  have k: "0 < length x" "length x < 16"
    using assms(3) arg_cong [OF assms(2), of length] by simp_all
  have x: "x = take (length x) ''/commands/reset''" "t = drop (length x) ''/commands/reset''"
    using assms(2) by simp_all
  have "x = drop (17 - length x) ''/api/v1/stations/''"
  proof -
    have "17 - length x = length u" using arg_cong [OF assms(1), of length] by simp
    then show ?thesis unfolding assms(1) by simp
  qed
  then have "take (length x) ''/commands/reset'' = drop (17 - length x) ''/api/v1/stations/''" using x(1) by simp
  moreover have "\<forall>k \<in> set [1..<16]. take k ''/commands/reset'' = drop (17 - k) ''/api/v1/stations/'' \<longrightarrow>
      CHR ''/'' \<in> set (drop k ''/commands/reset'')"
    by code_simp
  ultimately show ?thesis using k x(2) by (metis One_nat_def Suc_leI atLeastLessThan_iff set_upt)
qed

lemma path_accepted:
  "resetPathIdentity path = (identity, True) \<longleftrightarrow>
     path = ''/api/v1/stations/'' @ identity @ ''/commands/reset'' \<and> identity \<noteq> '''' \<and> CHR ''/'' \<notin> set identity"
proof -
  let ?p = "''/api/v1/stations/''" and ?s = "''/commands/reset''"
  have "path = ?p @ identity @ ?s \<and> identity \<noteq> '''' \<and> CHR ''/'' \<notin> set identity"
    if r: "resetPathIdentity path = (identity, True)"
  proof -
    have pre: "HasPrefix path ?p" and suf: "HasSuffix path ?s"
      using r by (auto simp: resetPathIdentity_def Let_def split: if_splits)
    then have idn: "identity = TrimSuffix (TrimPrefix path ?p) ?s" "identity \<noteq> ''''" "CHR ''/'' \<notin> set identity"
      using r by (auto simp: resetPathIdentity_def Let_def)
    obtain t where t: "path = ?p @ t" using pre by (auto simp: HasPrefix_iff)
    have t': "identity = TrimSuffix t ?s" using idn(1) unfolding t TrimPrefix_append .
    obtain u where u: "path = u @ ?s" using suf by (auto simp: HasSuffix_iff)
    have "\<exists>v. t = v @ ?s"
    proof (rule ccontr)
      assume no: "\<not> ?thesis"
      have "?p @ t = u @ ?s" using t u by simp
      then obtain x where x: "?p = u @ x" "?s = x @ t" "x \<noteq> []" by (rule affix_overlap [OF _ no])
      have "\<not> HasSuffix t ?s" using no by (simp add: HasSuffix_iff)
      then have "identity = t" using t' by (simp add: TrimSuffix_def)
      then show False using path_overlap [OF x] idn(3) by simp
    qed
    then obtain v where "t = v @ ?s" by blast
    then show ?thesis using t t' idn(2,3) by simp
  qed
  moreover have "resetPathIdentity path = (identity, True)"
    if "path = ?p @ identity @ ?s \<and> identity \<noteq> '''' \<and> CHR ''/'' \<notin> set identity"
  proof -
    have "TrimSuffix (TrimPrefix path ?p) ?s = identity" using that by (simp only: TrimPrefix_append TrimSuffix_append)
    moreover have "HasPrefix path ?p" "HasSuffix path ?s"
      using that HasSuffix_append [of "?p @ identity" ?s] by (auto simp: HasPrefix_iff)
    ultimately show ?thesis using that by (simp add: resetPathIdentity_def)
  qed
  ultimately show ?thesis by blast
qed

text \<open>The endpoint's path determines the station and nothing else does: a path is accepted with an
  identity exactly when it is that identity, not empty and without a slash, between the fixed
  prefix and suffix.\<close>

theorem reset_path_exact:
  "resetPathIdentity path = (identity, True) \<longleftrightarrow>
     path = ''/api/v1/stations/'' @ identity @ ''/commands/reset'' \<and> identity \<noteq> '''' \<and> CHR ''/'' \<notin> set identity"
  by (rule path_accepted)

section \<open>What the handler lets through\<close>

text \<open>A request that passes every check before publishing: the identity, lease and payload it leads
  to, and the world after the rate limiter and the registry were asked.\<close>

definition api_admits ::
  "'w api_env \<Rightarrow> string list \<Rightarrow> (string \<Rightarrow> 'w \<Rightarrow> claim_result \<times> 'w) \<Rightarrow> (string \<Rightarrow> 'w \<Rightarrow> (error + bool) \<times> 'w) \<Rightarrow>
   http_request \<Rightarrow> 'w \<Rightarrow> string \<Rightarrow> Lease \<Rightarrow> resetCommand \<Rightarrow> 'w \<Rightarrow> bool" where
  "api_admits env apiKeys lookup allow request w identity lease payload w2 \<longleftrightarrow>
     rq_Method request = ''POST'' \<and>
     (\<exists>key w1. key \<in> set apiKeys \<and> rq_Authorization request = ''Bearer '' @ key \<and>
        allow (hex_EncodeToString (take 8 (ae_sha256 env key))) w = (Inr True, w1) \<and>
        rq_Path request = ''/api/v1/stations/'' @ identity @ ''/commands/reset'' \<and> identity \<noteq> '''' \<and> CHR ''/'' \<notin> set identity \<and>
        decode_body (rq_Body request) = Inr payload \<and> lookup identity w1 = ((lease, None), w2))"

lemma resetPath_ok:
  "path = ''/api/v1/stations/'' @ identity @ ''/commands/reset'' \<Longrightarrow> identity \<noteq> '''' \<Longrightarrow> CHR ''/'' \<notin> set identity \<Longrightarrow>
   resetPathIdentity path = (identity, True)"
  using path_accepted by blast

lemma handler_admitted:
  assumes "api_admits env apiKeys lookup allow request w identity lease payload w2"
  shows "serverCommandHandler env apiKeys (Some lookup) (Some b) (Some allow) request w =
    after_publish b (api_command env identity lease payload w2) w2"
proof -
  obtain key w1 where *: "rq_Method request = ''POST''" "key \<in> set apiKeys" "rq_Authorization request = ''Bearer '' @ key"
    "allow (hex_EncodeToString (take 8 (ae_sha256 env key))) w = (Inr True, w1)"
    "rq_Path request = ''/api/v1/stations/'' @ identity @ ''/commands/reset''" "identity \<noteq> ''''" "CHR ''/'' \<notin> set identity"
    "decode_body (rq_Body request) = Inr payload" "lookup identity w1 = ((lease, None), w2)"
    using assms unfolding api_admits_def by blast
  have auth: "authenticateBearer (ae_sha256 env) (rq_Authorization request) apiKeys =
      (hex_EncodeToString (take 8 (ae_sha256 env key)), True)"
    using *(2,3) by (auto simp: authenticateBearer_eq)
  have path: "resetPathIdentity (rq_Path request) = (identity, True)" by (rule resetPath_ok [OF *(5-7)])
  have keys: "apiKeys \<noteq> []" using *(2) by auto
  show ?thesis
    using keys by (simp add: serverCommandHandler_def after_admission_def *(1,4,8,9) auth path)
qed

definition refusal ::
  "http_response \<Rightarrow> bool" where
  "refusal resp \<longleftrightarrow> rs_Status resp \<in> {400, 401, 404, 405, 409, 429, 500, 503}"

lemma refusal_error [simp]:
  "refusal (writeAPIError hs s code desc) \<longleftrightarrow> s \<in> {400, 401, 404, 405, 409, 429, 500, 503}"
  by (simp add: refusal_def writeAPIError_def)

lemma handler_unauthenticated:
  assumes "rq_Method request \<noteq> ''POST'' \<or> \<not> snd (authenticateBearer (ae_sha256 env) (rq_Authorization request) apiKeys)"
  shows "refusal (fst (serverCommandHandler env apiKeys lookup b allow request w)) \<and>
    snd (serverCommandHandler env apiKeys lookup b allow request w) = w"
proof (cases "rq_Method request = ''POST''")
  case True
  then obtain keyID where "authenticateBearer (ae_sha256 env) (rq_Authorization request) apiKeys = (keyID, False)"
    using assms by (metis prod.collapse)
  then show ?thesis
    using True by (cases "apiKeys = []") (simp_all add: serverCommandHandler_def)
next
  case False
  then show ?thesis by (simp add: serverCommandHandler_def)
qed

lemma unauthenticated_no_bus:
  assumes "rq_Method request \<noteq> ''POST'' \<or> \<not> snd (authenticateBearer (ae_sha256 env) (rq_Authorization request) apiKeys)"
  shows "serverCommandHandler env apiKeys (Some lookup) (Some b') (Some allow) request w =
    serverCommandHandler env apiKeys (Some lookup) (Some b) (Some allow) request w"
proof (cases "rq_Method request = ''POST''")
  case True
  then obtain keyID where "authenticateBearer (ae_sha256 env) (rq_Authorization request) apiKeys = (keyID, False)"
    using assms by (metis prod.collapse)
  then show ?thesis
    using True by (simp add: serverCommandHandler_def)
next
  case False
  then show ?thesis by (simp add: serverCommandHandler_def)
qed

text \<open>A request that is not admitted never reaches the bus: the answer would be the same with any other.\<close>

lemma handler_not_admitted:
  assumes "\<nexists>identity lease payload w2. api_admits env apiKeys lookup allow request w identity lease payload w2"
  shows "serverCommandHandler env apiKeys (Some lookup) (Some b') (Some allow) request w =
      serverCommandHandler env apiKeys (Some lookup) (Some b) (Some allow) request w \<and>
    refusal (fst (serverCommandHandler env apiKeys (Some lookup) (Some b) (Some allow) request w))"
proof (cases "rq_Method request = ''POST'' \<and> (\<exists>key \<in> set apiKeys. rq_Authorization request = ''Bearer '' @ key)")
  case False
  then have "rq_Method request \<noteq> ''POST'' \<or> \<not> snd (authenticateBearer (ae_sha256 env) (rq_Authorization request) apiKeys)"
    by (simp add: authenticateBearer_eq)
  from handler_unauthenticated [OF this] unauthenticated_no_bus [OF this] show ?thesis by simp
next
  case True
  then obtain key where key: "rq_Method request = ''POST''" "key \<in> set apiKeys" "rq_Authorization request = ''Bearer '' @ key" by blast
  then have auth: "authenticateBearer (ae_sha256 env) (rq_Authorization request) apiKeys =
      (hex_EncodeToString (take 8 (ae_sha256 env key)), True)"
    by (auto simp: authenticateBearer_eq)
  have keys: "apiKeys \<noteq> []" using key(2) by auto
  obtain a w1 where allow: "allow (hex_EncodeToString (take 8 (ae_sha256 env key))) w = (a, w1)" by fastforce
  obtain idn ok where path: "resetPathIdentity (rq_Path request) = (idn, ok)" by fastforce
  note run = serverCommandHandler_def after_admission_def key(1) keys auth allow path
  consider (limiter) err where "a = Inl err" | (limited) "a = Inr False" | (path) "a = Inr True" "\<not> ok"
    | (body) err where "a = Inr True" ok "decode_body (rq_Body request) = Inl err"
    | (look) payload where "a = Inr True" ok "decode_body (rq_Body request) = Inr payload"
    by (metis (full_types) sum.exhaust)
  then show ?thesis
  proof cases
    case (look payload)
    obtain lease e w2 where l: "lookup idn w1 = ((lease, e), w2)" by (metis surj_pair)
    have "e \<noteq> None"
    proof
      assume "e = None"
      moreover have "resetPathIdentity (rq_Path request) = (idn, True)" using path look(2) by simp
      note p = this [unfolded path_accepted]
      ultimately have "api_admits env apiKeys lookup allow request w idn lease payload w2"
        unfolding api_admits_def using key allow look(1,3) l
        by (intro conjI exI [of _ key] exI [of _ w1]) (simp_all only: p not_False_eq_True)
      then show False using assms by blast
    qed
    then show ?thesis using look l by (cases e) (simp_all add: run)
  qed (simp_all add: run)
qed


text \<open>C30: a request without one of the configured credentials changes nothing at all: neither the rate
  limiter, the registry nor the bus is asked, and the answer is an error.\<close>

theorem api_unauthenticated_harmless:
  assumes "rq_Authorization request \<notin> (@) ''Bearer '' ` set apiKeys"
  shows "snd (serverCommandHandler env apiKeys lookup b allow request w) = w \<and>
    refusal (fst (serverCommandHandler env apiKeys lookup b allow request w))"
proof -
  have "\<not> snd (authenticateBearer (ae_sha256 env) (rq_Authorization request) apiKeys)"
    using assms by (auto simp: authenticateBearer_eq)
  from handler_unauthenticated [OF disjI2 [OF this]] show ?thesis by simp
qed

text \<open>A request as a client would send it, and interfaces that count: the world is the number of calls.\<close>

definition demo_request :: http_request where
  "demo_request = \<lparr>rq_Method = ''POST'', rq_Path = ''/api/v1/stations/cp1/commands/reset'',
     rq_Authorization = ''Bearer secret'', rq_Body = ''{\"type\":\"OnIdle\"}''\<rparr>"

definition demo_api_env :: "'w api_env" where
  "demo_api_env = \<lparr>ae_sha256 = id, ae_now = \<lambda>_. 5 * second, ae_rand = \<lambda>_. Some ''0123456789abcdef''\<rparr>"

definition demo_lease_cp1 :: Lease where
  "demo_lease_cp1 = \<lparr>lease_StationIdentity = ''cp1'', lease_OwnerID = ''pod-a'', lease_Generation = 1, lease_ExpiresAt = 60 * second\<rparr>"

definition demo_lookup :: "string \<Rightarrow> nat \<Rightarrow> claim_result \<times> nat" where
  "demo_lookup s w = ((demo_lease_cp1, None), Suc w)"

definition demo_allow :: "string \<Rightarrow> nat \<Rightarrow> (error + bool) \<times> nat" where
  "demo_allow k w = (Inr True, Suc w)"

definition demo_bus_ops :: "nat bus_ops" where
  "demo_bus_ops = \<lparr>bo_Publish = \<lambda>c w. (None, Suc w), bo_AwaitResult = \<lambda>d i w. (Inl ErrResultTimeout, Suc w)\<rparr>"

lemma demo_body: "decode_body ''{\"type\":\"OnIdle\"}'' = Inr \<lparr>rc_Type = ''OnIdle'', rc_EVSEID = None\<rparr>"
proof -
  have "first_value ''{\"type\":\"OnIdle\"}'' = Some (JObj [(''type'', ''\"OnIdle\"'', JStr ''OnIdle'')], [])"
    by code_simp
  moreover have "store_resetCommand True (JObj [(''type'', ''\"OnIdle\"'', JStr ''OnIdle'')]) = Inr \<lparr>rc_Type = ''OnIdle'', rc_EVSEID = None\<rparr>"
    by code_simp
  moreover have short: "length ''{\"type\":\"OnIdle\"}'' \<le> 4096" by simp
  then have "\<not> 4096 < length ''{\"type\":\"OnIdle\"}''" by (simp only: not_less)
  ultimately show ?thesis
    unfolding decode_body_def take_all [OF short] by (simp only: option.case prod.case simp_thms if_False)
qed

lemma demo_admitted:
  "api_admits demo_api_env [''other'', ''secret''] demo_lookup demo_allow demo_request 0 ''cp1'' demo_lease_cp1
     \<lparr>rc_Type = ''OnIdle'', rc_EVSEID = None\<rparr> 2"
  by (simp add: api_admits_def demo_request_def demo_body demo_allow_def demo_lookup_def)


lemma api_unauthenticated_harmless_witness:
  "snd (serverCommandHandler demo_api_env [''other''] (Some demo_lookup) (Some demo_bus_ops) (Some demo_allow) demo_request 7) = 7"
proof -
  have "rq_Authorization demo_request \<notin> (@) ''Bearer '' ` set [''other'']" by (simp add: demo_request_def)
  then show ?thesis by (rule api_unauthenticated_harmless [THEN conjunct1])
qed

section \<open>The published command\<close>

lemma hex_nonempty: "hex_EncodeToString s = '''' \<longleftrightarrow> s = ''''"
  by (cases s) (simp_all add: hex_EncodeToString_def)

lemma newCommandID_nonempty: "rand \<noteq> Some '''' \<Longrightarrow> newCommandID rand now \<noteq> ''''"
  by (cases rand) (simp_all add: newCommandID_def hex_nonempty format_RFC3339Nano_def)

lemma reset_field_range:
  assumes "set_reset_field f v rc = Inr rc'" "\<And>n. rc_EVSEID rc = Some n \<Longrightarrow> - (2 ^ 63) \<le> n \<and> n < 2 ^ 63"
    and "rc_EVSEID rc' = Some n"
  shows "- (2 ^ 63) \<le> n \<and> n < 2 ^ 63"
proof (cases "f = ''type''")
  case True
  then have "rc_EVSEID rc' = rc_EVSEID rc"
    using assms(1) by (cases v) (auto simp: set_reset_field_def store_string_def)
  then show ?thesis using assms(2,3) by simp
next
  case False
  then obtain t where "ParseInt t = Inr n"
    using assms(1,3) by (cases v) (auto simp: set_reset_field_def split: sum.splits)
  then show ?thesis by (rule ParseInt_range)
qed

lemma reset_members_range:
  assumes "set_reset_members strict ms rc = Inr rc'" "\<And>n. rc_EVSEID rc = Some n \<Longrightarrow> - (2 ^ 63) \<le> n \<and> n < 2 ^ 63"
    and "rc_EVSEID rc' = Some n"
  shows "- (2 ^ 63) \<le> n \<and> n < 2 ^ 63"
  using assms
proof (induction strict ms rc rule: set_reset_members.induct)
  case (2 strict k raw v ms rc)
  show ?case
  proof (cases "field_of reset_fields (unquote k)")
    case None
    then show ?thesis using 2 by (auto split: if_splits)
  next
    case (Some f)
    then obtain rc1 where rc1: "set_reset_field f v rc = Inr rc1" "set_reset_members strict ms rc1 = Inr rc'"
      using "2.prems"(1) by (auto split: sum.splits)
    have "- (2 ^ 63) \<le> m \<and> m < 2 ^ 63" if "rc_EVSEID rc1 = Some m" for m
      by (rule reset_field_range [OF rc1(1) "2.prems"(2) that])
    then show ?thesis using "2.IH"(2) [OF Some rc1(1) rc1(2)] "2.prems"(3) by blast
  qed
qed simp

lemma decode_body_range:
  assumes "decode_body body = Inr rc" "rc_EVSEID rc = Some n"
  shows "- (2 ^ 63) \<le> n \<and> n < 2 ^ 63"
proof -
  obtain v where v: "store_resetCommand True v = Inr rc"
    using assms(1) by (auto simp: decode_body_def split: option.splits if_splits)
  show ?thesis
  proof (cases v)
    case (JObj ms)
    then show ?thesis using v reset_members_range [of True ms zero_resetCommand rc n] assms(2)
      by (simp add: store_resetCommand_def zero_resetCommand_def)
  qed (use v assms(2) in \<open>auto simp: store_resetCommand_def zero_resetCommand_def\<close>)
qed

lemma api_command_fields:
  "cmd_StationIdentity (api_command env identity lease payload w) = identity"
  "cmd_OwnerID (api_command env identity lease payload w) = lease_OwnerID lease"
  "cmd_OwnerGeneration (api_command env identity lease payload w) = lease_Generation lease"
  "cmd_Action (api_command env identity lease payload w) = resetAction"
  "cmd_Payload (api_command env identity lease payload w) = marshal_resetCommand payload"
  "cmd_CreatedAt (api_command env identity lease payload w) = ae_now env w"
  "cmd_Deadline (api_command env identity lease payload w) = ae_now env w + commandTimeout"
  "cmd_ID (api_command env identity lease payload w) = newCommandID (ae_rand env w) (ae_now env w)"
  by (simp_all add: api_command_def Let_def)

lemma api_command_valid:
  assumes "identity \<noteq> ''''" "lease_OwnerID lease \<noteq> ''''" "lease_Generation lease \<noteq> 0"
    and "0 < ae_now env w" "ae_rand env w \<noteq> Some ''''"
  shows "validateCommand (api_command env identity lease payload w) = None"
  using assms newCommandID_nonempty [OF assms(5)]
  by (simp add: validateCommand_def api_command_fields resetAction_def IsZero_def zero_time_def After_def commandTimeout_def)

lemma api_payload_decodes:
  assumes "decode_body body = Inr payload" "valid_utf8 (rc_Type payload)"
  shows "unmarshal_resetCommand (marshal_resetCommand payload) = Inr payload"
  using reset_roundtrip [OF assms(2), of False] decode_body_range [OF assms(1)]
  by (auto simp: unmarshal_resetCommand_def)

text \<open>The command the API builds from an accepted body and the station's lease passes validation,
  is decoded by the consumer as exactly itself, and its payload is unmarshalled by the runtime to
  the very reset command the client sent; it expires 30 seconds after its creation.\<close>

theorem api_command_arrives:
  assumes "decode_body body = Inr payload" "valid_utf8 (rc_Type payload)" "identity \<noteq> ''''" "lease_OwnerID lease \<noteq> ''''"
    and "0 < lease_Generation lease" "unat (lease_Generation lease) < 2 ^ 63"
    and "0 < ae_now env w" "ae_now env w + commandTimeout < 2 ^ 63" "ae_rand env w \<noteq> Some ''''"
  defines "c \<equiv> api_command env identity lease payload w"
  shows "validateCommand c = None \<and> decodeCommand (command_values c) = Inr c \<and>
    unmarshal_resetCommand (cmd_Payload c) = Inr payload \<and> cmd_Deadline c = cmd_CreatedAt c + 30 * second"
proof -
  have gen: "lease_Generation lease \<noteq> 0" using assms(5) by auto
  have valid: "validateCommand c = None"
    unfolding c_def by (rule api_command_valid [OF assms(3,4) gen assms(7,9)])
  have "nano_instant (cmd_CreatedAt c)" "nano_instant (cmd_Deadline c)"
    using assms(7,8) by (simp_all add: c_def api_command_fields nano_instant_def commandTimeout_def)
  then have "decodeCommand (command_values c) = Inr c"
    using valid decode_values [of c] assms(6) by (simp add: c_def api_command_fields)
  then show ?thesis
    using valid api_payload_decodes [OF assms(1,2)] by (simp add: c_def api_command_fields commandTimeout_def)
qed

lemma api_command_arrives_witness:
  "unmarshal_resetCommand (cmd_Payload (api_command demo_api_env ''cp1'' demo_lease_cp1 \<lparr>rc_Type = ''OnIdle'', rc_EVSEID = None\<rparr> (0 :: nat))) =
     Inr \<lparr>rc_Type = ''OnIdle'', rc_EVSEID = None\<rparr>"
proof -
  have "valid_utf8 (rc_Type \<lparr>rc_Type = ''OnIdle'', rc_EVSEID = None\<rparr>)" by code_simp
  then show ?thesis
    using api_command_arrives [OF demo_body, of "''cp1''" demo_lease_cp1 demo_api_env "0 :: nat"]
    by (simp add: demo_lease_cp1_def demo_api_env_def commandTimeout_def)
qed

end
