(* ===== verification/Station_Store.thy ===== *)
theory Station_Store
  imports Prelude
begin

text \<open>
  Stations and connectors as the platform stores them (internal/stationstore): the records, the
  validation shared by the adapters, the in-process adapter, and the contract of a repository as
  the locale \<open>station_repository\<close>. The validity of a protocol version is decided by the OCPP
  library and is an argument.
\<close>

section \<open>Records and validation\<close>

definition ErrInvalidStation :: error where
  "ErrInvalidStation = errors_New ''invalid station''"

definition ErrInvalidConnector :: error where
  "ErrInvalidConnector = errors_New ''invalid connector status''"

record Station =
  st_Identity :: string
  st_Version :: version
  st_Vendor :: string
  st_Model :: string
  st_SerialNumber :: string
  st_FirmwareVersion :: string
  st_BootReason :: string
  st_LastBootAt :: time

record ConnectorStatus =
  cs_StationIdentity :: string
  cs_Version :: version
  cs_EVSEID :: int
  cs_ConnectorID :: int
  cs_Status :: string
  cs_ErrorCode :: string
  cs_OccurredAt :: time
  cs_ReceivedAt :: time

record ConnectorKey =
  ck_StationIdentity :: string
  ck_EVSEID :: int
  ck_ConnectorID :: int

definition ValidateStation :: "(version \<Rightarrow> bool) \<Rightarrow> Station \<Rightarrow> error option" where
  "ValidateStation Valid station =
     (if st_Identity station = '''' \<or> \<not> Valid (st_Version station) \<or> st_Vendor station = '''' \<or>
         st_Model station = '''' \<or> IsZero (st_LastBootAt station)
      then Some (Error (err_text ErrInvalidStation @ '': identity, version, vendor, model and boot time are required'')
                   (Some ErrInvalidStation))
      else None)"

definition ValidateConnectorStatus :: "(version \<Rightarrow> bool) \<Rightarrow> ConnectorStatus \<Rightarrow> error option" where
  "ValidateConnectorStatus Valid status =
     (if cs_StationIdentity status = '''' \<or> \<not> Valid (cs_Version status) \<or> cs_EVSEID status < 0 \<or>
         cs_ConnectorID status < 0 \<or> cs_Status status = '''' \<or> IsZero (cs_ReceivedAt status)
      then Some (Error (err_text ErrInvalidConnector @
                   '': identity, version, non-negative connector identifiers, status and receive time are required'')
                   (Some ErrInvalidConnector))
      else None)"

definition connector_key :: "ConnectorStatus \<Rightarrow> ConnectorKey" where
  "connector_key status = \<lparr>ck_StationIdentity = cs_StationIdentity status, ck_EVSEID = cs_EVSEID status,
     ck_ConnectorID = cs_ConnectorID status\<rparr>"

section \<open>The in-process adapter\<close>

record MemoryStore =
  ms_stations :: "string \<rightharpoonup> Station"
  ms_connectors :: "ConnectorKey \<rightharpoonup> ConnectorStatus"

definition NewMemoryStore :: MemoryStore where
  "NewMemoryStore = \<lparr>ms_stations = Map.empty, ms_connectors = Map.empty\<rparr>"

text \<open>\<open>ctxErr\<close> is what \<open>ctx.Err()\<close> returns.\<close>

definition mem_UpsertStation ::
  "(version \<Rightarrow> bool) \<Rightarrow> error option \<Rightarrow> Station \<Rightarrow> MemoryStore \<Rightarrow> error option \<times> MemoryStore" where
  "mem_UpsertStation Valid ctxErr station s =
     (case ctxErr of
        Some err \<Rightarrow> (Some err, s)
      | None \<Rightarrow>
          (case ValidateStation Valid station of
             Some err \<Rightarrow> (Some err, s)
           | None \<Rightarrow> (None, s\<lparr>ms_stations := (ms_stations s)(st_Identity station \<mapsto> station)\<rparr>)))"

definition mem_UpdateConnectorStatus ::
  "(version \<Rightarrow> bool) \<Rightarrow> error option \<Rightarrow> ConnectorStatus \<Rightarrow> MemoryStore \<Rightarrow> error option \<times> MemoryStore" where
  "mem_UpdateConnectorStatus Valid ctxErr status s =
     (case ctxErr of
        Some err \<Rightarrow> (Some err, s)
      | None \<Rightarrow>
          (case ValidateConnectorStatus Valid status of
             Some err \<Rightarrow> (Some err, s)
           | None \<Rightarrow> (None, s\<lparr>ms_connectors := (ms_connectors s)(connector_key status \<mapsto> status)\<rparr>)))"

definition mem_Station :: "string \<Rightarrow> MemoryStore \<Rightarrow> Station option" where
  "mem_Station identity s = ms_stations s identity"

definition mem_Connector :: "ConnectorKey \<Rightarrow> MemoryStore \<Rightarrow> ConnectorStatus option" where
  "mem_Connector key s = ms_connectors s key"

section \<open>The contract\<close>

text \<open>
  What the handlers rely on: a call that returns nil has stored the record (with its times as the
  store keeps them) and changed nothing else; a call that fails may at worst have stored it, which
  is what a lost answer to a commit means. What is invalid is refused. The store shows through the
  two observers. \<open>env\<close> is what a call meets: its context and the fate of its round trips.
\<close>

locale station_repository =
  fixes upsert :: "'e \<Rightarrow> Station \<Rightarrow> 's \<Rightarrow> error option \<times> 's"
    and update :: "'e \<Rightarrow> ConnectorStatus \<Rightarrow> 's \<Rightarrow> error option \<times> 's"
    and station :: "'s \<Rightarrow> string \<rightharpoonup> Station"
    and connector :: "'s \<Rightarrow> ConnectorKey \<rightharpoonup> ConnectorStatus"
    and kept_time :: "time \<Rightarrow> time"
    and Valid :: "version \<Rightarrow> bool"
  assumes upsert_ok: "upsert e st s = (None, s') \<Longrightarrow>
      ValidateStation Valid st = None \<and>
      station s' = (station s)(st_Identity st \<mapsto> st\<lparr>st_LastBootAt := kept_time (st_LastBootAt st)\<rparr>) \<and>
      connector s' = connector s"
    and upsert_failed: "upsert e st s = (Some err, s') \<Longrightarrow>
      connector s' = connector s \<and>
      (station s' = station s \<or>
       ValidateStation Valid st = None \<and>
       station s' = (station s)(st_Identity st \<mapsto> st\<lparr>st_LastBootAt := kept_time (st_LastBootAt st)\<rparr>))"
    and update_ok: "update e cs s = (None, s') \<Longrightarrow>
      ValidateConnectorStatus Valid cs = None \<and> station s' = station s \<and>
      connector s' = (connector s)(connector_key cs \<mapsto>
        cs\<lparr>cs_OccurredAt := kept_time (cs_OccurredAt cs), cs_ReceivedAt := kept_time (cs_ReceivedAt cs)\<rparr>)"
    and update_failed: "update e cs s = (Some err, s') \<Longrightarrow>
      station s' = station s \<and>
      (connector s' = connector s \<or>
       ValidateConnectorStatus Valid cs = None \<and>
       connector s' = (connector s)(connector_key cs \<mapsto>
         cs\<lparr>cs_OccurredAt := kept_time (cs_OccurredAt cs), cs_ReceivedAt := kept_time (cs_ReceivedAt cs)\<rparr>))"
begin

text \<open>No call touches another station or another connector, and stored records are valid.\<close>

lemma upsert_other: "upsert e st s = (res, s') \<Longrightarrow> i \<noteq> st_Identity st \<Longrightarrow> station s' i = station s i"
  using upsert_ok upsert_failed by (cases res) (fastforce dest: upsert_ok upsert_failed)+

lemma update_other: "update e cs s = (res, s') \<Longrightarrow> k \<noteq> connector_key cs \<Longrightarrow> connector s' k = connector s k"
  by (cases res) (fastforce dest: update_ok update_failed)+

lemma invalid_refused:
  "ValidateStation Valid st \<noteq> None \<Longrightarrow> upsert e st s = (res, s') \<Longrightarrow> res \<noteq> None \<and> station s' = station s"
  by (cases res) (auto dest: upsert_ok upsert_failed)

end

interpretation memory_store: station_repository "mem_UpsertStation Valid" "mem_UpdateConnectorStatus Valid"
  "\<lambda>s i. mem_Station i s" "\<lambda>s k. mem_Connector k s" "\<lambda>t. t" Valid
  by unfold_locales
    (auto simp: mem_UpsertStation_def mem_UpdateConnectorStatus_def mem_Station_def mem_Connector_def
      split: option.splits)

end
