(* ===== verification/Mysql_Store.thy ===== *)
theory Mysql_Store
  imports Station_Store
begin

text \<open>
  The MySQL adapter of the station repository (internal/stationstore/mysqlstore). The database is
  outside the repository: its driver is the record \<open>sql\<close>, an argument of the definitions, and what
  the code relies on is the contract \<open>sql_database\<close>: transactions, and what the four statements do
  to the tables that the migration creates. \<open>dt\<close> is what a DATETIME(6) column keeps of a time.
\<close>

section \<open>Tables and statements\<close>

record tables =
  tb_stations :: "string \<rightharpoonup> Station"
  tb_boot_events :: "Station list"
  tb_connectors :: "ConnectorKey \<rightharpoonup> ConnectorStatus"
  tb_status_events :: "ConnectorStatus list"

text \<open>The statements the adapter sends, with their parameters.\<close>

datatype sql_stmt =
    Upsert_station Station
  | Insert_boot_event Station
  | Upsert_connector ConnectorStatus
  | Insert_status_event ConnectorStatus

definition kept_station :: "(time \<Rightarrow> time) \<Rightarrow> Station \<Rightarrow> Station" where
  "kept_station dt st = st\<lparr>st_LastBootAt := dt (st_LastBootAt st)\<rparr>"

definition kept_connector :: "(time \<Rightarrow> time) \<Rightarrow> ConnectorStatus \<Rightarrow> ConnectorStatus" where
  "kept_connector dt cs = cs\<lparr>cs_OccurredAt := dt (cs_OccurredAt cs), cs_ReceivedAt := dt (cs_ReceivedAt cs)\<rparr>"

text \<open>The effect of a statement; \<open>None\<close> is a violated foreign key on the station.\<close>

definition sql_effect :: "(time \<Rightarrow> time) \<Rightarrow> sql_stmt \<Rightarrow> tables \<Rightarrow> tables option" where
  "sql_effect dt stmt tb =
     (case stmt of
        Upsert_station st \<Rightarrow> Some (tb\<lparr>tb_stations := (tb_stations tb)(st_Identity st \<mapsto> kept_station dt st)\<rparr>)
      | Insert_boot_event st \<Rightarrow>
          if tb_stations tb (st_Identity st) = None then None
          else Some (tb\<lparr>tb_boot_events := tb_boot_events tb @ [kept_station dt st]\<rparr>)
      | Upsert_connector cs \<Rightarrow>
          if tb_stations tb (cs_StationIdentity cs) = None then None
          else Some (tb\<lparr>tb_connectors := (tb_connectors tb)(connector_key cs \<mapsto> kept_connector dt cs)\<rparr>)
      | Insert_status_event cs \<Rightarrow>
          if tb_stations tb (cs_StationIdentity cs) = None then None
          else Some (tb\<lparr>tb_status_events := tb_status_events tb @ [kept_connector dt cs]\<rparr>))"

text \<open>The driver: a database \<open>'d\<close> and a transaction \<open>'x\<close>.\<close>

record ('d, 'x) sql =
  sql_BeginTx :: "'d \<Rightarrow> (error + 'x) \<times> 'd"
  sql_ExecContext :: "sql_stmt \<Rightarrow> 'x \<Rightarrow> error option \<times> 'x"
  sql_Commit :: "'x \<Rightarrow> 'd \<Rightarrow> error option \<times> 'd"
  sql_Rollback :: "'x \<Rightarrow> 'd \<Rightarrow> 'd"

text \<open>
  A transaction works on the tables as it found them. A commit installs its work; when its answer is
  an error, the work was installed or not. Nothing else changes the tables.
\<close>

locale sql_database =
  fixes db :: "('d, 'x) sql"
    and tables :: "'d \<Rightarrow> tables"
    and work :: "'x \<Rightarrow> tables"
    and dt :: "time \<Rightarrow> time"
  assumes begin_ok: "sql_BeginTx db d = (Inr x, d') \<Longrightarrow> work x = tables d \<and> tables d' = tables d"
    and begin_failed: "sql_BeginTx db d = (Inl err, d') \<Longrightarrow> tables d' = tables d"
    and exec_ok: "sql_ExecContext db stmt x = (None, x') \<Longrightarrow> sql_effect dt stmt (work x) = Some (work x')"
    and commit_ok: "sql_Commit db x d = (None, d') \<Longrightarrow> tables d' = work x"
    and commit_failed: "sql_Commit db x d = (Some err, d') \<Longrightarrow> tables d' = tables d \<or> tables d' = work x"
    and rollback: "tables (sql_Rollback db x d) = tables d"

section \<open>The adapter\<close>

text \<open>\<open>None\<close> is the nil database. The deferred rollback acts only while the transaction is open.\<close>

definition mysqlstore_New :: "'d option \<Rightarrow> error + 'd" where
  "mysqlstore_New database = (case database of None \<Rightarrow> Inl (errors_New ''mysql database is nil'') | Some d \<Rightarrow> Inr d)"

definition mysql_UpsertStation ::
  "(version \<Rightarrow> bool) \<Rightarrow> ('d, 'x) sql \<Rightarrow> Station \<Rightarrow> 'd \<Rightarrow> error option \<times> 'd" where
  "mysql_UpsertStation Valid db station d =
     (case ValidateStation Valid station of
        Some err \<Rightarrow> (Some err, d)
      | None \<Rightarrow>
          (case sql_BeginTx db d of
             (Inl err, d1) \<Rightarrow> (Some (errors_Wrap ''begin station transaction: '' err), d1)
           | (Inr x, d1) \<Rightarrow>
               (case sql_ExecContext db (Upsert_station station) x of
                  (Some err, x1) \<Rightarrow> (Some (errors_Wrap ''upsert station: '' err), sql_Rollback db x1 d1)
                | (None, x1) \<Rightarrow>
                    (case sql_ExecContext db (Insert_boot_event station) x1 of
                       (Some err, x2) \<Rightarrow> (Some (errors_Wrap ''insert boot event: '' err), sql_Rollback db x2 d1)
                     | (None, x2) \<Rightarrow>
                         (case sql_Commit db x2 d1 of
                            (Some err, d2) \<Rightarrow> (Some (errors_Wrap ''commit station transaction: '' err), d2)
                          | (None, d2) \<Rightarrow> (None, d2))))))"

definition mysql_UpdateConnectorStatus ::
  "(version \<Rightarrow> bool) \<Rightarrow> ('d, 'x) sql \<Rightarrow> ConnectorStatus \<Rightarrow> 'd \<Rightarrow> error option \<times> 'd" where
  "mysql_UpdateConnectorStatus Valid db status d =
     (case ValidateConnectorStatus Valid status of
        Some err \<Rightarrow> (Some err, d)
      | None \<Rightarrow>
          (case sql_BeginTx db d of
             (Inl err, d1) \<Rightarrow> (Some (errors_Wrap ''begin connector status transaction: '' err), d1)
           | (Inr x, d1) \<Rightarrow>
               (case sql_ExecContext db (Upsert_connector status) x of
                  (Some err, x1) \<Rightarrow> (Some (errors_Wrap ''upsert connector status: '' err), sql_Rollback db x1 d1)
                | (None, x1) \<Rightarrow>
                    (case sql_ExecContext db (Insert_status_event status) x1 of
                       (Some err, x2) \<Rightarrow> (Some (errors_Wrap ''insert status event: '' err), sql_Rollback db x2 d1)
                     | (None, x2) \<Rightarrow>
                         (case sql_Commit db x2 d1 of
                            (Some err, d2) \<Rightarrow> (Some (errors_Wrap ''commit connector status transaction: '' err), d2)
                          | (None, d2) \<Rightarrow> (None, d2))))))"

section \<open>The migration\<close>

text \<open>\<open>content\<close> is the embedded file, or the error of reading it; \<open>exec\<close> runs one statement.\<close>

fun migrate_loop :: "(string \<Rightarrow> 'd \<Rightarrow> error option \<times> 'd) \<Rightarrow> string list \<Rightarrow> 'd \<Rightarrow> error option \<times> 'd" where
  "migrate_loop exec [] d = (None, d)"
| "migrate_loop exec (statement # rest) d =
     (let trimmed = TrimSpace statement in
      if trimmed = '''' then migrate_loop exec rest d
      else
        (case exec trimmed d of
           (Some err, d') \<Rightarrow> (Some (errors_Wrap ''execute mysql migration: '' err), d')
         | (None, d') \<Rightarrow> migrate_loop exec rest d'))"

definition Migrate :: "(string \<Rightarrow> 'd \<Rightarrow> error option \<times> 'd) \<Rightarrow> error + string \<Rightarrow> 'd option \<Rightarrow> error option \<times> 'd option" where
  "Migrate exec content database =
     (case database of
        None \<Rightarrow> (Some (errors_New ''mysql database is nil''), None)
      | Some d \<Rightarrow>
          (case content of
             Inl err \<Rightarrow> (Some (errors_Wrap ''read mysql migration: '' err), Some d)
           | Inr s \<Rightarrow> (case migrate_loop exec (Split (CHR '';'') s) d of (res, d') \<Rightarrow> (res, Some d'))))"

text \<open>A migration that succeeds has run exactly the non-empty statements of the file, in order.\<close>

lemma migrate_loop_runs:
  "migrate_loop exec ss d = (None, d') \<Longrightarrow>
   d' = fold (\<lambda>s d. snd (exec s d)) (filter (\<lambda>s. s \<noteq> '''') (map TrimSpace ss)) d"
proof (induction ss arbitrary: d)
  case (Cons s ss)
  then show ?case by (cases "exec (TrimSpace s) d") (auto simp: Let_def split: if_splits option.splits)
qed simp

section \<open>Both records or none\<close>

text \<open>The tables after a boot and after a status report.\<close>

definition booted :: "(time \<Rightarrow> time) \<Rightarrow> Station \<Rightarrow> tables \<Rightarrow> tables" where
  "booted dt st tb = tb\<lparr>tb_stations := (tb_stations tb)(st_Identity st \<mapsto> kept_station dt st),
     tb_boot_events := tb_boot_events tb @ [kept_station dt st]\<rparr>"

definition reported :: "(time \<Rightarrow> time) \<Rightarrow> ConnectorStatus \<Rightarrow> tables \<Rightarrow> tables" where
  "reported dt cs tb = tb\<lparr>tb_connectors := (tb_connectors tb)(connector_key cs \<mapsto> kept_connector dt cs),
     tb_status_events := tb_status_events tb @ [kept_connector dt cs]\<rparr>"

lemma boot_effects:
  assumes "sql_effect dt (Upsert_station st) tb = Some tb1" "sql_effect dt (Insert_boot_event st) tb1 = Some tb2"
  shows "tb2 = booted dt st tb"
  using assms by (auto simp: sql_effect_def booted_def split: if_splits)

lemma report_effects:
  assumes "sql_effect dt (Upsert_connector cs) tb = Some tb1" "sql_effect dt (Insert_status_event cs) tb1 = Some tb2"
  shows "tb2 = reported dt cs tb \<and> tb_stations tb (cs_StationIdentity cs) \<noteq> None"
  using assms by (auto simp: sql_effect_def reported_def split: if_splits)

context sql_database
begin

lemma UpsertStation_cases:
  assumes "mysql_UpsertStation Valid db st d = (res, d')"
  shows "res \<noteq> None \<and> tables d' = tables d \<or> ValidateStation Valid st = None \<and> tables d' = booted dt st (tables d)"
proof (cases "ValidateStation Valid st")
  case (Some err)
  then show ?thesis using assms by (auto simp: mysql_UpsertStation_def)
next
  case None
  obtain b d1 where b: "sql_BeginTx db d = (b, d1)" by fastforce
  show ?thesis
  proof (cases b)
    case (Inl err)
    then show ?thesis using assms None b begin_failed [of d err d1] by (auto simp: mysql_UpsertStation_def)
  next
    case (Inr x)
    have d1: "work x = tables d" "tables d1 = tables d" using begin_ok [of d x d1] b Inr by simp_all
    obtain e1 x1 where e1: "sql_ExecContext db (Upsert_station st) x = (e1, x1)" by fastforce
    obtain e2 x2 where e2: "sql_ExecContext db (Insert_boot_event st) x1 = (e2, x2)" by fastforce
    obtain e3 d2 where e3: "sql_Commit db x2 d1 = (e3, d2)" by fastforce
    show ?thesis
    proof (cases "e1 = None \<and> e2 = None")
      case True
      then have "work x2 = booted dt st (tables d)"
        using exec_ok [of "Upsert_station st" x x1] exec_ok [of "Insert_boot_event st" x1 x2] e1 e2 d1 boot_effects by metis
      then show ?thesis
        using assms None b Inr e1 e2 e3 True d1 commit_ok [of x2 d1 d2] commit_failed [of x2 d1 _ d2]
        by (cases e3) (auto simp: mysql_UpsertStation_def)
    next
      case False
      then show ?thesis
        using assms None b Inr e1 e2 d1 rollback by (cases e1; cases e2) (auto simp: mysql_UpsertStation_def)
    qed
  qed
qed

lemma UpdateConnectorStatus_cases:
  assumes "mysql_UpdateConnectorStatus Valid db cs d = (res, d')"
  shows "res \<noteq> None \<and> tables d' = tables d \<or>
    ValidateConnectorStatus Valid cs = None \<and> tables d' = reported dt cs (tables d) \<and>
    tb_stations (tables d) (cs_StationIdentity cs) \<noteq> None"
proof (cases "ValidateConnectorStatus Valid cs")
  case (Some err)
  then show ?thesis using assms by (auto simp: mysql_UpdateConnectorStatus_def)
next
  case None
  obtain b d1 where b: "sql_BeginTx db d = (b, d1)" by fastforce
  show ?thesis
  proof (cases b)
    case (Inl err)
    then show ?thesis using assms None b begin_failed [of d err d1] by (auto simp: mysql_UpdateConnectorStatus_def)
  next
    case (Inr x)
    have d1: "work x = tables d" "tables d1 = tables d" using begin_ok [of d x d1] b Inr by simp_all
    obtain e1 x1 where e1: "sql_ExecContext db (Upsert_connector cs) x = (e1, x1)" by fastforce
    obtain e2 x2 where e2: "sql_ExecContext db (Insert_status_event cs) x1 = (e2, x2)" by fastforce
    obtain e3 d2 where e3: "sql_Commit db x2 d1 = (e3, d2)" by fastforce
    show ?thesis
    proof (cases "e1 = None \<and> e2 = None")
      case True
      then have "work x2 = reported dt cs (tables d) \<and> tb_stations (tables d) (cs_StationIdentity cs) \<noteq> None"
        using exec_ok [of "Upsert_connector cs" x x1] exec_ok [of "Insert_status_event cs" x1 x2] e1 e2 d1 report_effects by metis
      then show ?thesis
        using assms None b Inr e1 e2 e3 True d1 commit_ok [of x2 d1 d2] commit_failed [of x2 d1 _ d2]
        by (cases e3) (auto simp: mysql_UpdateConnectorStatus_def)
    next
      case False
      then show ?thesis
        using assms None b Inr e1 e2 d1 rollback by (cases e1; cases e2) (auto simp: mysql_UpdateConnectorStatus_def)
    qed
  qed
qed

end

section \<open>The adapter as a repository\<close>

sublocale sql_database \<subseteq> mysql: station_repository "\<lambda>_. mysql_UpsertStation Valid db" "\<lambda>_. mysql_UpdateConnectorStatus Valid db"
  "\<lambda>d. tb_stations (tables d)" "\<lambda>d. tb_connectors (tables d)" dt Valid for Valid
proof unfold_locales
  fix st d d' err and e :: unit
  show "mysql_UpsertStation Valid db st d = (None, d') \<Longrightarrow>
      ValidateStation Valid st = None \<and>
      tb_stations (tables d') = (tb_stations (tables d))(st_Identity st \<mapsto> st\<lparr>st_LastBootAt := dt (st_LastBootAt st)\<rparr>) \<and>
      tb_connectors (tables d') = tb_connectors (tables d)"
    by (drule UpsertStation_cases) (auto simp: booted_def kept_station_def)
  show "mysql_UpsertStation Valid db st d = (Some err, d') \<Longrightarrow>
      tb_connectors (tables d') = tb_connectors (tables d) \<and>
      (tb_stations (tables d') = tb_stations (tables d) \<or>
       ValidateStation Valid st = None \<and>
       tb_stations (tables d') = (tb_stations (tables d))(st_Identity st \<mapsto> st\<lparr>st_LastBootAt := dt (st_LastBootAt st)\<rparr>))"
    by (drule UpsertStation_cases) (auto simp: booted_def kept_station_def)
next
  fix cs d d' err and e :: unit
  show "mysql_UpdateConnectorStatus Valid db cs d = (None, d') \<Longrightarrow>
      ValidateConnectorStatus Valid cs = None \<and> tb_stations (tables d') = tb_stations (tables d) \<and>
      tb_connectors (tables d') = (tb_connectors (tables d))(connector_key cs \<mapsto>
        cs\<lparr>cs_OccurredAt := dt (cs_OccurredAt cs), cs_ReceivedAt := dt (cs_ReceivedAt cs)\<rparr>)"
    by (drule UpdateConnectorStatus_cases) (auto simp: reported_def kept_connector_def)
  show "mysql_UpdateConnectorStatus Valid db cs d = (Some err, d') \<Longrightarrow>
      tb_stations (tables d') = tb_stations (tables d) \<and>
      (tb_connectors (tables d') = tb_connectors (tables d) \<or>
       ValidateConnectorStatus Valid cs = None \<and>
       tb_connectors (tables d') = (tb_connectors (tables d))(connector_key cs \<mapsto>
         cs\<lparr>cs_OccurredAt := dt (cs_OccurredAt cs), cs_ReceivedAt := dt (cs_ReceivedAt cs)\<rparr>))"
    by (drule UpdateConnectorStatus_cases) (auto simp: reported_def kept_connector_def)
qed

section \<open>Runs\<close>

datatype repo_call = Boot Station | Report ConnectorStatus

definition mysql_call :: "(version \<Rightarrow> bool) \<Rightarrow> ('d, 'x) sql \<Rightarrow> repo_call \<Rightarrow> 'd \<Rightarrow> error option \<times> 'd" where
  "mysql_call Valid db c d =
     (case c of Boot st \<Rightarrow> mysql_UpsertStation Valid db st d | Report cs \<Rightarrow> mysql_UpdateConnectorStatus Valid db cs d)"

fun mysql_run :: "(version \<Rightarrow> bool) \<Rightarrow> ('d, 'x) sql \<Rightarrow> repo_call list \<Rightarrow> 'd \<Rightarrow> 'd" where
  "mysql_run Valid db [] d = d"
| "mysql_run Valid db (c # cs) d = mysql_run Valid db cs (snd (mysql_call Valid db c d))"

text \<open>The current rows are what the event logs say: the last event of each station and connector.\<close>

definition rows_follow_events :: "tables \<Rightarrow> bool" where
  "rows_follow_events tb \<longleftrightarrow>
     tb_stations tb = map_of (map (\<lambda>st. (st_Identity st, st)) (rev (tb_boot_events tb))) \<and>
     tb_connectors tb = map_of (map (\<lambda>cs. (connector_key cs, cs)) (rev (tb_status_events tb))) \<and>
     (\<forall>cs \<in> set (tb_status_events tb). tb_stations tb (cs_StationIdentity cs) \<noteq> None)"

lemma kept_keys [simp]:
  "st_Identity (kept_station dt st) = st_Identity st" "connector_key (kept_connector dt cs) = connector_key cs"
  "cs_StationIdentity (kept_connector dt cs) = cs_StationIdentity cs"
  by (simp_all add: kept_station_def kept_connector_def connector_key_def)

lemma booted_follows: "rows_follow_events tb \<Longrightarrow> rows_follow_events (booted dt st tb)"
  by (auto simp: rows_follow_events_def booted_def)

lemma reported_follows:
  "rows_follow_events tb \<Longrightarrow> tb_stations tb (cs_StationIdentity cs) \<noteq> None \<Longrightarrow> rows_follow_events (reported dt cs tb)"
  by (auto simp: rows_follow_events_def reported_def)

context sql_database
begin

lemma call_follows:
  "rows_follow_events (tables d) \<Longrightarrow> rows_follow_events (tables (snd (mysql_call Valid db c d)))"
proof (cases c)
  case (Boot st)
  moreover assume "rows_follow_events (tables d)"
  ultimately show ?thesis
    using UpsertStation_cases [of Valid st d] booted_follows
    by (cases "mysql_UpsertStation Valid db st d") (auto simp: mysql_call_def)
next
  case (Report cs)
  moreover assume "rows_follow_events (tables d)"
  ultimately show ?thesis
    using UpdateConnectorStatus_cases [of Valid cs d] reported_follows
    by (cases "mysql_UpdateConnectorStatus Valid db cs d") (auto simp: mysql_call_def)
qed

lemma run_follows: "rows_follow_events (tables d) \<Longrightarrow> rows_follow_events (tables (mysql_run Valid db cs d))"
  by (induction cs arbitrary: d) (simp_all add: call_follows)

end

text \<open>C32: whatever calls the MySQL adapter gets, and whichever of its transactions fail at whatever
  point (a commit whose answer is lost included), the current rows of stations and connectors are
  always exactly what the event logs record last for them, and every reported connector belongs to
  a stored station.\<close>

theorem mysql_rows_follow_events:
  assumes "sql_database db tables work dt" "tables d = \<lparr>tb_stations = Map.empty, tb_boot_events = [], tb_connectors = Map.empty,
      tb_status_events = []\<rparr>"
  shows "rows_follow_events (tables (mysql_run Valid db cs d))"
  by (rule sql_database.run_follows [OF assms(1)]) (simp add: assms(2) rows_follow_events_def)

section \<open>Refinement of the in-process adapter\<close>

definition memory_view :: "tables \<Rightarrow> MemoryStore" where
  "memory_view tb = \<lparr>ms_stations = tb_stations tb, ms_connectors = tb_connectors tb\<rparr>"

definition kept_call :: "(time \<Rightarrow> time) \<Rightarrow> repo_call \<Rightarrow> repo_call" where
  "kept_call dt c = (case c of Boot st \<Rightarrow> Boot (kept_station dt st) | Report cs \<Rightarrow> Report (kept_connector dt cs))"

definition memory_call :: "(version \<Rightarrow> bool) \<Rightarrow> error option \<Rightarrow> repo_call \<Rightarrow> MemoryStore \<Rightarrow> error option \<times> MemoryStore" where
  "memory_call Valid ctxErr c s =
     (case c of Boot st \<Rightarrow> mem_UpsertStation Valid ctxErr st s | Report cs \<Rightarrow> mem_UpdateConnectorStatus Valid ctxErr cs s)"

definition call_time :: "repo_call \<Rightarrow> time" where
  "call_time c = (case c of Boot st \<Rightarrow> st_LastBootAt st | Report cs \<Rightarrow> cs_ReceivedAt cs)"


section \<open>A database that meets the contract\<close>

text \<open>Tables with a count of the transactions begun; every third transaction fails to commit after
  having done so. Times are kept in whole microseconds.\<close>

definition micro :: "time \<Rightarrow> time" where
  "micro t = t div 1000 * 1000"

definition table_sql :: "(tables \<times> nat, tables) sql" where
  "table_sql = \<lparr>sql_BeginTx = \<lambda>(tb, n). (Inr tb, (tb, Suc n)),
     sql_ExecContext = \<lambda>stmt tb. (case sql_effect micro stmt tb of Some tb' \<Rightarrow> (None, tb') | None \<Rightarrow> (Some (errors_New ''foreign key''), tb)),
     sql_Commit = \<lambda>tb (_, n). (if n mod 3 = 0 then Some (errors_New ''EOF'') else None, (tb, n)),
     sql_Rollback = \<lambda>_ d. d\<rparr>"

interpretation table_db: sql_database table_sql fst "\<lambda>tb. tb" micro
  by unfold_locales (auto simp: table_sql_def split: option.splits)

definition no_tables :: "tables \<times> nat" where
  "no_tables = (\<lparr>tb_stations = Map.empty, tb_boot_events = [], tb_connectors = Map.empty, tb_status_events = []\<rparr>, 0)"

definition demo_station :: Station where
  "demo_station = \<lparr>st_Identity = ''cp1'', st_Version = OCPP16, st_Vendor = ''v'', st_Model = ''m'', st_SerialNumber = '''',
     st_FirmwareVersion = '''', st_BootReason = '''', st_LastBootAt = 1234567\<rparr>"

lemma mysql_rows_follow_events_witness:
  "rows_follow_events (fst (mysql_run (\<lambda>_. True) table_sql [Boot demo_station, Boot demo_station, Boot demo_station, Boot demo_station] no_tables)) \<and>
   length (tb_boot_events (fst (mysql_run (\<lambda>_. True) table_sql [Boot demo_station, Boot demo_station, Boot demo_station, Boot demo_station] no_tables))) = 4"
proof -
  have "rows_follow_events (fst (mysql_run (\<lambda>_. True) table_sql [Boot demo_station, Boot demo_station, Boot demo_station, Boot demo_station] no_tables))"
    by (rule mysql_rows_follow_events [OF table_db.sql_database_axioms]) (simp add: no_tables_def)
  then show ?thesis
    by (simp add: mysql_call_def mysql_UpsertStation_def ValidateStation_def demo_station_def table_sql_def sql_effect_def
        no_tables_def IsZero_def zero_time_def kept_station_def)
qed


end
