(* ===== verification/Handlers.thy ===== *)
theory Handlers
  imports Station_Store Mysql_Store Calendar
begin

text \<open>
  The OCPP handlers of the runtime (internal/handlers/core.go): boot, heartbeat and status
  notifications of the three protocol versions, over a repository. Requests are records of the
  fields the code reads; \<open>ctx\<close> is what the repository call meets, \<open>now\<close> the clock's reading.
  Registering the handlers with the library's router and the log output are not modelled.
\<close>

section \<open>Helpers\<close>

definition now_text :: "time \<Rightarrow> string" where
  "now_text now = format_RFC3339 now"

definition formatTime :: "time \<Rightarrow> string" where
  "formatTime t = format_RFC3339 t"

definition value_of :: "string option \<Rightarrow> string" where
  "value_of pointer = (case pointer of None \<Rightarrow> '''' | Some s \<Rightarrow> s)"

fun firstString :: "string option list \<Rightarrow> string" where
  "firstString [] = ''''"
| "firstString (candidate # rest) =
     (case candidate of Some s \<Rightarrow> if s \<noteq> '''' then s else firstString rest | None \<Rightarrow> firstString rest)"

definition requiredTime :: "string \<Rightarrow> time \<Rightarrow> time" where
  "requiredTime val fallback = (case parse_RFC3339 False val of None \<Rightarrow> fallback | Some parsed \<Rightarrow> parsed)"

definition optionalTime :: "string option \<Rightarrow> time \<Rightarrow> time" where
  "optionalTime val fallback = (case val of None \<Rightarrow> fallback | Some s \<Rightarrow> requiredTime s fallback)"

section \<open>Requests and confirmations\<close>

record boot_request16 =
  b16_ChargePointVendor :: string
  b16_ChargePointModel :: string
  b16_ChargePointSerialNumber :: "string option"
  b16_ChargeBoxSerialNumber :: "string option"
  b16_FirmwareVersion :: "string option"

record boot_request2 =
  b2_VendorName :: string
  b2_Model :: string
  b2_SerialNumber :: "string option"
  b2_FirmwareVersion :: "string option"
  b2_Reason :: string

record boot_confirmation =
  bc_CurrentTime :: string
  bc_Interval :: int
  bc_Status :: string

record status_request16 =
  s16_ConnectorID :: int
  s16_Status :: string
  s16_ErrorCode :: string
  s16_Timestamp :: "string option"

record status_request2 =
  s2_EVSEID :: int
  s2_ConnectorID :: int
  s2_ConnectorStatus :: string
  s2_Timestamp :: string

record session_info =
  si_Identity :: string
  si_Version :: version

section \<open>The handlers\<close>

definition boot16 ::
  "('e \<Rightarrow> Station \<Rightarrow> 's \<Rightarrow> error option \<times> 's) \<Rightarrow> int \<Rightarrow> 'e \<Rightarrow> time \<Rightarrow> session_info \<Rightarrow> boot_request16 \<Rightarrow> 's \<Rightarrow>
   (boot_confirmation \<times> error option) \<times> 's" where
  "boot16 upsert interval ctx bootedAt session request s =
     (case upsert ctx
             \<lparr>st_Identity = si_Identity session, st_Version = si_Version session,
              st_Vendor = b16_ChargePointVendor request, st_Model = b16_ChargePointModel request,
              st_SerialNumber = firstString [b16_ChargePointSerialNumber request, b16_ChargeBoxSerialNumber request],
              st_FirmwareVersion = value_of (b16_FirmwareVersion request), st_BootReason = '''', st_LastBootAt = bootedAt\<rparr> s of
        (err, s') \<Rightarrow>
          ((\<lparr>bc_CurrentTime = formatTime bootedAt, bc_Interval = interval, bc_Status = ''Accepted''\<rparr>, err), s'))"

definition boot201 ::
  "('e \<Rightarrow> Station \<Rightarrow> 's \<Rightarrow> error option \<times> 's) \<Rightarrow> int \<Rightarrow> 'e \<Rightarrow> time \<Rightarrow> session_info \<Rightarrow> boot_request2 \<Rightarrow> 's \<Rightarrow>
   (boot_confirmation \<times> error option) \<times> 's" where
  "boot201 upsert interval ctx bootedAt session request s =
     (case upsert ctx
             \<lparr>st_Identity = si_Identity session, st_Version = si_Version session,
              st_Vendor = b2_VendorName request, st_Model = b2_Model request,
              st_SerialNumber = value_of (b2_SerialNumber request),
              st_FirmwareVersion = value_of (b2_FirmwareVersion request), st_BootReason = b2_Reason request,
              st_LastBootAt = bootedAt\<rparr> s of
        (err, s') \<Rightarrow>
          ((\<lparr>bc_CurrentTime = formatTime bootedAt, bc_Interval = interval, bc_Status = ''Accepted''\<rparr>, err), s'))"

definition boot21 ::
  "('e \<Rightarrow> Station \<Rightarrow> 's \<Rightarrow> error option \<times> 's) \<Rightarrow> int \<Rightarrow> 'e \<Rightarrow> time \<Rightarrow> session_info \<Rightarrow> boot_request2 \<Rightarrow> 's \<Rightarrow>
   (boot_confirmation \<times> error option) \<times> 's" where
  "boot21 upsert interval ctx bootedAt session request s =
     (case upsert ctx
             \<lparr>st_Identity = si_Identity session, st_Version = si_Version session,
              st_Vendor = b2_VendorName request, st_Model = b2_Model request,
              st_SerialNumber = value_of (b2_SerialNumber request),
              st_FirmwareVersion = value_of (b2_FirmwareVersion request), st_BootReason = b2_Reason request,
              st_LastBootAt = bootedAt\<rparr> s of
        (err, s') \<Rightarrow>
          ((\<lparr>bc_CurrentTime = formatTime bootedAt, bc_Interval = interval, bc_Status = ''Accepted''\<rparr>, err), s'))"

definition heartbeat16 :: "time \<Rightarrow> string" where
  "heartbeat16 now = now_text now"

definition heartbeat201 :: "time \<Rightarrow> string" where
  "heartbeat201 now = now_text now"

definition heartbeat21 :: "time \<Rightarrow> string" where
  "heartbeat21 now = now_text now"

definition status16 ::
  "('e \<Rightarrow> ConnectorStatus \<Rightarrow> 's \<Rightarrow> error option \<times> 's) \<Rightarrow> 'e \<Rightarrow> time \<Rightarrow> session_info \<Rightarrow> status_request16 \<Rightarrow> 's \<Rightarrow>
   error option \<times> 's" where
  "status16 update ctx receivedAt session request s =
     update ctx
       \<lparr>cs_StationIdentity = si_Identity session, cs_Version = si_Version session, cs_EVSEID = 0,
        cs_ConnectorID = s16_ConnectorID request, cs_Status = s16_Status request, cs_ErrorCode = s16_ErrorCode request,
        cs_OccurredAt = optionalTime (s16_Timestamp request) receivedAt, cs_ReceivedAt = receivedAt\<rparr> s"

definition status201 ::
  "('e \<Rightarrow> ConnectorStatus \<Rightarrow> 's \<Rightarrow> error option \<times> 's) \<Rightarrow> 'e \<Rightarrow> time \<Rightarrow> session_info \<Rightarrow> status_request2 \<Rightarrow> 's \<Rightarrow>
   error option \<times> 's" where
  "status201 update ctx receivedAt session request s =
     update ctx
       \<lparr>cs_StationIdentity = si_Identity session, cs_Version = si_Version session, cs_EVSEID = s2_EVSEID request,
        cs_ConnectorID = s2_ConnectorID request, cs_Status = s2_ConnectorStatus request, cs_ErrorCode = '''',
        cs_OccurredAt = requiredTime (s2_Timestamp request) receivedAt, cs_ReceivedAt = receivedAt\<rparr> s"

definition status21 ::
  "('e \<Rightarrow> ConnectorStatus \<Rightarrow> 's \<Rightarrow> error option \<times> 's) \<Rightarrow> 'e \<Rightarrow> time \<Rightarrow> session_info \<Rightarrow> status_request2 \<Rightarrow> 's \<Rightarrow>
   error option \<times> 's" where
  "status21 update ctx receivedAt session request s =
     update ctx
       \<lparr>cs_StationIdentity = si_Identity session, cs_Version = si_Version session, cs_EVSEID = s2_EVSEID request,
        cs_ConnectorID = s2_ConnectorID request, cs_Status = s2_ConnectorStatus request, cs_ErrorCode = '''',
        cs_OccurredAt = requiredTime (s2_Timestamp request) receivedAt, cs_ReceivedAt = receivedAt\<rparr> s"

text \<open>
  \<open>Register\<close>: the twelve calls of the library (a profile per version, then the handlers) happen in
  order until one fails; their outcomes are the library's.
\<close>

definition Register :: "bool \<Rightarrow> bool \<Rightarrow> error option list \<Rightarrow> error option" where
  "Register router_is_nil repository_is_nil outcomes =
     (if router_is_nil then Some (errors_New ''router is nil'')
      else if repository_is_nil then Some (errors_New ''station repository is nil'')
      else Option.bind (find (\<lambda>r. r \<noteq> None) outcomes) id)"

section \<open>What the handlers store\<close>

text \<open>A station's own timestamp is taken when it is RFC 3339, the time of receipt otherwise.\<close>

lemma requiredTime_formatted: "four_digit_year t \<Longrightarrow> requiredTime (format_RFC3339Nano t) fallback = t"
  by (simp add: requiredTime_def parse_RFC3339Nano)

lemma requiredTime_garbage: "parse_RFC3339 False val = None \<Longrightarrow> requiredTime val fallback = fallback"
  by (simp add: requiredTime_def)

lemma formatTime_parses: "four_digit_year t \<Longrightarrow> parse_RFC3339 strict (formatTime t) = Some (t div second * second)"
  by (simp add: formatTime_def parse_RFC3339_seconds)

context station_repository
begin

lemma boot16_stores:
  assumes "boot16 upsert interval e t session request s = ((conf, None), s')"
  shows "station s' = (station s)(si_Identity session \<mapsto>
      \<lparr>st_Identity = si_Identity session, st_Version = si_Version session,
       st_Vendor = b16_ChargePointVendor request, st_Model = b16_ChargePointModel request,
       st_SerialNumber = firstString [b16_ChargePointSerialNumber request, b16_ChargeBoxSerialNumber request],
       st_FirmwareVersion = value_of (b16_FirmwareVersion request), st_BootReason = '''', st_LastBootAt = kept_time t\<rparr>)"
    and "conf = \<lparr>bc_CurrentTime = formatTime t, bc_Interval = interval, bc_Status = ''Accepted''\<rparr>"
  using assms by (auto simp: boot16_def split: prod.splits dest: upsert_ok)

lemma boot2_stores:
  assumes "boot201 upsert interval e t session request s = ((conf, None), s') \<or> boot21 upsert interval e t session request s = ((conf, None), s')"
  shows "station s' = (station s)(si_Identity session \<mapsto>
      \<lparr>st_Identity = si_Identity session, st_Version = si_Version session, st_Vendor = b2_VendorName request,
       st_Model = b2_Model request, st_SerialNumber = value_of (b2_SerialNumber request),
       st_FirmwareVersion = value_of (b2_FirmwareVersion request), st_BootReason = b2_Reason request,
       st_LastBootAt = kept_time t\<rparr>)"
    and "conf = \<lparr>bc_CurrentTime = formatTime t, bc_Interval = interval, bc_Status = ''Accepted''\<rparr>"
  using assms by (auto simp: boot201_def boot21_def split: prod.splits dest: upsert_ok)

lemma status16_stores:
  assumes "status16 update e t session request s = (None, s')"
  shows "connector s' = (connector s)(\<lparr>ck_StationIdentity = si_Identity session, ck_EVSEID = 0, ck_ConnectorID = s16_ConnectorID request\<rparr> \<mapsto>
      \<lparr>cs_StationIdentity = si_Identity session, cs_Version = si_Version session, cs_EVSEID = 0,
       cs_ConnectorID = s16_ConnectorID request, cs_Status = s16_Status request, cs_ErrorCode = s16_ErrorCode request,
       cs_OccurredAt = kept_time (optionalTime (s16_Timestamp request) t), cs_ReceivedAt = kept_time t\<rparr>)"
  using update_ok [OF assms [unfolded status16_def]] by (simp add: connector_key_def)

lemma status2_stores:
  assumes "status201 update e t session request s = (None, s') \<or> status21 update e t session request s = (None, s')"
  shows "connector s' = (connector s)(\<lparr>ck_StationIdentity = si_Identity session, ck_EVSEID = s2_EVSEID request,
        ck_ConnectorID = s2_ConnectorID request\<rparr> \<mapsto>
      \<lparr>cs_StationIdentity = si_Identity session, cs_Version = si_Version session, cs_EVSEID = s2_EVSEID request,
       cs_ConnectorID = s2_ConnectorID request, cs_Status = s2_ConnectorStatus request, cs_ErrorCode = '''',
       cs_OccurredAt = kept_time (requiredTime (s2_Timestamp request) t), cs_ReceivedAt = kept_time t\<rparr>)"
proof -
  have "update e \<lparr>cs_StationIdentity = si_Identity session, cs_Version = si_Version session, cs_EVSEID = s2_EVSEID request,
        cs_ConnectorID = s2_ConnectorID request, cs_Status = s2_ConnectorStatus request, cs_ErrorCode = '''',
        cs_OccurredAt = requiredTime (s2_Timestamp request) t, cs_ReceivedAt = t\<rparr> s = (None, s')"
    using assms by (auto simp: status201_def status21_def)
  from update_ok [OF this] show ?thesis by (simp add: connector_key_def)
qed

end

text \<open>The MySQL adapter is a repository in the sense of the contract.\<close>

context sql_database
begin

lemma repository:
  "station_repository (\<lambda>_ :: unit. mysql_UpsertStation Valid db) (\<lambda>_. mysql_UpdateConnectorStatus Valid db)
     (\<lambda>d. tb_stations (tables d)) (\<lambda>d. tb_connectors (tables d)) dt Valid"
  by unfold_locales

end

lemmas mysql_repository = sql_database.repository


definition demo_boot :: boot_request16 where
  "demo_boot = \<lparr>b16_ChargePointVendor = ''v'', b16_ChargePointModel = ''m'', b16_ChargePointSerialNumber = Some '''',
     b16_ChargeBoxSerialNumber = Some ''42'', b16_FirmwareVersion = None\<rparr>"

definition demo_session_info :: session_info where
  "demo_session_info = \<lparr>si_Identity = ''cp1'', si_Version = OCPP16\<rparr>"

lemma demo_four_digits: "four_digit_year 1500000500"
  by (simp add: four_digit_year_def civil_def year_of_def unix_days_def year_scan.simps days_before_year_def
      month_scan.simps Let_def)



definition demo_status :: status_request2 where
  "demo_status = \<lparr>s2_EVSEID = 1, s2_ConnectorID = 2, s2_ConnectorStatus = ''Available'', s2_Timestamp = ''yesterday''\<rparr>"


end
