(* ===== verification/Durations.thy ===== *)
theory Durations
  imports Prelude
begin

text \<open>
  \<open>time.ParseDuration\<close>, which the runtime's configuration calls: its scanner, its overflow checks and
  the 64-bit wrap of the sum. Fractions go through float64 there; the model rounds each operation to
  53 significant bits, ties to even. The exponent is unbounded: where the code's scale factor leaves the
  range of float64 (a fraction that starts with over three hundred zeros), both give zero nanoseconds.
\<close>

section \<open>Rounding to float64\<close>

text \<open>A float \<open>(m, e)\<close> is \<open>m * 2 ^ e\<close>.\<close>

type_synonym float64 = "int \<times> int"

function bits :: "int \<Rightarrow> int" where
  "bits n = (if n \<le> 0 then 0 else 1 + bits (n div 2))"
  by pat_completeness auto
termination by (relation "measure nat") auto

declare bits.simps [simp del]

definition half_even :: "int \<Rightarrow> int \<Rightarrow> int" where
  "half_even a b =
     (let q = a div b; r = a mod b in
      if 2 * r < b \<or> (2 * r = b \<and> even q) then q else q + 1)"

text \<open>The quotient of two positive integers, rounded.\<close>

definition round_ratio :: "int \<Rightarrow> int \<Rightarrow> float64" where
  "round_ratio a b =
     (let at = (\<lambda>e. if 0 \<le> e then (a, b * 2 ^ nat e) else (a * 2 ^ nat (- e), b));
          e0 = bits a - bits b - 53;
          e = (case at e0 of (x, y) \<Rightarrow> if 2 ^ 53 * y \<le> x then e0 + 1 else e0)
      in case at e of (x, y) \<Rightarrow> (half_even x y, e))"

definition float_of :: "int \<Rightarrow> float64" where
  "float_of n = (if n = 0 then (0, 0) else round_ratio n 1)"

definition float_mult :: "float64 \<Rightarrow> float64 \<Rightarrow> float64" where
  "float_mult x y =
     (case (x, y) of ((m, e), (n, f)) \<Rightarrow>
        if m * n = 0 then (0, 0) else (case round_ratio (m * n) 1 of (p, g) \<Rightarrow> (p, g + e + f)))"

definition float_div :: "float64 \<Rightarrow> float64 \<Rightarrow> float64" where
  "float_div x y =
     (case (x, y) of ((m, e), (n, f)) \<Rightarrow>
        if m = 0 then (0, 0) else (case round_ratio m n of (p, g) \<Rightarrow> (p, g + e - f)))"

definition float_trunc :: "float64 \<Rightarrow> int" where
  "float_trunc x = (case x of (m, e) \<Rightarrow> if 0 \<le> e then m * 2 ^ nat e else m div 2 ^ nat (- e))"

section \<open>Parsing\<close>

abbreviation (input) "max63 \<equiv> (9223372036854775808 :: int)"

fun leadingInt :: "int \<Rightarrow> string \<Rightarrow> (int \<times> string) option" where
  "leadingInt x [] = Some (x, [])"
| "leadingInt x (c # cs) =
     (case digit_val c of
        None \<Rightarrow> Some (x, c # cs)
      | Some d \<Rightarrow>
          if max63 div 10 < x then None
          else if max63 < 10 * x + int d then None
          else leadingInt (10 * x + int d) cs)"

fun leadingFraction :: "int \<Rightarrow> float64 \<Rightarrow> bool \<Rightarrow> string \<Rightarrow> int \<times> float64 \<times> string" where
  "leadingFraction x scale overflow [] = (x, scale, [])"
| "leadingFraction x scale overflow (c # cs) =
     (case digit_val c of
        None \<Rightarrow> (x, scale, c # cs)
      | Some d \<Rightarrow>
          if overflow then leadingFraction x scale True cs
          else if (max63 - 1) div 10 < x then leadingFraction x scale True cs
          else if max63 < 10 * x + int d then leadingFraction x scale True cs
          else leadingFraction (10 * x + int d) (float_mult scale (float_of 10)) False cs)"

text \<open>The units; the micro sign and the Greek mu are two bytes each.\<close>

definition unitMap :: "(string \<times> int) list" where
  "unitMap =
     [(''ns'', 1), (''us'', 1000), ([CHR 0xC2, CHR 0xB5, CHR ''s''], 1000),
      ([CHR 0xCE, CHR 0xBC, CHR ''s''], 1000), (''ms'', 1000000),
      (''s'', 1000000000), (''m'', 60000000000), (''h'', 3600000000000)]"

definition unit_char :: "char \<Rightarrow> bool" where
  "unit_char c \<longleftrightarrow> c \<noteq> CHR ''.'' \<and> digit_val c = None"

text \<open>One number with its unit: the nanoseconds and the rest of the text.\<close>

definition duration_part :: "string \<Rightarrow> (int \<times> string) option" where
  "duration_part s =
     (if s = [] \<or> (hd s \<noteq> CHR ''.'' \<and> digit_val (hd s) = None) then None
      else
        (case leadingInt 0 s of
           None \<Rightarrow> None
         | Some (v, s1) \<Rightarrow>
             (let pre = (length s1 \<noteq> length s);
                  dot = (s1 \<noteq> [] \<and> hd s1 = CHR ''.'');
                  (f, scale, s2) = (if dot then leadingFraction 0 (1, 0) False (tl s1) else (0, (1, 0), s1));
                  post = (dot \<and> length s2 \<noteq> length (tl s1))
              in if \<not> pre \<and> \<not> post then None
                 else
                   (let u = takeWhile unit_char s2; s3 = dropWhile unit_char s2 in
                    if u = [] then None
                    else
                      (case map_of unitMap u of
                         None \<Rightarrow> None
                       | Some unit_ns \<Rightarrow>
                           if max63 div unit_ns < v then None
                           else
                             (let w = v * unit_ns;
                                  w' = (if 0 < f then w + float_trunc (float_mult (float_of f) (float_div (float_of unit_ns) scale)) else w)
                              in if 0 < f \<and> max63 < w' then None else Some (w', s3)))))))"

lemma leadingInt_length: "leadingInt x s = Some (v, r) \<Longrightarrow> length r \<le> length s"
  by (induction x s rule: leadingInt.induct) (auto split: option.splits if_splits)

lemma leadingFraction_length: "leadingFraction x sc ov s = (f, sc', r) \<Longrightarrow> length r \<le> length s"
  by (induction x sc ov s rule: leadingFraction.induct) (auto split: option.splits if_splits)

lemma duration_part_shorter: "duration_part s = Some (w, s') \<Longrightarrow> length s' < length s"
proof -
  assume part: "duration_part s = Some (w, s')"
  then obtain v s1 where lead: "leadingInt 0 s = Some (v, s1)"
    by (auto simp: duration_part_def split: if_splits option.splits)
  define dot where "dot = (s1 \<noteq> [] \<and> hd s1 = CHR ''.'')"
  obtain f sc s2 where frac: "(if dot then leadingFraction 0 (1, 0) False (tl s1) else (0, (1, 0), s1)) = (f, sc, s2)"
    by (cases "if dot then leadingFraction 0 (1, 0) False (tl s1) else (0, (1, 0), s1)") auto
  have s2: "length s2 \<le> length s"
    using leadingInt_length [OF lead] frac leadingFraction_length [of 0 "(1, 0)" False "tl s1" f sc s2]
    by (auto split: if_splits)
  have "takeWhile unit_char s2 \<noteq> [] \<and> s' = dropWhile unit_char s2"
    using part lead frac by (auto simp: duration_part_def Let_def dot_def split: if_splits option.splits prod.splits)
  then have "length s' < length s2"
    using takeWhile_dropWhile_id [of unit_char s2] by (metis length_append length_greater_0_conv less_add_same_cancel2)
  with s2 show ?thesis by simp
qed

text \<open>The sum of the parts; the addition is at 64 bits and can wrap at exactly \<open>2 ^ 64\<close>.\<close>

function duration_parts :: "int \<Rightarrow> string \<Rightarrow> int option" where
  "duration_parts d s =
     (if s = [] then Some d
      else
        (case duration_part s of
           None \<Rightarrow> None
         | Some (v, s') \<Rightarrow>
             (let d' = (d + v) mod 2 ^ 64 in if max63 < d' then None else duration_parts d' s')))"
  by pat_completeness auto
termination
  by (relation "measure (\<lambda>(d, s). length s)") (auto dest: duration_part_shorter)

declare duration_parts.simps [simp del]

definition ParseDuration :: "string \<Rightarrow> duration option" where
  "ParseDuration s0 =
     (let neg = (s0 \<noteq> [] \<and> hd s0 = CHR ''-'');
          s = (if s0 \<noteq> [] \<and> (hd s0 = CHR ''-'' \<or> hd s0 = CHR ''+'') then tl s0 else s0)
      in if s = ''0'' then Some 0
         else if s = '''' then None
         else
           (case duration_parts 0 s of
              None \<Rightarrow> None
            | Some d \<Rightarrow> if neg then Some (- d) else if max63 - 1 < d then None else Some d))"

section \<open>What durations mean\<close>

lemma leadingInt_showNat:
  "int n \<le> max63 \<Longrightarrow> rest = [] \<or> digit_val (hd rest) = None \<Longrightarrow> leadingInt 0 (showNat n @ rest) = Some (int n, rest)"
proof -
  have step: "int n \<le> max63 \<Longrightarrow> leadingInt 0 (showNat n @ rest) = leadingInt (int n) rest" for rest
  proof (induction n arbitrary: rest rule: showNat.induct)
    case (1 n)
    show ?case
    proof (cases "n < 10")
      case True
      then show ?thesis by (simp add: showNat.simps [of n])
    next
      case False
      have "int n = 10 * int (n div 10) + int (n mod 10)" by presburger
      with False 1 show ?thesis by (simp add: showNat.simps [of n])
    qed
  qed
  show "int n \<le> max63 \<Longrightarrow> rest = [] \<or> digit_val (hd rest) = None \<Longrightarrow> leadingInt 0 (showNat n @ rest) = Some (int n, rest)"
    using step [of "[]"] by (cases rest) (simp_all add: step)
qed

lemma unitMap_chars: "(u, k) \<in> set unitMap \<Longrightarrow> u \<noteq> [] \<and> list_all unit_char u \<and> 0 < k"
  by (auto simp: unitMap_def unit_char_def digit_val_def)

lemma unitMap_lookup: "(u, k) \<in> set unitMap \<Longrightarrow> map_of unitMap u = Some k"
  by (rule map_of_is_SomeI) (simp_all add: unitMap_def)

lemma hd_digit: "\<exists>d. digit_val (hd (showNat n)) = Some d"
  using hd_showNat [of n] by force

lemma duration_part_whole:
  assumes u: "(u, k) \<in> set unitMap" and n: "int n * k \<le> max63"
  shows "duration_part (showNat n @ u) = Some (int n * k, [])"
proof -
  note chars = unitMap_chars [OF u]
  have k: "0 < k" using chars by simp
  then have "int n * 1 \<le> int n * k" by (intro mult_left_mono) auto
  with n have "int n \<le> max63" by simp
  moreover have ndig: "u \<noteq> []" "digit_val (hd u) = None" "hd u \<noteq> CHR ''.''"
    using chars by (cases u; simp add: unit_char_def)+
  ultimately have lead: "leadingInt 0 (showNat n @ u) = Some (int n, u)"
    by (simp add: leadingInt_showNat)
  have all: "takeWhile unit_char u = u" "dropWhile unit_char u = []"
    using chars by (simp_all add: takeWhile_eq_all_conv list_all_iff)
  have "\<not> max63 div k < int n" using zdiv_mono1 [OF n k] k by simp
  moreover obtain d where "digit_val (hd (showNat n)) = Some d" using hd_digit by blast
  ultimately show ?thesis
    using unitMap_lookup [OF u] ndig by (simp add: duration_part_def lead all Let_def)
qed

text \<open>A whole number of units is that many nanoseconds, and every result is an int64.\<close>

lemma ParseDuration_whole:
  assumes u: "(u, k) \<in> set unitMap" and n: "int n * k < max63"
  shows "ParseDuration (showNat n @ u) = Some (int n * k)"
proof -
  have "hd (showNat n @ u) \<noteq> CHR ''-''" "hd (showNat n @ u) \<noteq> CHR ''+''"
    using hd_digit [of n] by (auto simp: digit_val_def)
  moreover have "showNat n @ u \<noteq> ''0''"
    using unitMap_chars [OF u] by (cases "showNat n") auto
  moreover have "duration_parts 0 (showNat n @ u) = Some (int n * k)"
  proof -
    have "0 \<le> int n * k" using unitMap_chars [OF u] by simp
    then have "(0 + int n * k) mod 2 ^ 64 = int n * k" using n by simp
    moreover have "duration_part (showNat n @ u) = Some (int n * k, [])"
      using n by (intro duration_part_whole [OF u]) simp
    ultimately show ?thesis using n by (simp add: duration_parts.simps)
  qed
  ultimately show ?thesis using n by (simp add: ParseDuration_def Let_def)
qed

lemma duration_parts_range: "duration_parts d s = Some x \<Longrightarrow> 0 \<le> d \<Longrightarrow> d \<le> max63 \<Longrightarrow> 0 \<le> x \<and> x \<le> max63"
proof (induction d s rule: duration_parts.induct)
  case (1 d s)
  show ?case
  proof (cases "s = []")
    case True
    with 1 show ?thesis by (simp add: duration_parts.simps)
  next
    case False
    with "1.prems" obtain v s' where part: "duration_part s = Some (v, s')" "\<not> max63 < (d + v) mod 2 ^ 64"
      "duration_parts ((d + v) mod 2 ^ 64) s' = Some x"
      by (auto simp: duration_parts.simps [of d s] Let_def split: option.splits if_splits)
    show ?thesis using "1.IH" [OF False part(1) _ refl] part by simp
  qed
qed

lemma ParseDuration_range [go_dest]: "ParseDuration s = Some d \<Longrightarrow> - max63 \<le> d \<and> d < max63"
  using duration_parts_range [of 0] by (fastforce simp: ParseDuration_def Let_def split: if_splits option.splits)

lemma ParseDuration_examples:
  "ParseDuration ''1.5h'' = Some 5400000000000"
  "ParseDuration ''1m30.25s'' = Some 90250000000"
  "ParseDuration ''.3ms'' = Some 300000"
  "ParseDuration ''-2us'' = Some (- 2000)"
  "ParseDuration ''10'' = None"
  by code_simp+

end
