(* ===== verification/Net.thy ===== *)
theory Net
  imports Prelude
begin

text \<open>
  The functions of Go's package net that the runtime calls on addresses: \<open>ParseIP\<close>, \<open>ParseCIDR\<close>,
  \<open>(*IPNet).Contains\<close> and \<open>SplitHostPort\<close>. An address is its bytes, most significant first. What the
  clients rest on: dotted addresses and prefixes parse to what they say, and the bytewise comparison
  under a mask is agreement on the leading bits of the number an address denotes (\<open>same_prefix\<close>).
\<close>

unbundle bit_operations_syntax

type_synonym octet = "8 word"

section \<open>Textual addresses\<close>

text \<open>Four decimal fields; \<open>digLen\<close> is zero at the start of a field.\<close>

fun v4_loop :: "nat \<Rightarrow> nat \<Rightarrow> octet list \<Rightarrow> string \<Rightarrow> octet list option" where
  "v4_loop val digLen fields [] = (if length fields < 3 then None else Some (fields @ [of_nat val]))"
| "v4_loop val digLen fields (c # cs) =
     (case digit_val c of
        Some d \<Rightarrow>
          if digLen = 1 \<and> val = 0 then None
          else if 255 < 10 * val + d then None
          else v4_loop (10 * val + d) (digLen + 1) fields cs
      | None \<Rightarrow>
          if c = CHR ''.'' then
            (if digLen = 0 \<or> cs = [] then None
             else if length fields = 3 then None
             else v4_loop 0 0 (fields @ [of_nat val]) cs)
          else None)"

definition parseIPv4Fields :: "string \<Rightarrow> octet list option" where
  "parseIPv4Fields s = v4_loop 0 0 [] s"

definition v6_digit :: "char \<Rightarrow> nat option" where
  "v6_digit c =
     (let n = of_char c :: nat in
      if 48 \<le> n \<and> n \<le> 57 then Some (n - 48)
      else if 97 \<le> n \<and> n \<le> 102 then Some (n - 97 + 10)
      else if 65 \<le> n \<and> n \<le> 70 then Some (n - 65 + 10)
      else None)"

definition hex_group :: "string \<Rightarrow> (nat \<times> string) option" where
  "hex_group s =
     (let ds = takeWhile (\<lambda>c. v6_digit c \<noteq> None) s in
      if length ds > 4 \<or> ds = [] then None
      else Some (foldl (\<lambda>acc c. 16 * acc + the (v6_digit c)) 0 ds, drop (length ds) s))"

text \<open>
  The groups of an IPv6 address: at most eight are left to read, \<open>ip\<close> holds the bytes read so far and
  \<open>ellipsis\<close> the position of \<open>::\<close>.
\<close>

fun v6_groups :: "nat \<Rightarrow> nat option \<Rightarrow> octet list \<Rightarrow> string \<Rightarrow> (octet list \<times> nat option \<times> string) option" where
  "v6_groups 0 ellipsis ip s = Some (ip, ellipsis, s)"
| "v6_groups (Suc k) ellipsis ip s =
     (case hex_group s of
        None \<Rightarrow> None
      | Some (acc, rest) \<Rightarrow>
          if rest \<noteq> [] \<and> hd rest = CHR ''.'' then
            (if ellipsis = None \<and> length ip \<noteq> 12 then None
             else if length ip + 4 > 16 then None
             else (case parseIPv4Fields s of
                     None \<Rightarrow> None
                   | Some fields \<Rightarrow> Some (ip @ fields, ellipsis, [])))
          else
            (let ip' = ip @ [of_nat (acc div 256), of_nat acc] in
             case rest of
               [] \<Rightarrow> Some (ip', ellipsis, [])
             | c # more \<Rightarrow>
                 if c \<noteq> CHR '':'' then None
                 else if more = [] then None
                 else if hd more = CHR '':'' then
                   (if ellipsis \<noteq> None then None
                    else if tl more = [] then Some (ip', Some (length ip'), [])
                    else v6_groups k (Some (length ip')) ip' (tl more))
                 else v6_groups k ellipsis ip' more))"

text \<open>A parsed address: four bytes, or sixteen with a zone.\<close>

datatype addr = Addr4 "octet list" | Addr6 "octet list" string

definition parseIPv6 :: "string \<Rightarrow> addr option" where
  "parseIPv6 s0 =
     (let s = takeWhile (\<lambda>c. c \<noteq> CHR ''%'') s0;
          zone = drop (length s + 1) s0
      in if length s < length s0 \<and> zone = [] then None
         else if take 2 s = ''::'' \<and> length s = 2 then Some (Addr6 (replicate 16 0) zone)
         else
           (let lead = (take 2 s = ''::'') in
            case v6_groups 8 (if lead then Some 0 else None) [] (if lead then drop 2 s else s) of
              None \<Rightarrow> None
            | Some (ip, ellipsis, rest) \<Rightarrow>
                if rest \<noteq> [] then None
                else if length ip < 16 then
                  (case ellipsis of
                     None \<Rightarrow> None
                   | Some e \<Rightarrow> Some (Addr6 (take e ip @ replicate (16 - length ip) 0 @ drop e ip) zone))
                else if ellipsis \<noteq> None then None
                else Some (Addr6 ip zone)))"

definition ParseAddr :: "string \<Rightarrow> addr option" where
  "ParseAddr s =
     (case find (\<lambda>c. c \<in> {CHR ''.'', CHR '':'', CHR ''%''}) s of
        None \<Rightarrow> None
      | Some c \<Rightarrow>
          if c = CHR ''.'' then map_option Addr4 (parseIPv4Fields s)
          else if c = CHR '':'' then parseIPv6 s
          else None)"

fun Zone :: "addr \<Rightarrow> string" where
  "Zone (Addr4 b) = ''''"
| "Zone (Addr6 b z) = z"

fun BitLen :: "addr \<Rightarrow> nat" where
  "BitLen (Addr4 b) = 32"
| "BitLen (Addr6 b z) = 128"

definition v4InV6Prefix :: "octet list" where
  "v4InV6Prefix = [0, 0, 0, 0, 0, 0, 0, 0, 0, 0, 255, 255]"

fun As16 :: "addr \<Rightarrow> octet list" where
  "As16 (Addr4 b) = v4InV6Prefix @ b"
| "As16 (Addr6 b z) = b"

text \<open>An address without a zone, or \<open>None\<close>.\<close>

definition parseIP :: "string \<Rightarrow> addr option" where
  "parseIP s = (case ParseAddr s of None \<Rightarrow> None | Some a \<Rightarrow> if Zone a \<noteq> '''' then None else Some a)"

definition ParseIP :: "string \<Rightarrow> octet list option" where
  "ParseIP s = map_option As16 (parseIP s)"

definition To4 :: "octet list \<Rightarrow> octet list option" where
  "To4 ip =
     (if length ip = 4 then Some ip
      else if length ip = 16 \<and> take 12 ip = v4InV6Prefix then Some (drop 12 ip)
      else None)"

section \<open>Networks\<close>

record IPNet =
  ipn_IP :: "octet list"
  ipn_Mask :: "octet list"

text \<open>\<open>net.CIDRMask\<close> with \<open>n\<close> leading ones in \<open>l\<close> bytes.\<close>

fun CIDRMask :: "nat \<Rightarrow> nat \<Rightarrow> octet list" where
  "CIDRMask n 0 = []"
| "CIDRMask n (Suc l) = (if 8 \<le> n then 255 # CIDRMask (n - 8) l else NOT (drop_bit n 255) # CIDRMask 0 l)"

definition mask_bytes :: "octet list \<Rightarrow> octet list \<Rightarrow> octet list" where
  "mask_bytes m b = map2 (AND) m b"

text \<open>\<open>IP.Mask\<close> for a sixteen-byte address: a four-byte mask applies to an IPv4 address.\<close>

definition IP_Mask :: "octet list \<Rightarrow> octet list \<Rightarrow> octet list" where
  "IP_Mask ip m =
     (let ip' = (if length m = 4 \<and> length ip = 16 \<and> take 12 ip = v4InV6Prefix then drop 12 ip else ip)
      in if length ip' \<noteq> length m then [] else mask_bytes m ip')"

definition dtoi_big :: nat where
  "dtoi_big = 16777215"

fun dtoi :: "nat \<Rightarrow> string \<Rightarrow> (nat \<times> string) option" where
  "dtoi n [] = Some (n, [])"
| "dtoi n (c # cs) =
     (case digit_val c of
        None \<Rightarrow> Some (n, c # cs)
      | Some d \<Rightarrow> if dtoi_big \<le> 10 * n + d then None else dtoi (10 * n + d) cs)"

definition ParseCIDR :: "string \<Rightarrow> (octet list \<times> IPNet) option" where
  "ParseCIDR s =
     (let address = takeWhile (\<lambda>c. c \<noteq> CHR ''/'') s in
      if length address = length s then None
      else
        (let mask = drop (length address + 1) s in
         case parseIP address of
           None \<Rightarrow> None
         | Some a \<Rightarrow>
             (case dtoi 0 mask of
                None \<Rightarrow> None
              | Some (n, rest) \<Rightarrow>
                  if mask = [] \<or> rest = mask \<or> rest \<noteq> [] \<or> BitLen a < n then None
                  else
                    (let m = CIDRMask n (BitLen a div 8)
                     in Some (As16 a, \<lparr>ipn_IP = IP_Mask (As16 a) m, ipn_Mask = m\<rparr>)))))"

definition networkNumberAndMask :: "IPNet \<Rightarrow> (octet list \<times> octet list) option" where
  "networkNumberAndMask n =
     (case (case To4 (ipn_IP n) of Some b \<Rightarrow> Some b
            | None \<Rightarrow> if length (ipn_IP n) \<noteq> 16 then None else Some (ipn_IP n)) of
        None \<Rightarrow> None
      | Some ip \<Rightarrow>
          (let m = ipn_Mask n in
           if length m = 4 then (if length ip \<noteq> 4 then None else Some (ip, m))
           else if length m = 16 then Some (ip, if length ip = 4 then drop 12 m else m)
           else None))"

definition Contains :: "IPNet \<Rightarrow> octet list \<Rightarrow> bool" where
  "Contains n ip0 =
     (let ip = (case To4 ip0 of Some b \<Rightarrow> b | None \<Rightarrow> ip0) in
      case networkNumberAndMask n of
        None \<Rightarrow> length ip = 0
      | Some (nn, m) \<Rightarrow> length ip = length nn \<and> mask_bytes m nn = mask_bytes m ip)"

section \<open>Host and port\<close>

text \<open>The position of the last colon, from the reversed text.\<close>

definition last_colon :: "string \<Rightarrow> nat option" where
  "last_colon s =
     (if CHR '':'' \<in> set s then Some (length s - 1 - length (takeWhile (\<lambda>c. c \<noteq> CHR '':'') (rev s))) else None)"

definition SplitHostPort :: "string \<Rightarrow> (string \<times> string) option" where
  "SplitHostPort hostport =
     (case last_colon hostport of
        None \<Rightarrow> None
      | Some i \<Rightarrow>
          (let port = drop (i + 1) hostport in
           if hd hostport = CHR ''['' then
             (let e = length (takeWhile (\<lambda>c. c \<noteq> CHR '']'') hostport) in
              if e = length hostport then None
              else if e + 1 \<noteq> i then None
              else if CHR ''['' \<in> set (drop 1 hostport) then None
              else if CHR '']'' \<in> set (drop (e + 1) hostport) then None
              else Some (drop 1 (take e hostport), port))
           else
             (let host = take i hostport in
              if CHR '':'' \<in> set host then None
              else if CHR ''['' \<in> set hostport \<or> CHR '']'' \<in> set hostport then None
              else Some (host, port))))"

section \<open>Decimal fields\<close>

lemma showNat_digit_val: "c \<in> set (showNat n) \<Longrightarrow> digit_val c \<noteq> None"
proof (induction n rule: showNat.induct)
  case (1 n)
  then show ?case by (cases "n < 10") (auto simp: showNat.simps [of n])
qed

lemma digit_val_dot [simp]: "digit_val CHR ''.'' = None" "digit_val CHR ''/'' = None" "digit_val CHR '':'' = None"
    "digit_val CHR ''%'' = None" "digit_val CHR ''['' = None" "digit_val CHR '']'' = None"
  by (simp_all add: digit_val_def)

lemma showNat_free: "digit_val c = None \<Longrightarrow> c \<notin> set (showNat n)"
  using showNat_digit_val by metis

lemma v4_loop_showNat:
  "k \<le> 255 \<Longrightarrow> v4_loop 0 0 fs (showNat k @ rest) = v4_loop k (length (showNat k)) fs rest"
proof (induction k arbitrary: rest rule: showNat.induct)
  case (1 k)
  show ?case
  proof (cases "k < 10")
    case True
    then show ?thesis by (simp add: showNat.simps [of k])
  next
    case False
    have "10 * (k div 10) + k mod 10 = k" by simp
    moreover have "k div 10 \<noteq> 0" using False by simp
    ultimately show ?thesis using False 1 by (simp add: showNat.simps [of k])
  qed
qed

lemma dtoi_showNat:
  "n < dtoi_big \<Longrightarrow> rest = [] \<or> digit_val (hd rest) = None \<Longrightarrow> dtoi 0 (showNat n @ rest) = Some (n, rest)"
proof -
  have step: "n < dtoi_big \<Longrightarrow> dtoi 0 (showNat n @ rest) = dtoi n rest" for rest
  proof (induction n arbitrary: rest rule: showNat.induct)
    case (1 n)
    have "10 * (n div 10) + n mod 10 = n" by simp
    with 1 show ?case by (cases "n < 10") (simp_all add: showNat.simps [of n])
  qed
  show "n < dtoi_big \<Longrightarrow> rest = [] \<or> digit_val (hd rest) = None \<Longrightarrow> dtoi 0 (showNat n @ rest) = Some (n, rest)"
    using step [of "[]"] by (cases rest) (simp_all add: step)
qed

text \<open>The dotted form of an IPv4 address.\<close>

definition dotted :: "octet list \<Rightarrow> string" where
  "dotted b = showNat (unat (b ! 0)) @ CHR ''.'' # showNat (unat (b ! 1)) @ CHR ''.'' #
     showNat (unat (b ! 2)) @ CHR ''.'' # showNat (unat (b ! 3))"

lemma byte_bound: "unat b \<le> 255" for b :: octet
proof -
  have "unat b < 2 ^ LENGTH(8)" by (rule unsigned_less)
  then show ?thesis by simp
qed

lemma length_4: "length b = 4 \<longleftrightarrow> b = [b ! 0, b ! 1, b ! 2, b ! 3]"
  by (cases b; cases "tl b"; cases "tl (tl b)"; cases "tl (tl (tl b))"; auto)

lemma parse_dotted: "length b = 4 \<Longrightarrow> parseIPv4Fields (dotted b) = Some b"
proof -
  assume "length b = 4"
  then have b: "b = [b ! 0, b ! 1, b ! 2, b ! 3]" by (simp add: length_4)
  have "v4_loop 0 0 [x, y, z] (showNat (unat w)) = Some [x, y, z, w]" for x y z w :: octet
    using v4_loop_showNat [of "unat w" "[x, y, z]" "[]"] byte_bound by simp
  then show ?thesis
    using b by (simp add: parseIPv4Fields_def dotted_def v4_loop_showNat byte_bound)
qed

lemma find_app: "\<forall>x \<in> set xs. \<not> P x \<Longrightarrow> P y \<Longrightarrow> find P (xs @ y # ys) = Some y"
  by (induction xs) auto

lemma ParseAddr_dotted: "length b = 4 \<Longrightarrow> ParseAddr (dotted b) = Some (Addr4 b)"
proof -
  assume b: "length b = 4"
  have "find (\<lambda>c. c \<in> {CHR ''.'', CHR '':'', CHR ''%''}) (dotted b) = Some CHR ''.''"
    unfolding dotted_def by (rule find_app) (auto dest: showNat_digit_val)
  with b show ?thesis by (simp add: ParseAddr_def parse_dotted)
qed

lemma dotted_chars: "c \<in> set (dotted b) \<Longrightarrow> digit_val c \<noteq> None \<or> c = CHR ''.''"
  by (auto simp: dotted_def dest: showNat_digit_val)

lemma dotted_free: "digit_val c = None \<Longrightarrow> c \<noteq> CHR ''.'' \<Longrightarrow> c \<notin> set (dotted b)"
  using dotted_chars by metis

lemma parseIP_dotted: "length b = 4 \<Longrightarrow> parseIP (dotted b) = Some (Addr4 b)"
  by (simp add: parseIP_def ParseAddr_dotted)

lemma ParseIP_dotted [go_simps]: "length b = 4 \<Longrightarrow> ParseIP (dotted b) = Some (v4InV6Prefix @ b)"
  by (simp add: ParseIP_def parseIP_dotted)

section \<open>Masks and leading bits\<close>

text \<open>The number an address denotes, and agreement of two addresses on their \<open>n\<close> leading bits.\<close>

fun ip_number :: "octet list \<Rightarrow> nat" where
  "ip_number [] = 0"
| "ip_number (b # bs) = unat b * 256 ^ length bs + ip_number bs"

definition same_prefix :: "nat \<Rightarrow> octet list \<Rightarrow> octet list \<Rightarrow> bool" where
  "same_prefix n a b \<longleftrightarrow>
     ip_number a div 2 ^ (8 * length a - n) = ip_number b div 2 ^ (8 * length b - n)"

lemma ip_number_bound: "ip_number bs < 256 ^ length bs"
proof (induction bs)
  case (Cons b bs)
  have "unat b * 256 ^ length bs + ip_number bs < (unat b + 1) * 256 ^ length bs" using Cons by simp
  also have "\<dots> \<le> 256 * 256 ^ length bs" using byte_bound [of b] by (intro mult_right_mono) auto
  finally show ?case by simp
qed simp

lemma mask_eq_drop_bit: "x AND NOT (mask k) = y AND NOT (mask k) \<longleftrightarrow> drop_bit k x = drop_bit k y" for x y :: octet
proof
  assume eq: "x AND NOT (mask k) = y AND NOT (mask k)"
  have "bit x (k + i) = bit y (k + i)" for i
    using arg_cong [OF eq, where f = "\<lambda>w. bit w (k + i)"]
    by (cases "k + i < 8") (auto simp: bit_simps dest: bit_imp_le_length)
  then show "drop_bit k x = drop_bit k y" by (simp add: bit_eq_iff bit_simps)
next
  assume eq: "drop_bit k x = drop_bit k y"
  have "bit x i = bit y i" if "k \<le> i" for i
    using arg_cong [OF eq, where f = "\<lambda>w. bit w (i - k)"] that by (simp add: bit_simps)
  then show "x AND NOT (mask k) = y AND NOT (mask k)" by (auto simp: bit_eq_iff bit_simps)
qed

lemma low_mask: "n < 8 \<Longrightarrow> drop_bit n (255 :: octet) = mask (8 - n)"
proof -
  assume "n < 8"
  then have "n \<in> {0, 1, 2, 3, 4, 5, 6, 7}" by auto
  then show ?thesis by (auto simp: mask_eq_exp_minus_1)
qed

lemma byte_mask: "n < 8 \<Longrightarrow> NOT (drop_bit n 255) AND x = NOT (drop_bit n 255) AND y \<longleftrightarrow>
    unat x div 2 ^ (8 - n) = unat y div 2 ^ (8 - n)" for x y :: octet
proof -
  assume n: "n < 8"
  have "NOT (drop_bit n 255) AND x = NOT (drop_bit n 255) AND y \<longleftrightarrow> drop_bit (8 - n) x = drop_bit (8 - n) y"
    using n by (simp add: low_mask and.commute [of "NOT _"] mask_eq_drop_bit)
  also have "\<dots> \<longleftrightarrow> unat (drop_bit (8 - n) x) = unat (drop_bit (8 - n) y)" by (simp only: word_unat_eq_iff)
  finally show ?thesis by (simp add: unat_drop_bit_eq flip: drop_bit_eq_div)
qed

lemma full_mask: "255 AND x = x" for x :: octet
proof -
  have "(255 :: octet) = - 1" by simp
  then show ?thesis by (simp only: and.left_neutral)
qed

lemma mask_bytes_Cons [simp]: "mask_bytes (m # ms) (b # bs) = (m AND b) # mask_bytes ms bs"
  by (simp add: mask_bytes_def)

lemma div_high: "r < 256 ^ k \<Longrightarrow> n \<le> 8 \<Longrightarrow> (x * 256 ^ k + r) div 2 ^ (8 * Suc k - n) = x div 2 ^ (8 - n)" for r x :: nat
proof -
  assume r: "r < 256 ^ k" and n: "n \<le> 8"
  have "(2 :: nat) ^ (8 * Suc k - n) = 256 ^ k * 2 ^ (8 - n)"
  proof -
    have "(256 :: nat) ^ k = 2 ^ (8 * k)" by (simp add: power_mult)
    moreover have "8 * Suc k - n = 8 * k + (8 - n)" using n by simp
    ultimately show ?thesis by (simp add: power_add)
  qed
  moreover have "(x * 256 ^ k + r) div 256 ^ k = x" using r by simp
  ultimately show ?thesis by (simp add: div_mult2_eq)
qed

lemma div_low: "r < 256 ^ k \<Longrightarrow> s < 256 ^ k \<Longrightarrow> m \<le> 8 * k \<Longrightarrow>
    (x * 256 ^ k + r) div 2 ^ m = (y * 256 ^ k + s) div 2 ^ m \<longleftrightarrow> x = y \<and> r div 2 ^ m = s div 2 ^ m" for r s x y :: nat
proof -
  assume r: "r < 256 ^ k" and s: "s < 256 ^ k" and m: "m \<le> 8 * k"
  have p: "(256 :: nat) ^ k = 2 ^ (8 * k - m) * 2 ^ m"
    using m by (simp add: power_add [symmetric] power_mult)
  have split: "(x * 256 ^ k + r) div 2 ^ m = x * 2 ^ (8 * k - m) + r div 2 ^ m" for x r :: nat
    by (simp add: p mult.assoc [symmetric])
  have low: "r div 2 ^ m < 2 ^ (8 * k - m)" if "r < 256 ^ k" for r :: nat
    using that by (simp add: p less_mult_imp_div_less)
  have top: "x = (x * 2 ^ (8 * k - m) + r div 2 ^ m) div 2 ^ (8 * k - m)" if "r < 256 ^ k" for x r :: nat
    using low [OF that] by simp
  show ?thesis unfolding split using top [OF r, of x] top [OF s, of y] by (metis add_left_cancel)
qed

lemma mask_is_prefix:
  "length a = length b \<Longrightarrow> n \<le> 8 * length a \<Longrightarrow>
    mask_bytes (CIDRMask n (length a)) a = mask_bytes (CIDRMask n (length a)) b \<longleftrightarrow> same_prefix n a b"
proof (induction a b arbitrary: n rule: list_induct2)
  case (Cons x xs y ys)
  note bounds = ip_number_bound [of xs] ip_number_bound [of ys]
  have none: "mask_bytes (CIDRMask 0 (length xs)) xs = mask_bytes (CIDRMask 0 (length xs)) ys"
    using Cons.IH [of 0] Cons.hyps bounds by (simp add: same_prefix_def power_mult)
  show ?case
  proof (cases "8 \<le> n")
    case True
    have "8 * length (x # xs) - n = 8 * length xs - (n - 8)" using True by simp
    then show ?thesis
      using True Cons bounds div_low [of "ip_number xs" "length xs" "ip_number ys" "8 * length xs - (n - 8)" "unat x" "unat y"]
      by (simp add: same_prefix_def full_mask word_unat_eq_iff)
  next
    case False
    then show ?thesis
      using none Cons.hyps bounds div_high [of "ip_number xs" "length xs" n "unat x"] div_high [of "ip_number ys" "length ys" n "unat y"]
      by (simp add: same_prefix_def byte_mask)
  qed
qed (simp add: mask_bytes_def same_prefix_def)

section \<open>Prefixes in text\<close>

definition cidr_text :: "octet list \<Rightarrow> nat \<Rightarrow> string" where
  "cidr_text a n = dotted a @ CHR ''/'' # showNat n"

lemma takeWhile_until: "x \<notin> set xs \<Longrightarrow> takeWhile (\<lambda>c. c \<noteq> x) (xs @ x # ys) = xs"
  by (induction xs) auto

lemma length_CIDRMask [simp]: "length (CIDRMask n l) = l"
  by (induction n l rule: CIDRMask.induct) simp_all

lemma length_mask_bytes [simp]: "length (mask_bytes m b) = min (length m) (length b)"
  by (simp add: mask_bytes_def)

lemma mask_bytes_idem: "mask_bytes m (mask_bytes m b) = mask_bytes m b"
proof (induction m arbitrary: b)
  case (Cons x m)
  then show ?case by (cases b) (simp_all add: mask_bytes_def and.assoc [symmetric])
qed (simp add: mask_bytes_def)

lemma ParseCIDR_text:
  assumes "length a = 4" and "n \<le> 32"
  shows "ParseCIDR (cidr_text a n) =
    Some (v4InV6Prefix @ a, \<lparr>ipn_IP = mask_bytes (CIDRMask n 4) a, ipn_Mask = CIDRMask n 4\<rparr>)"
proof -
  have "takeWhile (\<lambda>c. c \<noteq> CHR ''/'') (cidr_text a n) = dotted a"
    unfolding cidr_text_def by (rule takeWhile_until) (simp add: dotted_free)
  moreover have "drop (length (dotted a) + 1) (cidr_text a n) = showNat n" by (simp add: cidr_text_def)
  moreover have "dtoi 0 (showNat n) = Some (n, [])"
    using dtoi_showNat [of n "[]"] assms(2) by (simp add: dtoi_big_def)
  ultimately show ?thesis
    using assms by (simp add: ParseCIDR_def Let_def parseIP_dotted IP_Mask_def v4InV6Prefix_def)
      (simp add: cidr_text_def showNat_nonempty [symmetric])
qed

lemma To4_v4 [simp]: "length b = 4 \<Longrightarrow> To4 (v4InV6Prefix @ b) = Some b"
  by (simp add: To4_def v4InV6Prefix_def)

lemma Contains_prefix:
  assumes "length a = 4" "length p = 4" "n \<le> 32"
  shows "Contains \<lparr>ipn_IP = mask_bytes (CIDRMask n 4) a, ipn_Mask = CIDRMask n 4\<rparr> (v4InV6Prefix @ p) \<longleftrightarrow> same_prefix n a p"
  using assms mask_is_prefix [of a p n]
  by (simp add: Contains_def networkNumberAndMask_def To4_def [of "mask_bytes _ _"] mask_bytes_idem Let_def)

lemma last_colon_port: "CHR '':'' \<notin> set port \<Longrightarrow> last_colon (host @ CHR '':'' # port) = Some (length host)"
  by (simp add: last_colon_def takeWhile_until)

lemma SplitHostPort_dotted:
  assumes "CHR '':'' \<notin> set port" "CHR ''['' \<notin> set port" "CHR '']'' \<notin> set port"
  shows "SplitHostPort (dotted p @ CHR '':'' # port) = Some (dotted p, port)"
proof -
  have "dotted p \<noteq> []" by (simp add: dotted_def)
  then have "hd (dotted p @ CHR '':'' # port) \<in> set (dotted p)" by simp
  moreover have "CHR ''['' \<notin> set (dotted p)" by (simp add: dotted_free)
  ultimately have "hd (dotted p @ CHR '':'' # port) \<noteq> CHR ''[''" by metis
  with assms show ?thesis
    by (simp add: SplitHostPort_def last_colon_port Let_def dotted_free)
qed

end
