(* ===== verification/Trusted_Proxy.thy ===== *)
theory Trusted_Proxy
  imports Net
begin

text \<open>
  The address a handshake is rate-limited by (internal/runtime/trustedproxy.go): the address of the
  connection, or the leftmost X-Forwarded-For entry when the connection comes from a trusted proxy.
  The rate limiter behind it belongs to the OCPP library and is a parameter.
\<close>

text \<open>HTTP header fields by canonical name; \<open>Get\<close> is the first value.\<close>

type_synonym http_header = "string \<rightharpoonup> string list"

definition Get :: "http_header \<Rightarrow> string \<Rightarrow> string" where
  "Get header key = (case header key of Some (v # vs) \<Rightarrow> v | _ \<Rightarrow> '''')"

record trustedProxyResolver =
  rv_trustedNets :: "IPNet list"

fun cidr_nets :: "string list \<Rightarrow> error + IPNet list" where
  "cidr_nets [] = Inr []"
| "cidr_nets (cidr # cidrs) =
     (case ParseCIDR cidr of
        None \<Rightarrow> Inl (errors_Wrap ''invalid trusted proxy CIDR: '' (errors_New (''invalid CIDR address: '' @ cidr)))
      | Some (_, ipNet) \<Rightarrow>
          (case cidr_nets cidrs of Inl err \<Rightarrow> Inl err | Inr nets \<Rightarrow> Inr (ipNet # nets)))"

definition newTrustedProxyResolver :: "string list \<Rightarrow> error + trustedProxyResolver" where
  "newTrustedProxyResolver cidrs =
     (case cidr_nets cidrs of Inl err \<Rightarrow> Inl err | Inr nets \<Rightarrow> Inr \<lparr>rv_trustedNets = nets\<rparr>)"

definition isTrusted :: "trustedProxyResolver \<Rightarrow> octet list \<Rightarrow> bool" where
  "isTrusted r ip = list_ex (\<lambda>ipNet. Contains ipNet ip) (rv_trustedNets r)"

definition resolve :: "trustedProxyResolver \<Rightarrow> string \<Rightarrow> http_header \<Rightarrow> string" where
  "resolve r remoteAddr header =
     (if rv_trustedNets r = [] then remoteAddr
      else
        let host = (case SplitHostPort remoteAddr of Some (h, _) \<Rightarrow> h | None \<Rightarrow> remoteAddr) in
        case ParseIP host of
          None \<Rightarrow> remoteAddr
        | Some ip \<Rightarrow>
            if \<not> isTrusted r ip then remoteAddr
            else
              let forwardedFor = Get header ''X-Forwarded-For'' in
              if forwardedFor = '''' then remoteAddr
              else
                let clientAddr = TrimSpace (hd (Split CHR '','' forwardedFor)) in
                if ParseIP clientAddr = None then remoteAddr else clientAddr)"

text \<open>The library's handshake attempt, with the fields the wrapper touches.\<close>

record HandshakeAttempt =
  ha_RemoteAddr :: string
  ha_Header :: http_header

definition resolved_Allow :: "(HandshakeAttempt \<Rightarrow> 's \<Rightarrow> bool \<times> 's) \<Rightarrow> trustedProxyResolver \<Rightarrow> HandshakeAttempt \<Rightarrow> 's \<Rightarrow> bool \<times> 's" where
  "resolved_Allow limiter_Allow resolver attempt =
     limiter_Allow (attempt\<lparr>ha_RemoteAddr := resolve resolver (ha_RemoteAddr attempt) (ha_Header attempt)\<rparr>)"

section \<open>Who is believed\<close>

lemma cidr_nets_ok: "\<forall>c \<in> set cidrs. ParseCIDR c \<noteq> None \<Longrightarrow> cidr_nets cidrs = Inr (map (\<lambda>c. snd (the (ParseCIDR c))) cidrs)"
  by (induction cidrs) auto

lemma resolver_ok:
  "\<forall>c \<in> set cidrs. ParseCIDR c \<noteq> None \<Longrightarrow>
    newTrustedProxyResolver cidrs = Inr \<lparr>rv_trustedNets = map (\<lambda>c. snd (the (ParseCIDR c))) cidrs\<rparr>"
  by (simp add: newTrustedProxyResolver_def cidr_nets_ok)

text \<open>The leftmost entry of the header, as \<open>resolve\<close> reads it.\<close>

definition leftmost :: "http_header \<Rightarrow> string" where
  "leftmost header = TrimSpace (hd (Split CHR '','' (Get header ''X-Forwarded-For'')))"

lemma resolve_trusted:
  assumes "SplitHostPort remoteAddr = Some (host, port)" "ParseIP host = Some ip"
  shows "resolve r remoteAddr header =
    (if isTrusted r ip \<and> ParseIP (leftmost header) \<noteq> None then leftmost header else remoteAddr)"
proof -
  have "ParseIP '''' = None" by (simp add: ParseIP_def parseIP_def ParseAddr_def)
  then show ?thesis using assms by (auto simp: resolve_def leftmost_def isTrusted_def Let_def)
qed

lemma isTrusted_prefixes:
  assumes "\<forall>(a, n) \<in> set blocks. length a = 4 \<and> n \<le> 32" "length p = 4"
    and "r = \<lparr>rv_trustedNets = map (\<lambda>c. snd (the (ParseCIDR c))) (map (\<lambda>(a, n). cidr_text a n) blocks)\<rparr>"
  shows "isTrusted r (v4InV6Prefix @ p) \<longleftrightarrow> (\<exists>(a, n) \<in> set blocks. same_prefix n a p)"
proof -
  have "Contains (snd (the (ParseCIDR (cidr_text a n)))) (v4InV6Prefix @ p) \<longleftrightarrow> same_prefix n a p"
    if "(a, n) \<in> set blocks" for a n
    using that assms(1,2) by (auto simp: ParseCIDR_text Contains_prefix)
  then have "Contains (snd (the (ParseCIDR (case b of (a, n) \<Rightarrow> cidr_text a n)))) (v4InV6Prefix @ p) \<longleftrightarrow>
      (case b of (a, n) \<Rightarrow> same_prefix n a p)" if "b \<in> set blocks" for b
    using that by (cases b) simp
  then show ?thesis using assms(3) by (simp add: isTrusted_def list_ex_iff)
qed

text \<open>C36: with any list of IPv4 prefixes configured in the form a.b.c.d/n, the resolver is created, and
  for a connection from an IPv4 address and port it returns the leftmost X-Forwarded-For entry
  exactly when that entry is an IP address and the peer agrees with one of the prefixes on its
  leading n bits; otherwise it returns the peer's own address, whatever the header says.\<close>

theorem forwarded_only_from_trusted:
  assumes "\<forall>(a, n) \<in> set blocks. length a = 4 \<and> n \<le> 32" "length p = 4"
    and "CHR '':'' \<notin> set port" "CHR ''['' \<notin> set port" "CHR '']'' \<notin> set port"
    and "remoteAddr = dotted p @ CHR '':'' # port"
  shows "\<exists>r. newTrustedProxyResolver (map (\<lambda>(a, n). cidr_text a n) blocks) = Inr r \<and>
    resolve r remoteAddr header =
      (if (\<exists>(a, n) \<in> set blocks. same_prefix n a p) \<and> ParseIP (leftmost header) \<noteq> None
       then leftmost header else remoteAddr)"
proof -
  let ?cidrs = "map (\<lambda>(a, n). cidr_text a n) blocks"
  let ?r = "\<lparr>rv_trustedNets = map (\<lambda>c. snd (the (ParseCIDR c))) ?cidrs\<rparr>"
  have "\<forall>c \<in> set ?cidrs. ParseCIDR c \<noteq> None" using assms(1) by (auto simp: ParseCIDR_text)
  then have "newTrustedProxyResolver ?cidrs = Inr ?r" by (rule resolver_ok)
  moreover have "resolve ?r remoteAddr header =
      (if isTrusted ?r (v4InV6Prefix @ p) \<and> ParseIP (leftmost header) \<noteq> None then leftmost header else remoteAddr)"
    using SplitHostPort_dotted [OF assms(3-5), of p] ParseIP_dotted [OF assms(2)] unfolding assms(6)
    by (rule resolve_trusted)
  moreover note isTrusted_prefixes [OF assms(1,2) refl]
  ultimately show ?thesis by simp
qed

definition demo_header :: http_header where
  "demo_header = [''X-Forwarded-For'' \<mapsto> [''203.0.113.7, 10.1.2.3'']]"

lemma demo_dotted: "dotted [10, 1, 2, 3] = ''10.1.2.3'' \<and> cidr_text [10, 0, 0, 0] 8 = ''10.0.0.0/8'' \<and>
    dotted [203, 0, 113, 7] = ''203.0.113.7''"
  by (simp add: cidr_text_def dotted_def showNat.simps digit_char_def char_of_def bit_0)

lemma demo_leftmost: "leftmost demo_header = ''203.0.113.7'' \<and> ParseIP ''203.0.113.7'' \<noteq> None"
proof
  show "leftmost demo_header = ''203.0.113.7''"
    by (simp add: leftmost_def demo_header_def Get_def TrimSpace_visible visible_def)
  show "ParseIP ''203.0.113.7'' \<noteq> None"
    using ParseIP_dotted [of "[203, 0, 113, 7]"] demo_dotted by simp
qed

lemma demo_prefix: "same_prefix 8 [10, 0, 0, 0] [10, 1, 2, 3] \<and> \<not> same_prefix 8 [10, 0, 0, 0] [11, 1, 2, 3]"
  by (simp add: same_prefix_def)

lemma forwarded_only_from_trusted_witness:
  "\<exists>r. newTrustedProxyResolver [''10.0.0.0/8''] = Inr r \<and> resolve r ''10.1.2.3:41000'' demo_header = ''203.0.113.7''"
proof -
  have "\<exists>r. newTrustedProxyResolver (map (\<lambda>(a, n). cidr_text a n) [([10, 0, 0, 0], 8)]) = Inr r \<and>
      resolve r ''10.1.2.3:41000'' demo_header =
        (if (\<exists>(a, n) \<in> set [([10, 0, 0, 0], 8)]. same_prefix n a [10, 1, 2, 3]) \<and> ParseIP (leftmost demo_header) \<noteq> None
         then leftmost demo_header else ''10.1.2.3:41000'')"
    by (rule forwarded_only_from_trusted [of "[([10, 0, 0, 0], 8)]" "[10, 1, 2, 3]" "''41000''"])
      (simp_all add: demo_dotted)
  then show ?thesis using demo_leftmost demo_dotted demo_prefix by auto
qed

text \<open>
  A proxy that appends its peer to the header it received, as most do by default, leaves the client's
  own entry leftmost: the resolved address is then whatever address the client claims.
\<close>

lemma Split_append_sep: "c \<notin> set a \<Longrightarrow> hd (Split c (a @ c # b)) = a"
  by (induction a) (auto split: list.splits simp: Split_nonempty)

lemma appending_proxy_forwards_claim:
  assumes "SplitHostPort remoteAddr = Some (host, port)" "ParseIP host = Some ip" "isTrusted r ip"
    and "CHR '','' \<notin> set claim" "TrimSpace claim = claim" "ParseIP claim \<noteq> None"
    and "header ''X-Forwarded-For'' = Some [claim @ '', '' @ client]"
  shows "resolve r remoteAddr header = claim"
proof -
  have "leftmost header = claim" using assms by (simp add: leftmost_def Get_def Split_append_sep)
  with assms show ?thesis by (simp add: resolve_trusted)
qed

end
