(* ===== verification/Config.thy ===== *)
theory Config
  imports Durations Trusted_Proxy
begin

text \<open>
  The runtime's configuration (internal/runtime/config.go): the record \<open>Config\<close>, its defaults, and
  \<open>loadConfig\<close> over an environment given as a lookup function, one stage per variable in the order of
  the code. A loaded configuration meets what the other components rely on, and every such
  configuration can be written as an environment.
\<close>

section \<open>Defaults\<close>

definition defaultHTTPAddr :: string where "defaultHTTPAddr = '':8080''"

definition defaultHeartbeatInterval :: int where "defaultHeartbeatInterval = 300"

definition defaultShutdownTimeout :: duration where "defaultShutdownTimeout = 30 * second"

definition defaultSessionLeaseTTL :: duration where "defaultSessionLeaseTTL = 30 * second"

definition defaultSessionRenew :: duration where "defaultSessionRenew = 10 * second"

definition defaultMySQLMaxOpenConns :: int where "defaultMySQLMaxOpenConns = 25"

definition defaultMySQLConnMaxLifetime :: duration where "defaultMySQLConnMaxLifetime = 5 * minute"

definition defaultHandshakeRateLimit :: int where "defaultHandshakeRateLimit = 30"

definition defaultTLSCertFile :: string where "defaultTLSCertFile = ''/etc/csms/tls/server/tls.crt''"

definition defaultTLSKeyFile :: string where "defaultTLSKeyFile = ''/etc/csms/tls/server/tls.key''"

definition defaultTLSClientCAFile :: string where "defaultTLSClientCAFile = ''/etc/csms/tls/ca/ca.crt''"

text \<open>The levels of package slog that can be configured.\<close>

datatype level = LevelDebug | LevelInfo | LevelWarn | LevelError

record Config =
  cf_HTTPAddr :: string
  cf_HeartbeatInterval :: int
  cf_ShutdownTimeout :: duration
  cf_Versions :: "version list"
  cf_LogLevel :: level
  cf_MySQLDSN :: string
  cf_MySQLMaxOpenConns :: int
  cf_HandshakeRateLimit :: int
  cf_RedisURL :: string
  cf_APIKeys :: "string list"
  cf_CommandRateLimit :: int
  cf_InstanceID :: string
  cf_SessionLeaseTTL :: duration
  cf_SessionRenew :: duration
  cf_TLSCertFile :: string
  cf_TLSKeyFile :: string
  cf_TLSClientCAFile :: string
  cf_TrustedProxyCIDRs :: "string list"

definition default_Config :: Config where
  "default_Config =
     \<lparr>cf_HTTPAddr = defaultHTTPAddr, cf_HeartbeatInterval = defaultHeartbeatInterval,
      cf_ShutdownTimeout = defaultShutdownTimeout, cf_Versions = [OCPP16, OCPP201, OCPP21],
      cf_LogLevel = LevelInfo, cf_MySQLDSN = '''', cf_MySQLMaxOpenConns = defaultMySQLMaxOpenConns,
      cf_HandshakeRateLimit = defaultHandshakeRateLimit, cf_RedisURL = '''', cf_APIKeys = [],
      cf_CommandRateLimit = 60, cf_InstanceID = '''', cf_SessionLeaseTTL = defaultSessionLeaseTTL,
      cf_SessionRenew = defaultSessionRenew, cf_TLSCertFile = defaultTLSCertFile,
      cf_TLSKeyFile = defaultTLSKeyFile, cf_TLSClientCAFile = defaultTLSClientCAFile,
      cf_TrustedProxyCIDRs = []\<rparr>"

section \<open>Loading\<close>

type_synonym environment = "string \<Rightarrow> string option"
type_synonym stage = "Config \<Rightarrow> error + Config"

definition splitNonEmpty :: "string \<Rightarrow> string list" where
  "splitNonEmpty value = filter (\<lambda>trimmed. trimmed \<noteq> '''') (map TrimSpace (Split CHR '','' value))"

definition load_HTTPAddr :: "environment \<Rightarrow> stage" where
  "load_HTTPAddr lookup config =
     (case lookup ''CSMS_HTTP_ADDR'' of
        None \<Rightarrow> Inr config
      | Some value \<Rightarrow>
          if TrimSpace value = '''' then Inl (errors_New ''CSMS_HTTP_ADDR must not be empty'')
          else Inr (config\<lparr>cf_HTTPAddr := value\<rparr>))"

text \<open>The shape the variables with a positive integer share, and the one of the durations.\<close>

definition load_positive :: "environment \<Rightarrow> string \<Rightarrow> (int \<Rightarrow> Config \<Rightarrow> Config) \<Rightarrow> stage" where
  "load_positive lookup name set_field config =
     (case lookup name of
        None \<Rightarrow> Inr config
      | Some value \<Rightarrow>
          (case Atoi value of
             Inl _ \<Rightarrow> Inl (errors_New (name @ '' must be a positive integer''))
           | Inr n \<Rightarrow>
               if n \<le> 0 then Inl (errors_New (name @ '' must be a positive integer''))
               else Inr (set_field n config)))"

definition load_duration :: "environment \<Rightarrow> string \<Rightarrow> (duration \<Rightarrow> Config \<Rightarrow> Config) \<Rightarrow> stage" where
  "load_duration lookup name set_field config =
     (case lookup name of
        None \<Rightarrow> Inr config
      | Some value \<Rightarrow>
          (case ParseDuration value of
             None \<Rightarrow> Inl (errors_New (name @ '' must be a positive duration''))
           | Some d \<Rightarrow>
               if d \<le> 0 then Inl (errors_New (name @ '' must be a positive duration''))
               else Inr (set_field d config)))"

definition load_trimmed :: "environment \<Rightarrow> string \<Rightarrow> (string \<Rightarrow> Config \<Rightarrow> Config) \<Rightarrow> stage" where
  "load_trimmed lookup name set_field config =
     (case lookup name of None \<Rightarrow> Inr config | Some value \<Rightarrow> Inr (set_field (TrimSpace value) config))"

definition load_LogLevel :: "environment \<Rightarrow> stage" where
  "load_LogLevel lookup config =
     (case lookup ''CSMS_LOG_LEVEL'' of
        None \<Rightarrow> Inr config
      | Some value \<Rightarrow>
          (let word = ToLower (TrimSpace value) in
           if word = ''debug'' then Inr (config\<lparr>cf_LogLevel := LevelDebug\<rparr>)
           else if word = ''info'' then Inr (config\<lparr>cf_LogLevel := LevelInfo\<rparr>)
           else if word = ''warn'' then Inr (config\<lparr>cf_LogLevel := LevelWarn\<rparr>)
           else if word = ''error'' then Inr (config\<lparr>cf_LogLevel := LevelError\<rparr>)
           else Inl (errors_New ''CSMS_LOG_LEVEL must be one of debug, info, warn, error'')))"

definition load_APIKeys :: "environment \<Rightarrow> stage" where
  "load_APIKeys lookup config =
     (case lookup ''CSMS_API_KEYS'' of
        Some value \<Rightarrow> Inr (config\<lparr>cf_APIKeys := splitNonEmpty value\<rparr>)
      | None \<Rightarrow>
          (case lookup ''CSMS_API_KEY'' of
             Some value \<Rightarrow>
               if TrimSpace value \<noteq> '''' then Inr (config\<lparr>cf_APIKeys := [TrimSpace value]\<rparr>) else Inr config
           | None \<Rightarrow> Inr config))"

definition check_renewal :: stage where
  "check_renewal config =
     (if cf_SessionLeaseTTL config \<le> cf_SessionRenew config
      then Inl (errors_New ''CSMS_SESSION_RENEW_INTERVAL must be shorter than CSMS_SESSION_LEASE_TTL'')
      else Inr config)"

definition load_TrustedProxyCIDRs :: "environment \<Rightarrow> stage" where
  "load_TrustedProxyCIDRs lookup config =
     (case lookup ''CSMS_TRUSTED_PROXY_CIDRS'' of
        None \<Rightarrow> Inr config
      | Some value \<Rightarrow>
          (let cidrs = splitNonEmpty value in
           case find (\<lambda>cidr. ParseCIDR cidr = None) cidrs of
             Some cidr \<Rightarrow>
               Inl (errors_Wrap ''CSMS_TRUSTED_PROXY_CIDRS contains invalid CIDR: ''
                     (errors_New (''invalid CIDR address: '' @ cidr)))
           | None \<Rightarrow> Inr (config\<lparr>cf_TrustedProxyCIDRs := cidrs\<rparr>)))"

fun run_stages :: "stage list \<Rightarrow> stage" where
  "run_stages [] config = Inr config"
| "run_stages (stage # rest) config =
     (case stage config of Inl err \<Rightarrow> Inl err | Inr config' \<Rightarrow> run_stages rest config')"

definition timing_stages :: "environment \<Rightarrow> stage list" where
  "timing_stages lookup =
     [load_HTTPAddr lookup,
      load_positive lookup ''CSMS_HEARTBEAT_INTERVAL'' (\<lambda>n. cf_HeartbeatInterval_update (\<lambda>_. n)),
      load_duration lookup ''CSMS_SHUTDOWN_TIMEOUT'' (\<lambda>d. cf_ShutdownTimeout_update (\<lambda>_. d)),
      load_LogLevel lookup,
      load_trimmed lookup ''CSMS_MYSQL_DSN'' (\<lambda>v. cf_MySQLDSN_update (\<lambda>_. v)),
      load_positive lookup ''CSMS_MYSQL_MAX_OPEN_CONNS'' (\<lambda>n. cf_MySQLMaxOpenConns_update (\<lambda>_. n)),
      load_positive lookup ''CSMS_HANDSHAKE_RATE_LIMIT'' (\<lambda>n. cf_HandshakeRateLimit_update (\<lambda>_. n)),
      load_trimmed lookup ''CSMS_REDIS_URL'' (\<lambda>v. cf_RedisURL_update (\<lambda>_. v)),
      load_APIKeys lookup,
      load_positive lookup ''CSMS_COMMAND_RATE_LIMIT'' (\<lambda>n. cf_CommandRateLimit_update (\<lambda>_. n)),
      load_trimmed lookup ''CSMS_INSTANCE_ID'' (\<lambda>v. cf_InstanceID_update (\<lambda>_. v)),
      load_duration lookup ''CSMS_SESSION_LEASE_TTL'' (\<lambda>d. cf_SessionLeaseTTL_update (\<lambda>_. d)),
      load_duration lookup ''CSMS_SESSION_RENEW_INTERVAL'' (\<lambda>d. cf_SessionRenew_update (\<lambda>_. d))]"

definition file_stages :: "environment \<Rightarrow> stage list" where
  "file_stages lookup =
     [load_trimmed lookup ''CSMS_TLS_CERT_FILE'' (\<lambda>v. cf_TLSCertFile_update (\<lambda>_. v)),
      load_trimmed lookup ''CSMS_TLS_KEY_FILE'' (\<lambda>v. cf_TLSKeyFile_update (\<lambda>_. v)),
      load_trimmed lookup ''CSMS_TLS_CLIENT_CA_FILE'' (\<lambda>v. cf_TLSClientCAFile_update (\<lambda>_. v)),
      load_TrustedProxyCIDRs lookup]"

definition loadConfig :: "environment \<Rightarrow> error + Config" where
  "loadConfig lookup = run_stages (timing_stages lookup @ [check_renewal] @ file_stages lookup) default_Config"

section \<open>What can be loaded\<close>

text \<open>The configurations that some environment gives: what the rest of the runtime may rely on.\<close>

definition trimmed :: "string \<Rightarrow> bool" where
  "trimmed s \<longleftrightarrow> TrimSpace s = s"

definition entry :: "string \<Rightarrow> bool" where
  "entry s \<longleftrightarrow> s \<noteq> '''' \<and> trimmed s \<and> CHR '','' \<notin> set s"

definition positive64 :: "int \<Rightarrow> bool" where
  "positive64 n \<longleftrightarrow> 0 < n \<and> n < 2 ^ 63"

definition settings_ok :: "Config \<Rightarrow> bool" where
  "settings_ok c \<longleftrightarrow>
     TrimSpace (cf_HTTPAddr c) \<noteq> '''' \<and> cf_Versions c = [OCPP16, OCPP201, OCPP21] \<and>
     list_all positive64 [cf_HeartbeatInterval c, cf_ShutdownTimeout c, cf_MySQLMaxOpenConns c, cf_HandshakeRateLimit c,
       cf_CommandRateLimit c, cf_SessionLeaseTTL c, cf_SessionRenew c] \<and>
     list_all trimmed [cf_MySQLDSN c, cf_RedisURL c, cf_InstanceID c, cf_TLSCertFile c, cf_TLSKeyFile c, cf_TLSClientCAFile c] \<and>
     (list_all entry (cf_APIKeys c) \<or> (\<exists>key. cf_APIKeys c = [key] \<and> key \<noteq> '''' \<and> trimmed key)) \<and>
     list_all (\<lambda>cidr. entry cidr \<and> ParseCIDR cidr \<noteq> None) (cf_TrustedProxyCIDRs c)"

definition config_ok :: "Config \<Rightarrow> bool" where
  "config_ok c \<longleftrightarrow> settings_ok c \<and> cf_SessionRenew c < cf_SessionLeaseTTL c"

lemma run_stages_append:
  "run_stages (xs @ ys) c = (case run_stages xs c of Inl err \<Rightarrow> Inl err | Inr c' \<Rightarrow> run_stages ys c')"
  by (induction xs arbitrary: c) (auto split: sum.splits)

lemma run_stages_keep:
  "run_stages stages c = Inr c' \<Longrightarrow> P c \<Longrightarrow> (\<And>stage c c'. stage \<in> set stages \<Longrightarrow> stage c = Inr c' \<Longrightarrow> P c \<Longrightarrow> P c') \<Longrightarrow> P c'"
proof (induction stages arbitrary: c)
  case (Cons stage rest)
  then obtain c1 where "stage c = Inr c1" "run_stages rest c1 = Inr c'" by (auto split: sum.splits)
  with Cons.IH [of c1] Cons.prems(2,3) show ?case by (metis list.set_intros)
qed simp

lemma trimmed_TrimSpace [simp, intro]: "trimmed (TrimSpace s)"
  by (simp add: trimmed_def)

lemma positive64I: "Atoi s = Inr n \<Longrightarrow> \<not> n \<le> 0 \<Longrightarrow> positive64 n" "ParseDuration s = Some n \<Longrightarrow> \<not> n \<le> 0 \<Longrightarrow> positive64 n"
  by (auto simp: positive64_def dest: ParseInt_range ParseDuration_range)

lemma splitNonEmpty_entries: "list_all entry (splitNonEmpty value)"
proof -
  have "entry (TrimSpace w)" if "w \<in> set (Split CHR '','' value)" "TrimSpace w \<noteq> ''''" for w
    using that Split_no_sep [OF that(1)] set_TrimSpace [of w] by (auto simp: entry_def)
  then show ?thesis by (auto simp: splitNonEmpty_def list_all_iff)
qed

lemma load_positive_keep:
  "load_positive lookup name f c = Inr c' \<Longrightarrow> c' = c \<or> (\<exists>n. positive64 n \<and> c' = f n c)"
  by (auto simp: load_positive_def split: option.splits sum.splits if_splits intro: positive64I)

lemma load_duration_keep:
  "load_duration lookup name f c = Inr c' \<Longrightarrow> c' = c \<or> (\<exists>d. positive64 d \<and> c' = f d c)"
  by (auto simp: load_duration_def split: option.splits if_splits intro: positive64I)

lemma load_trimmed_keep:
  "load_trimmed lookup name f c = Inr c' \<Longrightarrow> c' = c \<or> (\<exists>v. trimmed v \<and> c' = f v c)"
  by (auto simp: load_trimmed_def split: option.splits)

lemma load_HTTPAddr_keep:
  "load_HTTPAddr lookup c = Inr c' \<Longrightarrow> c' = c \<or> (\<exists>v. TrimSpace v \<noteq> '''' \<and> c' = c\<lparr>cf_HTTPAddr := v\<rparr>)"
  by (auto simp: load_HTTPAddr_def split: option.splits if_splits)

lemma load_LogLevel_keep: "load_LogLevel lookup c = Inr c' \<Longrightarrow> c' = c \<or> (\<exists>l. c' = c\<lparr>cf_LogLevel := l\<rparr>)"
  by (auto simp: load_LogLevel_def Let_def split: option.splits if_splits)

lemma load_APIKeys_keep:
  "load_APIKeys lookup c = Inr c' \<Longrightarrow> c' = c \<or>
    (\<exists>keys. (list_all entry keys \<or> (\<exists>key. keys = [key] \<and> key \<noteq> '''' \<and> trimmed key)) \<and> c' = c\<lparr>cf_APIKeys := keys\<rparr>)"
  unfolding load_APIKeys_def
  by (cases "lookup ''CSMS_API_KEYS''"; cases "lookup ''CSMS_API_KEY''")
    (auto split: if_splits intro: splitNonEmpty_entries exI [of _ "[_]"] exI [of _ "splitNonEmpty _"])

lemma load_TrustedProxyCIDRs_keep:
  "load_TrustedProxyCIDRs lookup c = Inr c' \<Longrightarrow> c' = c \<or>
    (\<exists>cidrs. list_all (\<lambda>cidr. entry cidr \<and> ParseCIDR cidr \<noteq> None) cidrs \<and> c' = c\<lparr>cf_TrustedProxyCIDRs := cidrs\<rparr>)"
  using splitNonEmpty_entries
  by (fastforce simp: load_TrustedProxyCIDRs_def Let_def find_None_iff list_all_iff split: option.splits)

lemmas stage_keeps = load_positive_keep load_duration_keep load_trimmed_keep load_HTTPAddr_keep load_LogLevel_keep
  load_APIKeys_keep load_TrustedProxyCIDRs_keep

lemma timing_stage_ok: "stage \<in> set (timing_stages lookup) \<Longrightarrow> stage c = Inr c' \<Longrightarrow> settings_ok c \<Longrightarrow> settings_ok c'"
  unfolding timing_stages_def
  by (simp, elim disjE; simp; drule stage_keeps; auto simp: settings_ok_def)

lemma file_stage_ok:
  "stage \<in> set (file_stages lookup) \<Longrightarrow> stage c = Inr c' \<Longrightarrow> config_ok c \<Longrightarrow> config_ok c'"
  unfolding file_stages_def
  by (simp, elim disjE; simp; drule stage_keeps; auto simp: config_ok_def settings_ok_def)

lemma visible_codes: "visible CHR ''/'' \<and> visible CHR ''t'' \<and> visible CHR ''y'' \<and> visible CHR '':'' \<and> visible CHR ''0''"
  by (simp add: visible_def)

lemma default_ok: "settings_ok default_Config"
  by (simp add: settings_ok_def default_Config_def positive64_def trimmed_def TrimSpace_visible visible_codes
      defaultHTTPAddr_def defaultHeartbeatInterval_def defaultShutdownTimeout_def defaultSessionLeaseTTL_def
      defaultSessionRenew_def defaultMySQLMaxOpenConns_def defaultHandshakeRateLimit_def defaultTLSCertFile_def
      defaultTLSKeyFile_def defaultTLSClientCAFile_def)

lemma loaded_ok: "loadConfig lookup = Inr c \<Longrightarrow> config_ok c"
proof -
  assume "loadConfig lookup = Inr c"
  then obtain c1 where 1: "run_stages (timing_stages lookup) default_Config = Inr c1"
    and 2: "cf_SessionRenew c1 < cf_SessionLeaseTTL c1" and 3: "run_stages (file_stages lookup) c1 = Inr c"
    by (auto simp: loadConfig_def run_stages_append check_renewal_def split: sum.splits if_splits)
  have "settings_ok c1" using run_stages_keep [where P = settings_ok, OF 1 default_ok] timing_stage_ok by blast
  with 2 have "config_ok c1" by (simp add: config_ok_def)
  then show ?thesis using run_stages_keep [where P = config_ok, OF 3] file_stage_ok by blast
qed

text \<open>An environment for a configuration.\<close>

fun joined :: "string list \<Rightarrow> string" where
  "joined [] = ''''"
| "joined [s] = s"
| "joined (s # ss) = s @ CHR '','' # joined ss"

definition level_word :: "level \<Rightarrow> string" where
  "level_word l = (case l of LevelDebug \<Rightarrow> ''debug'' | LevelInfo \<Rightarrow> ''info'' | LevelWarn \<Rightarrow> ''warn'' | LevelError \<Rightarrow> ''error'')"

definition key_variable :: "string list \<Rightarrow> string \<times> string" where
  "key_variable keys = (if list_all entry keys then (''CSMS_API_KEYS'', joined keys) else (''CSMS_API_KEY'', hd keys))"

definition env_of :: "Config \<Rightarrow> environment" where
  "env_of c = map_of
     [(''CSMS_HTTP_ADDR'', cf_HTTPAddr c),
      (''CSMS_HEARTBEAT_INTERVAL'', showInt (cf_HeartbeatInterval c)),
      (''CSMS_SHUTDOWN_TIMEOUT'', showNat (nat (cf_ShutdownTimeout c)) @ ''ns''),
      (''CSMS_LOG_LEVEL'', level_word (cf_LogLevel c)),
      (''CSMS_MYSQL_DSN'', cf_MySQLDSN c),
      (''CSMS_MYSQL_MAX_OPEN_CONNS'', showInt (cf_MySQLMaxOpenConns c)),
      (''CSMS_HANDSHAKE_RATE_LIMIT'', showInt (cf_HandshakeRateLimit c)),
      (''CSMS_REDIS_URL'', cf_RedisURL c),
      (''CSMS_COMMAND_RATE_LIMIT'', showInt (cf_CommandRateLimit c)),
      (''CSMS_INSTANCE_ID'', cf_InstanceID c),
      (''CSMS_SESSION_LEASE_TTL'', showNat (nat (cf_SessionLeaseTTL c)) @ ''ns''),
      (''CSMS_SESSION_RENEW_INTERVAL'', showNat (nat (cf_SessionRenew c)) @ ''ns''),
      (''CSMS_TLS_CERT_FILE'', cf_TLSCertFile c),
      (''CSMS_TLS_KEY_FILE'', cf_TLSKeyFile c),
      (''CSMS_TLS_CLIENT_CA_FILE'', cf_TLSClientCAFile c),
      (''CSMS_TRUSTED_PROXY_CIDRS'', joined (cf_TrustedProxyCIDRs c)),
      key_variable (cf_APIKeys c)]"

lemma Split_one: "c \<notin> set a \<Longrightarrow> Split c a = [a]"
  by (induction a) auto

lemma Split_append: "c \<notin> set a \<Longrightarrow> Split c (a @ c # b) = a # Split c b"
  by (induction a) (auto split: list.splits)

lemma splitNonEmpty_joined: "list_all entry ss \<Longrightarrow> splitNonEmpty (joined ss) = ss"
proof -
  assume ok: "list_all entry ss"
  have "Split CHR '','' (joined ss) = ss" if "ss \<noteq> []"
    using ok that by (induction ss rule: joined.induct) (simp_all add: entry_def Split_one Split_append)
  moreover have "filter (\<lambda>t. t \<noteq> '''') (map TrimSpace ss) = ss"
    using ok by (induction ss) (simp_all add: entry_def trimmed_def)
  ultimately show ?thesis by (cases "ss = []") (simp_all add: splitNonEmpty_def)
qed

lemma load_positive_env: "env name = Some (showInt n) \<Longrightarrow> positive64 n \<Longrightarrow> load_positive env name f c = Inr (f n c)"
  by (simp add: load_positive_def positive64_def ParseInt_showInt)

lemma load_duration_env:
  "env name = Some (showNat (nat d) @ ''ns'') \<Longrightarrow> positive64 d \<Longrightarrow> load_duration env name f c = Inr (f d c)"
  using ParseDuration_whole [of "''ns''" 1 "nat d"] by (simp add: load_duration_def positive64_def unitMap_def)

lemma load_trimmed_env: "env name = Some s \<Longrightarrow> trimmed s \<Longrightarrow> load_trimmed env name f c = Inr (f s c)"
  by (simp add: load_trimmed_def trimmed_def)

lemma load_LogLevel_env: "env ''CSMS_LOG_LEVEL'' = Some (level_word l) \<Longrightarrow> load_LogLevel env c = Inr (c\<lparr>cf_LogLevel := l\<rparr>)"
  by (cases l) (simp_all add: load_LogLevel_def level_word_def TrimSpace_visible visible_def lower_byte_def)

lemma load_APIKeys_env:
  assumes "env (fst (key_variable keys)) = Some (snd (key_variable keys))"
    and "\<not> list_all entry keys \<Longrightarrow> env ''CSMS_API_KEYS'' = None"
    and "list_all entry keys \<or> (\<exists>key. keys = [key] \<and> key \<noteq> '''' \<and> trimmed key)"
  shows "load_APIKeys env c = Inr (c\<lparr>cf_APIKeys := keys\<rparr>)"
proof (cases "list_all entry keys")
  case True
  then show ?thesis using assms(1) by (simp add: load_APIKeys_def key_variable_def splitNonEmpty_joined)
next
  case False
  with assms(3) obtain key where "keys = [key]" "key \<noteq> ''''" "trimmed key" by blast
  then show ?thesis using False assms(1,2) by (simp add: load_APIKeys_def key_variable_def trimmed_def)
qed

lemma load_TrustedProxyCIDRs_env:
  assumes "env ''CSMS_TRUSTED_PROXY_CIDRS'' = Some (joined cidrs)"
    and "list_all (\<lambda>cidr. entry cidr \<and> ParseCIDR cidr \<noteq> None) cidrs"
  shows "load_TrustedProxyCIDRs env c = Inr (c\<lparr>cf_TrustedProxyCIDRs := cidrs\<rparr>)"
proof -
  have "list_all entry cidrs" "find (\<lambda>cidr. ParseCIDR cidr = None) cidrs = None"
    using assms(2) by (auto simp: list_all_iff find_None_iff)
  then show ?thesis using assms(1) by (simp add: load_TrustedProxyCIDRs_def splitNonEmpty_joined Let_def)
qed

lemma env_of_lookups:
  "env_of c ''CSMS_HTTP_ADDR'' = Some (cf_HTTPAddr c)"
  "env_of c ''CSMS_HEARTBEAT_INTERVAL'' = Some (showInt (cf_HeartbeatInterval c))"
  "env_of c ''CSMS_SHUTDOWN_TIMEOUT'' = Some (showNat (nat (cf_ShutdownTimeout c)) @ ''ns'')"
  "env_of c ''CSMS_LOG_LEVEL'' = Some (level_word (cf_LogLevel c))"
  "env_of c ''CSMS_MYSQL_DSN'' = Some (cf_MySQLDSN c)"
  "env_of c ''CSMS_MYSQL_MAX_OPEN_CONNS'' = Some (showInt (cf_MySQLMaxOpenConns c))"
  "env_of c ''CSMS_HANDSHAKE_RATE_LIMIT'' = Some (showInt (cf_HandshakeRateLimit c))"
  "env_of c ''CSMS_REDIS_URL'' = Some (cf_RedisURL c)"
  "env_of c ''CSMS_COMMAND_RATE_LIMIT'' = Some (showInt (cf_CommandRateLimit c))"
  "env_of c ''CSMS_INSTANCE_ID'' = Some (cf_InstanceID c)"
  "env_of c ''CSMS_SESSION_LEASE_TTL'' = Some (showNat (nat (cf_SessionLeaseTTL c)) @ ''ns'')"
  "env_of c ''CSMS_SESSION_RENEW_INTERVAL'' = Some (showNat (nat (cf_SessionRenew c)) @ ''ns'')"
  "env_of c ''CSMS_TLS_CERT_FILE'' = Some (cf_TLSCertFile c)"
  "env_of c ''CSMS_TLS_KEY_FILE'' = Some (cf_TLSKeyFile c)"
  "env_of c ''CSMS_TLS_CLIENT_CA_FILE'' = Some (cf_TLSClientCAFile c)"
  "env_of c ''CSMS_TRUSTED_PROXY_CIDRS'' = Some (joined (cf_TrustedProxyCIDRs c))"
  by (simp_all add: env_of_def)

lemma env_of_keys:
  "env_of c (fst (key_variable (cf_APIKeys c))) = Some (snd (key_variable (cf_APIKeys c)))"
  "\<not> list_all entry (cf_APIKeys c) \<Longrightarrow> env_of c ''CSMS_API_KEYS'' = None"
  by (simp_all add: env_of_def key_variable_def)

lemma loads_env_of: "config_ok c \<Longrightarrow> loadConfig (env_of c) = Inr c"
proof -
  assume ok: "config_ok c"
  then have s: "settings_ok c" by (simp add: config_ok_def)
  note keys = load_APIKeys_env [where keys = "cf_APIKeys c" and env = "env_of c", OF env_of_keys]
  have http: "load_HTTPAddr (env_of c) d = Inr (d\<lparr>cf_HTTPAddr := cf_HTTPAddr c\<rparr>)" for d
    using s by (simp add: load_HTTPAddr_def env_of_lookups settings_ok_def)
  note loads = load_positive_env [where env = "env_of c", OF env_of_lookups(2)] load_positive_env [where env = "env_of c", OF env_of_lookups(6)] load_positive_env [where env = "env_of c", OF env_of_lookups(7)]
    load_positive_env [where env = "env_of c", OF env_of_lookups(9)] load_duration_env [where env = "env_of c", OF env_of_lookups(3)] load_duration_env [where env = "env_of c", OF env_of_lookups(11)]
    load_duration_env [where env = "env_of c", OF env_of_lookups(12)] load_LogLevel_env [where env = "env_of c", OF env_of_lookups(4)] load_trimmed_env [where env = "env_of c", OF env_of_lookups(5)]
    load_trimmed_env [where env = "env_of c", OF env_of_lookups(8)] load_trimmed_env [where env = "env_of c", OF env_of_lookups(10)] load_trimmed_env [where env = "env_of c", OF env_of_lookups(13)]
    load_trimmed_env [where env = "env_of c", OF env_of_lookups(14)] load_trimmed_env [where env = "env_of c", OF env_of_lookups(15)] load_TrustedProxyCIDRs_env [where env = "env_of c", OF env_of_lookups(16)]
  show ?thesis
    using s ok unfolding loadConfig_def timing_stages_def file_stages_def
    by (simp add: run_stages_append http keys loads check_renewal_def default_Config_def settings_ok_def config_ok_def)
qed

text \<open>C37: the configurations that \<open>loadConfig\<close> accepts from some environment are exactly these: a
  non-blank address, the three protocol versions, positive 64-bit numbers and durations, a renewal
  interval below the lease time, trimmed paths and identifiers, non-empty trimmed API keys, and
  trusted proxy prefixes that all parse.\<close>

theorem loaded_configs_exact: "(\<exists>lookup. loadConfig lookup = Inr c) \<longleftrightarrow> config_ok c"
  using loaded_ok loads_env_of by blast

text \<open>The resolver the server creates from a loaded configuration always exists.\<close>

lemma loaded_resolver: "loadConfig lookup = Inr c \<Longrightarrow> \<exists>r. newTrustedProxyResolver (cf_TrustedProxyCIDRs c) = Inr r"
  using loaded_ok resolver_ok by (fastforce simp: config_ok_def settings_ok_def list_all_iff)

end
