(* ===== verification/CSMS_API.thy ===== *)
theory CSMS_API
  imports Prelude
begin

text \<open>
  The custom resource of the operator (api/v1alpha1/csms_types.go): specification, status and the
  validation its markers put in the resource definition; and the Kubernetes objects the controller
  writes, with the fields it reads or sets. Fields of a stored object that the controller never
  touches are kept together as an opaque text. Go's nil maps and empty maps are both the empty map.
\<close>

type_synonym labels = "string \<rightharpoonup> string"

datatype IntOrString = FromInt int | FromString string

record ResourceRequirements =
  rr_Limits :: "(string \<rightharpoonup> string) option"
  rr_Requests :: "(string \<rightharpoonup> string) option"
  rr_Claims :: "string list"

section \<open>The custom resource\<close>

record CSMSTLS =
  tls_SecretName :: string
  tls_ClientCASecretName :: string

record CSMSIngress =
  ing_Host :: string
  ing_IngressClassName :: string
  ing_TLSSecretName :: string
  ing_Annotations :: "string \<rightharpoonup> string"

record CSMSSpec =
  sp_Image :: string
  sp_Replicas :: "int option"
  sp_Port :: int
  sp_LivenessPath :: string
  sp_ReadinessPath :: string
  sp_TerminationGracePeriodSeconds :: "int option"
  sp_DatabaseSecretName :: string
  sp_RedisSecretName :: string
  sp_APISecretName :: string
  sp_Config :: "string \<rightharpoonup> string"
  sp_Resources :: ResourceRequirements
  sp_MinAvailable :: "IntOrString option"
  sp_Ingress :: "CSMSIngress option"
  sp_TLS :: "CSMSTLS option"

definition CSMSConditionAvailable :: string where
  "CSMSConditionAvailable = ''Available''"

definition CSMSConditionProgressing :: string where
  "CSMSConditionProgressing = ''Progressing''"

record Condition =
  cd_Type :: string
  cd_Status :: bool
  cd_Reason :: string
  cd_Message :: string
  cd_ObservedGeneration :: int
  cd_LastTransitionTime :: time

record CSMSStatus =
  su_Replicas :: int
  su_ReadyReplicas :: int
  su_ObservedGeneration :: int
  su_Conditions :: "Condition list"

record CSMS =
  cr_Name :: string
  cr_Namespace :: string
  cr_UID :: string
  cr_Generation :: int
  cr_Spec :: CSMSSpec
  cr_Status :: CSMSStatus

section \<open>Validation\<close>

text \<open>The markers' pattern for names: lower-case letters, digits and inner hyphens.\<close>

definition lower_alnum :: "char \<Rightarrow> bool" where
  "lower_alnum c \<longleftrightarrow> (let n = of_char c :: nat in (48 \<le> n \<and> n \<le> 57) \<or> (97 \<le> n \<and> n \<le> 122))"

definition dns_label :: "string \<Rightarrow> bool" where
  "dns_label s \<longleftrightarrow>
     s \<noteq> '''' \<and> lower_alnum (hd s) \<and> lower_alnum (last s) \<and> list_all (\<lambda>c. lower_alnum c \<or> c = CHR ''-'') s"

definition optional_label :: "string \<Rightarrow> bool" where
  "optional_label s \<longleftrightarrow> s = '''' \<or> dns_label s"

definition valid_TLS :: "CSMSTLS \<Rightarrow> bool" where
  "valid_TLS t \<longleftrightarrow> dns_label (tls_SecretName t) \<and> optional_label (tls_ClientCASecretName t)"

definition valid_Ingress :: "CSMSIngress \<Rightarrow> bool" where
  "valid_Ingress i \<longleftrightarrow>
     list_all dns_label (Split CHR ''.'' (ing_Host i)) \<and> optional_label (ing_IngressClassName i) \<and>
     optional_label (ing_TLSSecretName i)"

text \<open>
  What the resource definition admits, after its defaults are filled in: the bounds and patterns of
  the fields, and the rule that more than one replica needs a Redis secret.
\<close>

definition valid_Spec :: "CSMSSpec \<Rightarrow> bool" where
  "valid_Spec s \<longleftrightarrow>
     sp_Image s \<noteq> '''' \<and>
     (case sp_Replicas s of None \<Rightarrow> True | Some n \<Rightarrow> 1 \<le> n) \<and>
     1 \<le> sp_Port s \<and> sp_Port s \<le> 65535 \<and>
     HasPrefix (sp_LivenessPath s) ''/'' \<and> HasPrefix (sp_ReadinessPath s) ''/'' \<and>
     (case sp_TerminationGracePeriodSeconds s of None \<Rightarrow> True | Some n \<Rightarrow> 0 \<le> n) \<and>
     optional_label (sp_DatabaseSecretName s) \<and> optional_label (sp_RedisSecretName s) \<and> optional_label (sp_APISecretName s) \<and>
     (case sp_Ingress s of None \<Rightarrow> True | Some i \<Rightarrow> valid_Ingress i) \<and>
     (case sp_TLS s of None \<Rightarrow> True | Some t \<Rightarrow> valid_TLS t) \<and>
     (\<not> (case sp_Replicas s of None \<Rightarrow> False | Some n \<Rightarrow> 1 < n) \<or> 0 < length (sp_RedisSecretName s))"

section \<open>Kubernetes objects\<close>

text \<open>Metadata; \<open>om_Controller\<close> is the UID of the owner reference that is marked as controller.\<close>

record ObjectMeta =
  om_Name :: string
  om_Namespace :: string
  om_Labels :: labels
  om_Annotations :: "string \<rightharpoonup> string"
  om_Controller :: "string option"
  om_Other :: string

record ConfigMap =
  cm_Meta :: ObjectMeta
  cm_Data :: "string \<rightharpoonup> string"
  cm_Other :: string

record ServicePort =
  pt_Name :: string
  pt_Port :: int
  pt_TargetPort :: IntOrString

record Service =
  sv_Meta :: ObjectMeta
  sv_Selector :: labels
  sv_Ports :: "ServicePort list"
  sv_Other :: string

datatype URIScheme = HTTP | HTTPS

record HTTPGetProbe =
  pr_Path :: string
  pr_Port :: IntOrString
  pr_Scheme :: URIScheme
  pr_PeriodSeconds :: int

text \<open>Where a container's environment comes from: a ConfigMap, or a Secret with its optional flag.\<close>

datatype EnvFromSource = ConfigMapRef string | SecretRef string bool

text \<open>One variable read from a field of the pod.\<close>

record EnvVar =
  ev_Name :: string
  ev_FieldPath :: string

record Volume =
  vo_Name :: string
  vo_SecretName :: string

record VolumeMount =
  vm_Name :: string
  vm_MountPath :: string
  vm_ReadOnly :: bool

datatype PullPolicy = PullAlways | PullIfNotPresent | PullNever

record Container =
  ct_Name :: string
  ct_Image :: string
  ct_ImagePullPolicy :: PullPolicy
  ct_EnvFrom :: "EnvFromSource list"
  ct_Env :: "EnvVar list"
  ct_Ports :: "(string \<times> int) list"
  ct_VolumeMounts :: "VolumeMount list"
  ct_ReadinessProbe :: HTTPGetProbe
  ct_LivenessProbe :: HTTPGetProbe
  ct_Resources :: ResourceRequirements

record PodTemplate =
  tm_Labels :: labels
  tm_TerminationGracePeriodSeconds :: int
  tm_Volumes :: "Volume list"
  tm_Containers :: "Container list"

record DeploymentStatus =
  ds_Replicas :: int
  ds_ReadyReplicas :: int

record Deployment =
  dp_Meta :: ObjectMeta
  dp_Replicas :: "int option"
  dp_Selector :: labels
  dp_Template :: PodTemplate
  dp_Status :: DeploymentStatus
  dp_Other :: string

record PodDisruptionBudget =
  pd_Meta :: ObjectMeta
  pd_MinAvailable :: "IntOrString option"
  pd_Selector :: labels
  pd_Other :: string

record IngressPath =
  ip_Path :: string
  ip_PathTypePrefix :: bool
  ip_Service :: string
  ip_ServicePort :: string

record Ingress =
  ig_Meta :: ObjectMeta
  ig_ClassName :: "string option"
  ig_Rules :: "(string \<times> IngressPath list) list"
  ig_TLS :: "(string list \<times> string) list"
  ig_Other :: string

end
