(* ===== verification/Controller.thy ===== *)
theory Controller
  imports CSMS_API
begin

text \<open>
  The operator's controller (internal/controller/csms_controller.go): one definition per function, over
  a Kubernetes client given as a parameter. What the client promises is the contract \<open>kube_api\<close>: a call
  may fail at any point, before or after it took effect. \<open>Reconcile\<close> is correct from any state it finds,
  which is what a controller that retries after errors needs.
\<close>

section \<open>The client\<close>

type_synonym key = "string \<times> string"

text \<open>What is stored in the cluster, by namespace and name.\<close>

record kube_state =
  cv_CSMS :: "key \<rightharpoonup> CSMS"
  cv_ConfigMap :: "key \<rightharpoonup> ConfigMap"
  cv_Service :: "key \<rightharpoonup> Service"
  cv_Deployment :: "key \<rightharpoonup> Deployment"
  cv_PDB :: "key \<rightharpoonup> PodDisruptionBudget"
  cv_Ingress :: "key \<rightharpoonup> Ingress"

text \<open>
  \<open>CreateOrUpdate\<close> applies the given function to the stored object, or to the given fresh one when there
  is none, and writes the result; the function may refuse with an error.
\<close>

record ('k, 'o) resource_client =
  rc_CreateOrUpdate :: "key \<Rightarrow> 'o \<Rightarrow> ('o \<Rightarrow> error + 'o) \<Rightarrow> 'k \<Rightarrow> (error + 'o) \<times> 'k"
  rc_Delete :: "key \<Rightarrow> 'k \<Rightarrow> error option \<times> 'k"

record 'k kube_client =
  kc_Get :: "key \<Rightarrow> 'k \<Rightarrow> (error + CSMS) \<times> 'k"
  kc_IsNotFound :: "error \<Rightarrow> bool"
  kc_ConfigMaps :: "('k, ConfigMap) resource_client"
  kc_Services :: "('k, Service) resource_client"
  kc_Deployments :: "('k, Deployment) resource_client"
  kc_PDBs :: "('k, PodDisruptionBudget) resource_client"
  kc_Ingresses :: "('k, Ingress) resource_client"
  kc_SetControllerReference :: "CSMS \<Rightarrow> ObjectMeta \<Rightarrow> error + ObjectMeta"
  kc_SetStatusCondition :: "time \<Rightarrow> Condition \<Rightarrow> Condition list \<Rightarrow> Condition list"
  kc_StatusUpdate :: "CSMS \<Rightarrow> 'k \<Rightarrow> error option \<times> 'k"

section \<open>Values derived from the specification\<close>

definition labelName :: string where "labelName = ''app.kubernetes.io/name''"

definition labelInstance :: string where "labelInstance = ''app.kubernetes.io/instance''"

definition componentName :: string where "componentName = ''csms-runtime''"

definition defaultPort :: int where "defaultPort = 8080"

definition defaultLivenessPath :: string where "defaultLivenessPath = ''/livez''"

definition defaultReadinessPath :: string where "defaultReadinessPath = ''/readyz''"

definition defaultTerminationGracePeriodSeconds :: int where "defaultTerminationGracePeriodSeconds = 30"

definition tlsServerVolumeName :: string where "tlsServerVolumeName = ''tls-server''"

definition tlsServerMountPath :: string where "tlsServerMountPath = ''/etc/csms/tls/server''"

definition tlsCAVolumeName :: string where "tlsCAVolumeName = ''tls-ca''"

definition tlsCAMountPath :: string where "tlsCAMountPath = ''/etc/csms/tls/ca''"

definition runtime_labels :: "CSMS \<Rightarrow> labels" where
  "runtime_labels csms = [labelName \<mapsto> componentName, labelInstance \<mapsto> cr_Name csms]"

definition httpPort :: "CSMS \<Rightarrow> int" where
  "httpPort csms = (if sp_Port (cr_Spec csms) \<noteq> 0 then sp_Port (cr_Spec csms) else defaultPort)"

definition livenessPath :: "CSMS \<Rightarrow> string" where
  "livenessPath csms = (if sp_LivenessPath (cr_Spec csms) \<noteq> '''' then sp_LivenessPath (cr_Spec csms) else defaultLivenessPath)"

definition readinessPath :: "CSMS \<Rightarrow> string" where
  "readinessPath csms = (if sp_ReadinessPath (cr_Spec csms) \<noteq> '''' then sp_ReadinessPath (cr_Spec csms) else defaultReadinessPath)"

definition terminationGracePeriodSeconds :: "CSMS \<Rightarrow> int" where
  "terminationGracePeriodSeconds csms =
     (case sp_TerminationGracePeriodSeconds (cr_Spec csms) of Some n \<Rightarrow> n | None \<Rightarrow> defaultTerminationGracePeriodSeconds)"

definition probeScheme :: "CSMS \<Rightarrow> URIScheme" where
  "probeScheme csms = (if sp_TLS (cr_Spec csms) \<noteq> None then HTTPS else HTTP)"

definition tlsVolumes :: "CSMS \<Rightarrow> Volume list \<times> VolumeMount list" where
  "tlsVolumes csms =
     (case sp_TLS (cr_Spec csms) of
        None \<Rightarrow> ([], [])
      | Some tls \<Rightarrow>
          (let volumes = [\<lparr>vo_Name = tlsServerVolumeName, vo_SecretName = tls_SecretName tls\<rparr>];
               mounts = [\<lparr>vm_Name = tlsServerVolumeName, vm_MountPath = tlsServerMountPath, vm_ReadOnly = True\<rparr>]
           in if tls_ClientCASecretName tls \<noteq> ''''
              then (volumes @ [\<lparr>vo_Name = tlsCAVolumeName, vo_SecretName = tls_ClientCASecretName tls\<rparr>],
                    mounts @ [\<lparr>vm_Name = tlsCAVolumeName, vm_MountPath = tlsCAMountPath, vm_ReadOnly = True\<rparr>])
              else (volumes, mounts)))"

definition desired_replicas :: "CSMS \<Rightarrow> int" where
  "desired_replicas csms = (case sp_Replicas (cr_Spec csms) of Some n \<Rightarrow> n | None \<Rightarrow> 1)"

definition default_resources :: ResourceRequirements where
  "default_resources =
     \<lparr>rr_Limits = Some [''cpu'' \<mapsto> ''500m'', ''memory'' \<mapsto> ''256Mi''],
      rr_Requests = Some [''cpu'' \<mapsto> ''50m'', ''memory'' \<mapsto> ''64Mi''], rr_Claims = []\<rparr>"

definition runtime_resources :: "CSMS \<Rightarrow> ResourceRequirements" where
  "runtime_resources csms =
     (let resources = sp_Resources (cr_Spec csms) in
      if rr_Requests resources = None \<and> rr_Limits resources = None then default_resources else resources)"

definition envFrom :: "CSMS \<Rightarrow> EnvFromSource list" where
  "envFrom csms =
     ConfigMapRef (cr_Name csms) #
     map (\<lambda>secretName. SecretRef secretName True)
       (filter (\<lambda>secretName. secretName \<noteq> '''')
         [sp_DatabaseSecretName (cr_Spec csms), sp_RedisSecretName (cr_Spec csms), sp_APISecretName (cr_Spec csms)])"

definition runtime_container :: "CSMS \<Rightarrow> Container" where
  "runtime_container csms =
     \<lparr>ct_Name = ''runtime'', ct_Image = sp_Image (cr_Spec csms), ct_ImagePullPolicy = PullIfNotPresent,
      ct_EnvFrom = envFrom csms,
      ct_Env = [\<lparr>ev_Name = ''CSMS_INSTANCE_ID'', ev_FieldPath = ''metadata.name''\<rparr>],
      ct_Ports = [(''http'', httpPort csms)],
      ct_VolumeMounts = snd (tlsVolumes csms),
      ct_ReadinessProbe = \<lparr>pr_Path = readinessPath csms, pr_Port = FromString ''http'', pr_Scheme = probeScheme csms, pr_PeriodSeconds = 5\<rparr>,
      ct_LivenessProbe = \<lparr>pr_Path = livenessPath csms, pr_Port = FromString ''http'', pr_Scheme = probeScheme csms, pr_PeriodSeconds = 10\<rparr>,
      ct_Resources = runtime_resources csms\<rparr>"

definition runtime_template :: "CSMS \<Rightarrow> PodTemplate" where
  "runtime_template csms =
     \<lparr>tm_Labels = runtime_labels csms, tm_TerminationGracePeriodSeconds = terminationGracePeriodSeconds csms,
      tm_Volumes = fst (tlsVolumes csms), tm_Containers = [runtime_container csms]\<rparr>"

section \<open>Reconciling the objects\<close>

definition key_of :: "CSMS \<Rightarrow> key" where
  "key_of csms = (cr_Namespace csms, cr_Name csms)"

definition fresh_meta :: "CSMS \<Rightarrow> ObjectMeta" where
  "fresh_meta csms =
     \<lparr>om_Name = cr_Name csms, om_Namespace = cr_Namespace csms, om_Labels = Map.empty, om_Annotations = Map.empty,
      om_Controller = None, om_Other = ''''\<rparr>"

text \<open>The end of every mutating function: the owner reference.\<close>

definition owned :: "'k kube_client \<Rightarrow> CSMS \<Rightarrow> ObjectMeta \<Rightarrow> (ObjectMeta \<Rightarrow> 'o) \<Rightarrow> error + 'o" where
  "owned kube csms om build =
     (case kc_SetControllerReference kube csms om of Inl err \<Rightarrow> Inl err | Inr om' \<Rightarrow> Inr (build om'))"

definition mutate_ConfigMap :: "'k kube_client \<Rightarrow> CSMS \<Rightarrow> labels \<Rightarrow> ConfigMap \<Rightarrow> error + ConfigMap" where
  "mutate_ConfigMap kube csms labels cm =
     owned kube csms ((cm_Meta cm)\<lparr>om_Labels := labels\<rparr>)
       (\<lambda>om. cm\<lparr>cm_Meta := om, cm_Data := sp_Config (cr_Spec csms)\<rparr>)"

definition reconcileConfigMap :: "'k kube_client \<Rightarrow> CSMS \<Rightarrow> labels \<Rightarrow> 'k \<Rightarrow> error option \<times> 'k" where
  "reconcileConfigMap kube csms labels k =
     (case rc_CreateOrUpdate (kc_ConfigMaps kube) (key_of csms)
             \<lparr>cm_Meta = fresh_meta csms, cm_Data = Map.empty, cm_Other = ''''\<rparr> (mutate_ConfigMap kube csms labels) k of
        (Inl err, k') \<Rightarrow> (Some err, k')
      | (Inr _, k') \<Rightarrow> (None, k'))"

definition mutate_Service :: "'k kube_client \<Rightarrow> CSMS \<Rightarrow> labels \<Rightarrow> Service \<Rightarrow> error + Service" where
  "mutate_Service kube csms labels svc =
     owned kube csms ((sv_Meta svc)\<lparr>om_Labels := labels\<rparr>)
       (\<lambda>om. svc\<lparr>sv_Meta := om, sv_Selector := labels,
          sv_Ports := [\<lparr>pt_Name = ''http'', pt_Port = httpPort csms, pt_TargetPort = FromString ''http''\<rparr>]\<rparr>)"

definition reconcileService :: "'k kube_client \<Rightarrow> CSMS \<Rightarrow> labels \<Rightarrow> 'k \<Rightarrow> error option \<times> 'k" where
  "reconcileService kube csms labels k =
     (case rc_CreateOrUpdate (kc_Services kube) (key_of csms)
             \<lparr>sv_Meta = fresh_meta csms, sv_Selector = Map.empty, sv_Ports = [], sv_Other = ''''\<rparr> (mutate_Service kube csms labels) k of
        (Inl err, k') \<Rightarrow> (Some err, k')
      | (Inr _, k') \<Rightarrow> (None, k'))"

definition mutate_Deployment :: "'k kube_client \<Rightarrow> CSMS \<Rightarrow> labels \<Rightarrow> Deployment \<Rightarrow> error + Deployment" where
  "mutate_Deployment kube csms labels deployment =
     owned kube csms ((dp_Meta deployment)\<lparr>om_Labels := labels\<rparr>)
       (\<lambda>om. deployment\<lparr>dp_Meta := om, dp_Replicas := Some (desired_replicas csms), dp_Selector := labels,
          dp_Template := runtime_template csms\<rparr>)"

definition fresh_Deployment :: "CSMS \<Rightarrow> Deployment" where
  "fresh_Deployment csms =
     \<lparr>dp_Meta = fresh_meta csms, dp_Replicas = None, dp_Selector = Map.empty,
      dp_Template = \<lparr>tm_Labels = Map.empty, tm_TerminationGracePeriodSeconds = 0, tm_Volumes = [], tm_Containers = []\<rparr>,
      dp_Status = \<lparr>ds_Replicas = 0, ds_ReadyReplicas = 0\<rparr>, dp_Other = ''''\<rparr>"

definition reconcileDeployment :: "'k kube_client \<Rightarrow> CSMS \<Rightarrow> labels \<Rightarrow> 'k \<Rightarrow> (error + Deployment) \<times> 'k" where
  "reconcileDeployment kube csms labels k =
     rc_CreateOrUpdate (kc_Deployments kube) (key_of csms) (fresh_Deployment csms) (mutate_Deployment kube csms labels) k"

definition mutate_PDB :: "'k kube_client \<Rightarrow> CSMS \<Rightarrow> labels \<Rightarrow> PodDisruptionBudget \<Rightarrow> error + PodDisruptionBudget" where
  "mutate_PDB kube csms labels pdb =
     owned kube csms ((pd_Meta pdb)\<lparr>om_Labels := labels\<rparr>)
       (\<lambda>om. pdb\<lparr>pd_Meta := om, pd_MinAvailable := sp_MinAvailable (cr_Spec csms), pd_Selector := labels\<rparr>)"

text \<open>The deletion both optional objects share: an absent object is no error.\<close>

definition delete_if_present :: "('k, 'o) resource_client \<Rightarrow> (error \<Rightarrow> bool) \<Rightarrow> key \<Rightarrow> 'k \<Rightarrow> error option \<times> 'k" where
  "delete_if_present rc IsNotFound key k =
     (case rc_Delete rc key k of
        (Some err, k') \<Rightarrow> (if \<not> IsNotFound err then Some err else None, k')
      | (None, k') \<Rightarrow> (None, k'))"

definition reconcilePodDisruptionBudget :: "'k kube_client \<Rightarrow> CSMS \<Rightarrow> labels \<Rightarrow> 'k \<Rightarrow> error option \<times> 'k" where
  "reconcilePodDisruptionBudget kube csms labels k =
     (if sp_MinAvailable (cr_Spec csms) = None
      then delete_if_present (kc_PDBs kube) (kc_IsNotFound kube) (key_of csms) k
      else
        (case rc_CreateOrUpdate (kc_PDBs kube) (key_of csms)
                \<lparr>pd_Meta = fresh_meta csms, pd_MinAvailable = None, pd_Selector = Map.empty, pd_Other = ''''\<rparr>
                (mutate_PDB kube csms labels) k of
           (Inl err, k') \<Rightarrow> (Some err, k')
         | (Inr _, k') \<Rightarrow> (None, k')))"

definition mutate_Ingress :: "'k kube_client \<Rightarrow> CSMS \<Rightarrow> CSMSIngress \<Rightarrow> labels \<Rightarrow> Ingress \<Rightarrow> error + Ingress" where
  "mutate_Ingress kube csms spec labels ingress =
     owned kube csms ((ig_Meta ingress)\<lparr>om_Labels := labels, om_Annotations := ing_Annotations spec\<rparr>)
       (\<lambda>om. ingress\<lparr>ig_Meta := om,
          ig_ClassName := (if ing_IngressClassName spec \<noteq> '''' then Some (ing_IngressClassName spec) else None),
          ig_Rules := [(ing_Host spec, [\<lparr>ip_Path = ''/'', ip_PathTypePrefix = True, ip_Service = cr_Name csms, ip_ServicePort = ''http''\<rparr>])],
          ig_TLS := (if ing_TLSSecretName spec \<noteq> '''' then [([ing_Host spec], ing_TLSSecretName spec)] else [])\<rparr>)"

definition reconcileIngress :: "'k kube_client \<Rightarrow> CSMS \<Rightarrow> labels \<Rightarrow> 'k \<Rightarrow> error option \<times> 'k" where
  "reconcileIngress kube csms labels k =
     (case sp_Ingress (cr_Spec csms) of
        None \<Rightarrow> delete_if_present (kc_Ingresses kube) (kc_IsNotFound kube) (key_of csms) k
      | Some spec \<Rightarrow>
          (case rc_CreateOrUpdate (kc_Ingresses kube) (key_of csms)
                  \<lparr>ig_Meta = fresh_meta csms, ig_ClassName = None, ig_Rules = [], ig_TLS = [], ig_Other = ''''\<rparr>
                  (mutate_Ingress kube csms spec labels) k of
             (Inl err, k') \<Rightarrow> (Some err, k')
           | (Inr _, k') \<Rightarrow> (None, k')))"

section \<open>Status\<close>

definition ready_text :: "Deployment \<Rightarrow> int \<Rightarrow> string" where
  "ready_text deployment desired =
     showInt (ds_ReadyReplicas (dp_Status deployment)) @ ''/'' @ showInt desired @ '' replicas ready''"

definition available_condition :: "CSMS \<Rightarrow> Deployment \<Rightarrow> Condition" where
  "available_condition csms deployment =
     (let available = \<lparr>cd_Type = CSMSConditionAvailable, cd_Status = False, cd_Reason = ''NoReadyReplicas'',
            cd_Message = ''no Runtime replica is ready'', cd_ObservedGeneration = cr_Generation csms,
            cd_LastTransitionTime = zero_time\<rparr>
      in if 0 < ds_ReadyReplicas (dp_Status deployment)
         then available\<lparr>cd_Status := True, cd_Reason := ''ReplicasReady'',
                cd_Message := ready_text deployment (desired_replicas csms)\<rparr>
         else available)"

definition progressing_condition :: "CSMS \<Rightarrow> Deployment \<Rightarrow> Condition" where
  "progressing_condition csms deployment =
     (let progressing = \<lparr>cd_Type = CSMSConditionProgressing, cd_Status = True, cd_Reason = ''ReplicasNotReady'',
            cd_Message = ready_text deployment (desired_replicas csms), cd_ObservedGeneration = cr_Generation csms,
            cd_LastTransitionTime = zero_time\<rparr>
      in if ds_ReadyReplicas (dp_Status deployment) = desired_replicas csms
         then progressing\<lparr>cd_Status := False, cd_Reason := ''ReplicasReady''\<rparr>
         else progressing)"

text \<open>\<open>t1\<close> and \<open>t2\<close> are the clock at the two calls of SetStatusCondition.\<close>

definition observed_status :: "'k kube_client \<Rightarrow> time \<Rightarrow> time \<Rightarrow> CSMS \<Rightarrow> Deployment \<Rightarrow> CSMSStatus" where
  "observed_status kube t1 t2 csms deployment =
     \<lparr>su_Replicas = ds_Replicas (dp_Status deployment), su_ReadyReplicas = ds_ReadyReplicas (dp_Status deployment),
      su_ObservedGeneration = cr_Generation csms,
      su_Conditions = kc_SetStatusCondition kube t2 (progressing_condition csms deployment)
        (kc_SetStatusCondition kube t1 (available_condition csms deployment) (su_Conditions (cr_Status csms)))\<rparr>"

definition updateStatus :: "'k kube_client \<Rightarrow> time \<Rightarrow> time \<Rightarrow> CSMS \<Rightarrow> Deployment \<Rightarrow> 'k \<Rightarrow> error option \<times> 'k" where
  "updateStatus kube t1 t2 csms deployment k =
     kc_StatusUpdate kube (csms\<lparr>cr_Status := observed_status kube t1 t2 csms deployment\<rparr>) k"

section \<open>Reconcile\<close>

definition Reconcile_found :: "'k kube_client \<Rightarrow> time \<Rightarrow> time \<Rightarrow> CSMS \<Rightarrow> 'k \<Rightarrow> error option \<times> 'k" where
  "Reconcile_found kube t1 t2 csms k =
     (let labels = runtime_labels csms in
      case reconcileConfigMap kube csms labels k of
        (Some err, k1) \<Rightarrow> (Some (errors_Wrap ''reconcile configmap: '' err), k1)
      | (None, k1) \<Rightarrow>
          (case reconcileService kube csms labels k1 of
             (Some err, k2) \<Rightarrow> (Some (errors_Wrap ''reconcile service: '' err), k2)
           | (None, k2) \<Rightarrow>
               (case reconcileDeployment kube csms labels k2 of
                  (Inl err, k3) \<Rightarrow> (Some (errors_Wrap ''reconcile deployment: '' err), k3)
                | (Inr deployment, k3) \<Rightarrow>
                    (case reconcilePodDisruptionBudget kube csms labels k3 of
                       (Some err, k4) \<Rightarrow> (Some (errors_Wrap ''reconcile poddisruptionbudget: '' err), k4)
                     | (None, k4) \<Rightarrow>
                         (case reconcileIngress kube csms labels k4 of
                            (Some err, k5) \<Rightarrow> (Some (errors_Wrap ''reconcile ingress: '' err), k5)
                          | (None, k5) \<Rightarrow>
                              (case updateStatus kube t1 t2 csms deployment k5 of
                                 (Some err, k6) \<Rightarrow> (Some (errors_Wrap ''update status: '' err), k6)
                               | (None, k6) \<Rightarrow> (None, k6)))))))"

definition Reconcile :: "'k kube_client \<Rightarrow> time \<Rightarrow> time \<Rightarrow> key \<Rightarrow> 'k \<Rightarrow> error option \<times> 'k" where
  "Reconcile kube t1 t2 key k =
     (case kc_Get kube key k of
        (Inl err, k') \<Rightarrow> (if kc_IsNotFound kube err then None else Some err, k')
      | (Inr csms, k') \<Rightarrow> Reconcile_found kube t1 t2 csms k')"

end
