(* ===== verification/Controller_Proofs.thy ===== *)
theory Controller_Proofs
  imports Controller
begin

text \<open>
  What the controller achieves over a Kubernetes API that keeps its contract: a reconciliation without
  error leaves the cluster as the resource specifies and a second one changes nothing; whatever fails,
  nothing outside the resource's own objects is touched.
\<close>

section \<open>The contract\<close>

text \<open>
  One kind of object: \<open>get\<close> and \<open>put\<close> select its part of the cluster. A call that reports an error had its
  effect or none; a deletion of something absent is reported as not found.
\<close>

locale resource_store =
  fixes rc :: "('k, 'o) resource_client"
    and view :: "'k \<Rightarrow> kube_state"
    and get :: "kube_state \<Rightarrow> key \<rightharpoonup> 'o"
    and put :: "(key \<rightharpoonup> 'o) \<Rightarrow> kube_state \<Rightarrow> kube_state"
    and IsNotFound :: "error \<Rightarrow> bool"
  assumes create_ok: "rc_CreateOrUpdate rc key fresh f k = (Inr ob, k') \<Longrightarrow>
      f (case get (view k) key of None \<Rightarrow> fresh | Some ob \<Rightarrow> ob) = Inr ob \<and> view k' = put ((get (view k))(key \<mapsto> ob)) (view k)"
    and create_failed: "rc_CreateOrUpdate rc key fresh f k = (Inl err, k') \<Longrightarrow> view k' = view k \<or>
      (\<exists>ob. f (case get (view k) key of None \<Rightarrow> fresh | Some ob \<Rightarrow> ob) = Inr ob \<and> view k' = put ((get (view k))(key \<mapsto> ob)) (view k))"
    and delete_ok: "rc_Delete rc key k = (None, k') \<Longrightarrow> view k' = put ((get (view k))(key := None)) (view k)"
    and delete_failed: "rc_Delete rc key k = (Some err, k') \<Longrightarrow>
      (if IsNotFound err then get (view k) key = None \<and> view k' = view k
       else view k' = view k \<or> view k' = put ((get (view k))(key := None)) (view k))"
    and put_get: "put (get c) c = c"

text \<open>Two conditions that differ in the time of transition only.\<close>

definition same_condition :: "Condition \<Rightarrow> Condition \<Rightarrow> bool" where
  "same_condition a b \<longleftrightarrow> a\<lparr>cd_LastTransitionTime := 0\<rparr> = b\<lparr>cd_LastTransitionTime := 0\<rparr>"

definition condition_of :: "string \<Rightarrow> Condition list \<Rightarrow> Condition option" where
  "condition_of t cs = find (\<lambda>c. cd_Type c = t) cs"

text \<open>
  The whole client: five kinds of objects, reads that return what is stored, the status subresource
  that changes the status only, an owner reference that admits one controller, and conditions
  that are replaced by type.
\<close>

locale kube_api =
  cms: resource_store "kc_ConfigMaps kube" view cv_ConfigMap "\<lambda>m. cv_ConfigMap_update (\<lambda>_. m)" "kc_IsNotFound kube" +
  svs: resource_store "kc_Services kube" view cv_Service "\<lambda>m. cv_Service_update (\<lambda>_. m)" "kc_IsNotFound kube" +
  dps: resource_store "kc_Deployments kube" view cv_Deployment "\<lambda>m. cv_Deployment_update (\<lambda>_. m)" "kc_IsNotFound kube" +
  pds: resource_store "kc_PDBs kube" view cv_PDB "\<lambda>m. cv_PDB_update (\<lambda>_. m)" "kc_IsNotFound kube" +
  igs: resource_store "kc_Ingresses kube" view cv_Ingress "\<lambda>m. cv_Ingress_update (\<lambda>_. m)" "kc_IsNotFound kube"
  for kube :: "'k kube_client" and view :: "'k \<Rightarrow> kube_state" +
  assumes get_ok: "kc_Get kube key k = (Inr csms, k') \<Longrightarrow> cv_CSMS (view k) key = Some csms \<and> key_of csms = key \<and> view k' = view k"
    and get_failed: "kc_Get kube key k = (Inl err, k') \<Longrightarrow> view k' = view k \<and> (kc_IsNotFound kube err \<longrightarrow> cv_CSMS (view k) key = None)"
    and status_ok: "kc_StatusUpdate kube csms k = (None, k') \<Longrightarrow> \<exists>c0. cv_CSMS (view k) (key_of csms) = Some c0 \<and>
      view k' = (view k)\<lparr>cv_CSMS := (cv_CSMS (view k))(key_of csms \<mapsto> c0\<lparr>cr_Status := cr_Status csms\<rparr>)\<rparr>"
    and status_failed: "kc_StatusUpdate kube csms k = (Some err, k') \<Longrightarrow> view k' = view k \<or> (\<exists>c0. cv_CSMS (view k) (key_of csms) = Some c0 \<and>
      view k' = (view k)\<lparr>cv_CSMS := (cv_CSMS (view k))(key_of csms \<mapsto> c0\<lparr>cr_Status := cr_Status csms\<rparr>)\<rparr>)"
    and reference_ok: "kc_SetControllerReference kube csms om = Inr om' \<Longrightarrow>
      (om_Controller om = None \<or> om_Controller om = Some (cr_UID csms)) \<and> om' = om\<lparr>om_Controller := Some (cr_UID csms)\<rparr>"
    and condition_set: "\<exists>c. condition_of (cd_Type new) (kc_SetStatusCondition kube t new cs) = Some c \<and> same_condition c new"
    and condition_other: "u \<noteq> cd_Type new \<Longrightarrow> condition_of u (kc_SetStatusCondition kube t new cs) = condition_of u cs"
    and condition_again: "condition_of (cd_Type new) cs = Some c \<Longrightarrow> same_condition c new \<Longrightarrow> kc_SetStatusCondition kube t new cs = cs"

section \<open>What the resource asks for\<close>

definition owned_by :: "CSMS \<Rightarrow> ObjectMeta \<Rightarrow> bool" where
  "owned_by csms om \<longleftrightarrow> om_Labels om = runtime_labels csms \<and> om_Controller om = Some (cr_UID csms)"

text \<open>The pods of the deployment: as many as asked for, found by its own selector, with what the resource configures.\<close>

definition deployment_meets :: "CSMS \<Rightarrow> Deployment \<Rightarrow> bool" where
  "deployment_meets csms d \<longleftrightarrow>
     owned_by csms (dp_Meta d) \<and> dp_Replicas d = Some (desired_replicas csms) \<and>
     tm_Labels (dp_Template d) = dp_Selector d \<and> dp_Template d = runtime_template csms"

text \<open>The service selects the pods of the deployment and reaches the port they listen on.\<close>

definition service_reaches :: "CSMS \<Rightarrow> Service \<Rightarrow> Deployment \<Rightarrow> bool" where
  "service_reaches csms s d \<longleftrightarrow>
     owned_by csms (sv_Meta s) \<and> sv_Selector s = tm_Labels (dp_Template d) \<and>
     (\<exists>p c. sv_Ports s = [p] \<and> tm_Containers (dp_Template d) = [c] \<and> pt_Port p = httpPort csms \<and>
        (\<exists>name. pt_TargetPort p = FromString name \<and> map_of (ct_Ports c) name = Some (httpPort csms)))"

definition ingress_routes :: "CSMS \<Rightarrow> CSMSIngress \<Rightarrow> Ingress \<Rightarrow> Service \<Rightarrow> bool" where
  "ingress_routes csms spec i s \<longleftrightarrow>
     owned_by csms (ig_Meta i) \<and> om_Annotations (ig_Meta i) = ing_Annotations spec \<and>
     (\<exists>r p. ig_Rules i = [(ing_Host spec, [r])] \<and> ip_Service r = cr_Name csms \<and> sv_Ports s = [p] \<and> ip_ServicePort r = pt_Name p) \<and>
     (ig_TLS i = [] \<longleftrightarrow> ing_TLSSecretName spec = '''') \<and> (\<forall>(hosts, secret) \<in> set (ig_TLS i). hosts = [ing_Host spec] \<and> secret = ing_TLSSecretName spec)"

definition meets_spec :: "CSMS \<Rightarrow> kube_state \<Rightarrow> bool" where
  "meets_spec csms cl \<longleftrightarrow>
     (\<exists>cm s d. cv_ConfigMap cl (key_of csms) = Some cm \<and> cv_Service cl (key_of csms) = Some s \<and> cv_Deployment cl (key_of csms) = Some d \<and>
        owned_by csms (cm_Meta cm) \<and> cm_Data cm = sp_Config (cr_Spec csms) \<and>
        deployment_meets csms d \<and> service_reaches csms s d \<and>
        (case sp_MinAvailable (cr_Spec csms) of
           None \<Rightarrow> cv_PDB cl (key_of csms) = None
         | Some v \<Rightarrow> \<exists>b. cv_PDB cl (key_of csms) = Some b \<and> owned_by csms (pd_Meta b) \<and> pd_MinAvailable b = Some v \<and>
                     pd_Selector b = dp_Selector d) \<and>
        (case sp_Ingress (cr_Spec csms) of
           None \<Rightarrow> cv_Ingress cl (key_of csms) = None
         | Some spec \<Rightarrow> \<exists>i. cv_Ingress cl (key_of csms) = Some i \<and> ingress_routes csms spec i s))"

text \<open>The reported status: the deployment's numbers, and the two conditions as their names say.\<close>

definition reports :: "CSMS \<Rightarrow> CSMSStatus \<Rightarrow> Deployment \<Rightarrow> bool" where
  "reports csms st d \<longleftrightarrow>
     su_Replicas st = ds_Replicas (dp_Status d) \<and> su_ReadyReplicas st = ds_ReadyReplicas (dp_Status d) \<and>
     su_ObservedGeneration st = cr_Generation csms \<and>
     (\<exists>a p. condition_of ''Available'' (su_Conditions st) = Some a \<and> condition_of ''Progressing'' (su_Conditions st) = Some p \<and>
        cd_ObservedGeneration a = cr_Generation csms \<and> cd_ObservedGeneration p = cr_Generation csms \<and>
        (cd_Status a \<longleftrightarrow> 0 < ds_ReadyReplicas (dp_Status d)) \<and>
        (cd_Status p \<longleftrightarrow> ds_ReadyReplicas (dp_Status d) \<noteq> desired_replicas csms))"

section \<open>The state a reconciliation aims at\<close>

text \<open>
  The effect of each step as a function on the cluster. \<open>upsert\<close> is what CreateOrUpdate does to the
  objects of one kind.
\<close>

definition current :: "key \<Rightarrow> 'o \<Rightarrow> (key \<rightharpoonup> 'o) \<Rightarrow> 'o" where
  "current key fresh m = (case m key of None \<Rightarrow> fresh | Some ob \<Rightarrow> ob)"

definition upsert :: "key \<Rightarrow> 'o \<Rightarrow> ('o \<Rightarrow> 'o) \<Rightarrow> (key \<rightharpoonup> 'o) \<Rightarrow> (key \<rightharpoonup> 'o)" where
  "upsert key fresh g m = m(key \<mapsto> g (current key fresh m))"

lemma upsert_same [simp]: "upsert key fresh g m key = Some (g (current key fresh m))"
  by (simp add: upsert_def)

lemma upsert_elsewhere [simp]: "key' \<noteq> key \<Longrightarrow> upsert key fresh g m key' = m key'"
  by (simp add: upsert_def)

lemma upsert_idem: "(\<And>x. g (g x) = g x) \<Longrightarrow> upsert key fresh g (upsert key fresh g m) = upsert key fresh g m"
  by (simp add: upsert_def current_def)

definition take_over :: "CSMS \<Rightarrow> ObjectMeta \<Rightarrow> ObjectMeta" where
  "take_over csms om = om\<lparr>om_Labels := runtime_labels csms, om_Controller := Some (cr_UID csms)\<rparr>"

definition set_ConfigMap :: "CSMS \<Rightarrow> ConfigMap \<Rightarrow> ConfigMap" where
  "set_ConfigMap csms cm = cm\<lparr>cm_Meta := take_over csms (cm_Meta cm), cm_Data := sp_Config (cr_Spec csms)\<rparr>"

definition set_Service :: "CSMS \<Rightarrow> Service \<Rightarrow> Service" where
  "set_Service csms s = s\<lparr>sv_Meta := take_over csms (sv_Meta s), sv_Selector := runtime_labels csms,
     sv_Ports := [\<lparr>pt_Name = ''http'', pt_Port = httpPort csms, pt_TargetPort = FromString ''http''\<rparr>]\<rparr>"

definition set_Deployment :: "CSMS \<Rightarrow> Deployment \<Rightarrow> Deployment" where
  "set_Deployment csms d = d\<lparr>dp_Meta := take_over csms (dp_Meta d), dp_Replicas := Some (desired_replicas csms),
     dp_Selector := runtime_labels csms, dp_Template := runtime_template csms\<rparr>"

definition set_PDB :: "CSMS \<Rightarrow> PodDisruptionBudget \<Rightarrow> PodDisruptionBudget" where
  "set_PDB csms b = b\<lparr>pd_Meta := take_over csms (pd_Meta b), pd_MinAvailable := sp_MinAvailable (cr_Spec csms),
     pd_Selector := runtime_labels csms\<rparr>"

definition set_Ingress :: "CSMS \<Rightarrow> CSMSIngress \<Rightarrow> Ingress \<Rightarrow> Ingress" where
  "set_Ingress csms spec i = i\<lparr>ig_Meta := (take_over csms (ig_Meta i))\<lparr>om_Annotations := ing_Annotations spec\<rparr>,
     ig_ClassName := (if ing_IngressClassName spec \<noteq> '''' then Some (ing_IngressClassName spec) else None),
     ig_Rules := [(ing_Host spec, [\<lparr>ip_Path = ''/'', ip_PathTypePrefix = True, ip_Service = cr_Name csms, ip_ServicePort = ''http''\<rparr>])],
     ig_TLS := (if ing_TLSSecretName spec \<noteq> '''' then [([ing_Host spec], ing_TLSSecretName spec)] else [])\<rparr>"

lemmas set_defs = set_ConfigMap_def set_Service_def set_Deployment_def set_PDB_def set_Ingress_def take_over_def

lemma set_idem:
  "set_ConfigMap csms (set_ConfigMap csms cm) = set_ConfigMap csms cm"
  "set_Service csms (set_Service csms s) = set_Service csms s"
  "set_Deployment csms (set_Deployment csms d) = set_Deployment csms d"
  "set_PDB csms (set_PDB csms b) = set_PDB csms b"
  "set_Ingress csms spec (set_Ingress csms spec i) = set_Ingress csms spec i"
  by (simp_all add: set_defs)

abbreviation "fresh_ConfigMap csms \<equiv> \<lparr>cm_Meta = fresh_meta csms, cm_Data = Map.empty, cm_Other = ''''\<rparr>"

abbreviation "fresh_Service csms \<equiv> \<lparr>sv_Meta = fresh_meta csms, sv_Selector = Map.empty, sv_Ports = [], sv_Other = ''''\<rparr>"

abbreviation "fresh_PDB csms \<equiv> \<lparr>pd_Meta = fresh_meta csms, pd_MinAvailable = None, pd_Selector = Map.empty, pd_Other = ''''\<rparr>"

abbreviation "fresh_Ingress csms \<equiv> \<lparr>ig_Meta = fresh_meta csms, ig_ClassName = None, ig_Rules = [], ig_TLS = [], ig_Other = ''''\<rparr>"

definition want_ConfigMap :: "CSMS \<Rightarrow> kube_state \<Rightarrow> kube_state" where
  "want_ConfigMap csms = cv_ConfigMap_update (upsert (key_of csms) (fresh_ConfigMap csms) (set_ConfigMap csms))"

definition want_Service :: "CSMS \<Rightarrow> kube_state \<Rightarrow> kube_state" where
  "want_Service csms = cv_Service_update (upsert (key_of csms) (fresh_Service csms) (set_Service csms))"

definition want_Deployment :: "CSMS \<Rightarrow> kube_state \<Rightarrow> kube_state" where
  "want_Deployment csms = cv_Deployment_update (upsert (key_of csms) (fresh_Deployment csms) (set_Deployment csms))"

definition want_PDB :: "CSMS \<Rightarrow> kube_state \<Rightarrow> kube_state" where
  "want_PDB csms = cv_PDB_update (\<lambda>m. if sp_MinAvailable (cr_Spec csms) = None then m(key_of csms := None)
     else upsert (key_of csms) (fresh_PDB csms) (set_PDB csms) m)"

definition want_Ingress :: "CSMS \<Rightarrow> kube_state \<Rightarrow> kube_state" where
  "want_Ingress csms = cv_Ingress_update (\<lambda>m. case sp_Ingress (cr_Spec csms) of None \<Rightarrow> m(key_of csms := None)
     | Some spec \<Rightarrow> upsert (key_of csms) (fresh_Ingress csms) (set_Ingress csms spec) m)"

definition want :: "CSMS \<Rightarrow> kube_state \<Rightarrow> kube_state" where
  "want csms cl = want_Ingress csms (want_PDB csms (want_Deployment csms (want_Service csms (want_ConfigMap csms cl))))"

lemmas want_defs = want_ConfigMap_def want_Service_def want_Deployment_def want_PDB_def want_Ingress_def

lemma want_maps:
  "cv_CSMS (want csms cl) = cv_CSMS cl"
  "cv_ConfigMap (want csms cl) = upsert (key_of csms) (fresh_ConfigMap csms) (set_ConfigMap csms) (cv_ConfigMap cl)"
  "cv_Service (want csms cl) = upsert (key_of csms) (fresh_Service csms) (set_Service csms) (cv_Service cl)"
  "cv_Deployment (want csms cl) = upsert (key_of csms) (fresh_Deployment csms) (set_Deployment csms) (cv_Deployment cl)"
  "cv_PDB (want csms cl) = (if sp_MinAvailable (cr_Spec csms) = None then (cv_PDB cl)(key_of csms := None)
     else upsert (key_of csms) (fresh_PDB csms) (set_PDB csms) (cv_PDB cl))"
  "cv_Ingress (want csms cl) = (case sp_Ingress (cr_Spec csms) of None \<Rightarrow> (cv_Ingress cl)(key_of csms := None)
     | Some spec \<Rightarrow> upsert (key_of csms) (fresh_Ingress csms) (set_Ingress csms spec) (cv_Ingress cl))"
  by (simp_all add: want_def want_defs)

lemma want_idem: "want csms (want csms cl) = want csms cl"
proof -
  have "cv_PDB (want csms (want csms cl)) = cv_PDB (want csms cl)"
    by (simp add: want_maps upsert_idem set_idem)
  moreover have "cv_Ingress (want csms (want csms cl)) = cv_Ingress (want csms cl)"
    by (cases "sp_Ingress (cr_Spec csms)") (simp_all add: want_maps upsert_idem set_idem)
  ultimately show ?thesis
    by (intro kube_state.equality) (simp_all add: want_maps(1-4) upsert_idem set_idem)
qed

lemma want_meets_spec: "meets_spec csms (want csms cl)"
proof -
  have pdb: "case sp_MinAvailable (cr_Spec csms) of None \<Rightarrow> cv_PDB (want csms cl) (key_of csms) = None
      | Some v \<Rightarrow> \<exists>b. cv_PDB (want csms cl) (key_of csms) = Some b \<and> owned_by csms (pd_Meta b) \<and> pd_MinAvailable b = Some v \<and>
          pd_Selector b = dp_Selector (set_Deployment csms d)" for d
    by (cases "sp_MinAvailable (cr_Spec csms)") (simp_all add: want_maps set_defs owned_by_def)
  have ing: "case sp_Ingress (cr_Spec csms) of None \<Rightarrow> cv_Ingress (want csms cl) (key_of csms) = None
      | Some spec \<Rightarrow> \<exists>i. cv_Ingress (want csms cl) (key_of csms) = Some i \<and> ingress_routes csms spec i (set_Service csms s)" for s
    by (cases "sp_Ingress (cr_Spec csms)") (simp_all add: want_maps set_defs owned_by_def ingress_routes_def)
  have dep: "deployment_meets csms (set_Deployment csms d)" "dp_Selector (set_Deployment csms d) = runtime_labels csms" for d
    by (simp_all add: deployment_meets_def owned_by_def set_defs runtime_template_def)
  have svc: "service_reaches csms (set_Service csms s) (set_Deployment csms d)" for s d
    by (simp add: service_reaches_def owned_by_def set_defs runtime_template_def runtime_container_def)
  have cm: "owned_by csms (cm_Meta (set_ConfigMap csms c))" "cm_Data (set_ConfigMap csms c) = sp_Config (cr_Spec csms)" for c
    by (simp_all add: owned_by_def set_defs)
  show ?thesis
    unfolding meets_spec_def using pdb ing by (simp add: want_maps(2-4) dep svc cm)
qed

section \<open>The steps\<close>

context resource_store
begin

text \<open>
  A mutating function that, where it does not refuse, computes \<open>g\<close>: a success is the upsert of \<open>g\<close>, an
  error that or nothing, and a refusal nothing.
\<close>

lemma create_step:
  assumes "rc_CreateOrUpdate rc key fresh f k = (res, k')" "\<forall>x y. f x = Inr y \<longrightarrow> y = g x \<and> P x"
  shows "(\<exists>err. res = Inl err) \<and> view k' = view k \<or>
    view k' = put (upsert key fresh g (get (view k))) (view k) \<and> P (current key fresh (get (view k))) \<and>
    (\<forall>ob. res = Inr ob \<longrightarrow> ob = g (current key fresh (get (view k))))"
proof (cases res)
  case (Inl err)
  then show ?thesis
    using create_failed [of key fresh f k err k'] assms unfolding upsert_def current_def by blast
next
  case (Inr ob)
  then show ?thesis
    using create_ok [of key fresh f k ob k'] assms unfolding upsert_def current_def by blast
qed

lemma delete_if_present_ok:
  assumes "delete_if_present rc IsNotFound key k = (None, k')"
  shows "view k' = put ((get (view k))(key := None)) (view k)"
proof (cases "rc_Delete rc key k")
  case (Pair res k1)
  show ?thesis
  proof (cases res)
    case None
    with Pair assms show ?thesis using delete_ok by (simp add: delete_if_present_def)
  next
    case (Some err)
    with Pair assms have e: "IsNotFound err" "k' = k1" by (auto simp: delete_if_present_def split: if_splits)
    with Pair Some have "get (view k) key = None \<and> view k' = view k" using delete_failed [of key k err k1] by simp
    then show ?thesis by (metis fun_upd_idem_iff put_get)
  qed
qed

lemma delete_if_present_touches:
  assumes "delete_if_present rc IsNotFound key k = (res, k')"
  shows "view k' = view k \<or> view k' = put ((get (view k))(key := None)) (view k)"
proof (cases "rc_Delete rc key k")
  case (Pair r k1)
  then have "k' = k1" using assms by (auto simp: delete_if_present_def split: option.splits)
  with Pair show ?thesis
    using delete_ok [of key k k1] delete_failed [of key k _ k1] by (cases r) (auto split: if_splits)
qed

end

text \<open>An object may be taken over when nobody or the resource itself controls it.\<close>

definition free_for :: "CSMS \<Rightarrow> ObjectMeta \<Rightarrow> bool" where
  "free_for csms om \<longleftrightarrow> om_Controller om = None \<or> om_Controller om = Some (cr_UID csms)"

context kube_api
begin

lemma owned_cases:
  assumes "owned kube csms om build = Inr ob"
  shows "ob = build (om\<lparr>om_Controller := Some (cr_UID csms)\<rparr>) \<and> free_for csms om"
  using assms reference_ok [of csms om] by (auto simp: owned_def free_for_def split: sum.splits)

lemma mutates:
  "\<forall>x y. mutate_ConfigMap kube csms (runtime_labels csms) x = Inr y \<longrightarrow> y = set_ConfigMap csms x \<and> free_for csms (cm_Meta x)"
  "\<forall>x y. mutate_Service kube csms (runtime_labels csms) x = Inr y \<longrightarrow> y = set_Service csms x \<and> free_for csms (sv_Meta x)"
  "\<forall>x y. mutate_Deployment kube csms (runtime_labels csms) x = Inr y \<longrightarrow> y = set_Deployment csms x \<and> free_for csms (dp_Meta x)"
  "\<forall>x y. mutate_PDB kube csms (runtime_labels csms) x = Inr y \<longrightarrow> y = set_PDB csms x \<and> free_for csms (pd_Meta x)"
  "\<forall>x y. mutate_Ingress kube csms spec (runtime_labels csms) x = Inr y \<longrightarrow> y = set_Ingress csms spec x \<and> free_for csms (ig_Meta x)"
  unfolding mutate_ConfigMap_def mutate_Service_def mutate_Deployment_def mutate_PDB_def mutate_Ingress_def
  by (intro allI impI, drule owned_cases, simp add: set_defs free_for_def)+

lemma ConfigMap_step:
  assumes "reconcileConfigMap kube csms (runtime_labels csms) k = (res, k')"
  shows "res \<noteq> None \<and> view k' = view k \<or>
    view k' = want_ConfigMap csms (view k) \<and> free_for csms (cm_Meta (current (key_of csms) (fresh_ConfigMap csms) (cv_ConfigMap (view k))))"
proof (cases "rc_CreateOrUpdate (kc_ConfigMaps kube) (key_of csms) (fresh_ConfigMap csms) (mutate_ConfigMap kube csms (runtime_labels csms)) k")
  case (Pair r k1)
  from cms.create_step [OF this mutates(1)] show ?thesis
    using assms Pair by (cases r) (auto simp: reconcileConfigMap_def want_ConfigMap_def)
qed

lemma Service_step:
  assumes "reconcileService kube csms (runtime_labels csms) k = (res, k')"
  shows "res \<noteq> None \<and> view k' = view k \<or>
    view k' = want_Service csms (view k) \<and> free_for csms (sv_Meta (current (key_of csms) (fresh_Service csms) (cv_Service (view k))))"
proof (cases "rc_CreateOrUpdate (kc_Services kube) (key_of csms) (fresh_Service csms) (mutate_Service kube csms (runtime_labels csms)) k")
  case (Pair r k1)
  from svs.create_step [OF this mutates(2)] show ?thesis
    using assms Pair by (cases r) (auto simp: reconcileService_def want_Service_def)
qed

lemma Deployment_step:
  assumes "reconcileDeployment kube csms (runtime_labels csms) k = (res, k')"
  shows "(\<exists>err. res = Inl err) \<and> view k' = view k \<or>
    view k' = want_Deployment csms (view k) \<and> free_for csms (dp_Meta (current (key_of csms) (fresh_Deployment csms) (cv_Deployment (view k)))) \<and>
    (\<forall>d. res = Inr d \<longrightarrow> cv_Deployment (view k') (key_of csms) = Some d)"
  using dps.create_step [OF assms [unfolded reconcileDeployment_def] mutates(3)] by (auto simp: want_Deployment_def)

lemma PDB_step:
  assumes "reconcilePodDisruptionBudget kube csms (runtime_labels csms) k = (res, k')"
  shows "res \<noteq> None \<and> view k' = view k \<or> view k' = want_PDB csms (view k)"
proof (cases "sp_MinAvailable (cr_Spec csms) = None")
  case True
  with assms have d: "delete_if_present (kc_PDBs kube) (kc_IsNotFound kube) (key_of csms) k = (res, k')"
    by (simp add: reconcilePodDisruptionBudget_def)
  show ?thesis
    using True pds.delete_if_present_touches [OF d] pds.delete_if_present_ok [of "key_of csms" k k'] d
    by (cases res) (auto simp: want_PDB_def)
next
  case False
  show ?thesis
  proof (cases "rc_CreateOrUpdate (kc_PDBs kube) (key_of csms) (fresh_PDB csms) (mutate_PDB kube csms (runtime_labels csms)) k")
    case (Pair r k1)
    from pds.create_step [OF this mutates(4)] show ?thesis
      using False assms Pair by (cases r) (auto simp: reconcilePodDisruptionBudget_def want_PDB_def)
  qed
qed

lemma Ingress_step:
  assumes "reconcileIngress kube csms (runtime_labels csms) k = (res, k')"
  shows "res \<noteq> None \<and> view k' = view k \<or> view k' = want_Ingress csms (view k)"
proof (cases "sp_Ingress (cr_Spec csms)")
  case None
  with assms have d: "delete_if_present (kc_Ingresses kube) (kc_IsNotFound kube) (key_of csms) k = (res, k')"
    by (simp add: reconcileIngress_def)
  show ?thesis
    using None igs.delete_if_present_touches [OF d] igs.delete_if_present_ok [of "key_of csms" k k'] d
    by (cases res) (auto simp: want_Ingress_def)
next
  case (Some spec)
  show ?thesis
  proof (cases "rc_CreateOrUpdate (kc_Ingresses kube) (key_of csms) (fresh_Ingress csms) (mutate_Ingress kube csms spec (runtime_labels csms)) k")
    case (Pair r k1)
    from igs.create_step [OF this mutates(5)] show ?thesis
      using Some assms Pair by (cases r) (auto simp: reconcileIngress_def want_Ingress_def)
  qed
qed

end

section \<open>A whole reconciliation\<close>

text \<open>
  What a reconciliation may change: objects under the resource's own key, of those in the hands of
  another controller only the disruption budget and the ingress, and of the resource only its status.
\<close>

definition foreign :: "CSMS \<Rightarrow> ObjectMeta \<Rightarrow> bool" where
  "foreign csms om \<longleftrightarrow> \<not> free_for csms om"

definition status_only :: "CSMS option \<Rightarrow> CSMS option \<Rightarrow> bool" where
  "status_only a b \<longleftrightarrow> b = a \<or> (\<exists>c st. a = Some c \<and> b = Some (c\<lparr>cr_Status := st\<rparr>))"

lemma status_only_refl [simp]: "status_only a a"
  by (simp add: status_only_def)

lemma status_only_trans: "status_only a b \<Longrightarrow> status_only b c \<Longrightarrow> status_only a c"
  by (auto simp: status_only_def)

definition confined :: "CSMS \<Rightarrow> kube_state \<Rightarrow> kube_state \<Rightarrow> bool" where
  "confined csms c c' \<longleftrightarrow>
     (\<forall>key. key \<noteq> key_of csms \<longrightarrow> cv_CSMS c' key = cv_CSMS c key \<and> cv_ConfigMap c' key = cv_ConfigMap c key \<and>
        cv_Service c' key = cv_Service c key \<and> cv_Deployment c' key = cv_Deployment c key \<and>
        cv_PDB c' key = cv_PDB c key \<and> cv_Ingress c' key = cv_Ingress c key) \<and>
     status_only (cv_CSMS c (key_of csms)) (cv_CSMS c' (key_of csms)) \<and>
     (\<forall>x. cv_ConfigMap c (key_of csms) = Some x \<and> foreign csms (cm_Meta x) \<longrightarrow> cv_ConfigMap c' (key_of csms) = Some x) \<and>
     (\<forall>x. cv_Service c (key_of csms) = Some x \<and> foreign csms (sv_Meta x) \<longrightarrow> cv_Service c' (key_of csms) = Some x) \<and>
     (\<forall>x. cv_Deployment c (key_of csms) = Some x \<and> foreign csms (dp_Meta x) \<longrightarrow> cv_Deployment c' (key_of csms) = Some x)"

lemma confined_refl [simp]: "confined csms c c"
  by (simp add: confined_def)

lemma confined_trans: "confined csms a b \<Longrightarrow> confined csms b c \<Longrightarrow> confined csms a c"
  by (simp add: confined_def) (blast intro: status_only_trans)

lemma confined_want:
  "free_for csms (cm_Meta (current (key_of csms) (fresh_ConfigMap csms) (cv_ConfigMap c))) \<Longrightarrow> confined csms c (want_ConfigMap csms c)"
  "free_for csms (sv_Meta (current (key_of csms) (fresh_Service csms) (cv_Service c))) \<Longrightarrow> confined csms c (want_Service csms c)"
  "free_for csms (dp_Meta (current (key_of csms) (fresh_Deployment csms) (cv_Deployment c))) \<Longrightarrow> confined csms c (want_Deployment csms c)"
  "confined csms c (want_PDB csms c)" "confined csms c (want_Ingress csms c)"
  by (auto simp: confined_def foreign_def current_def want_defs split: option.splits)

context kube_api
begin

lemma status_reports: "reports csms (observed_status kube t1 t2 csms d) d"
proof -
  let ?cs = "kc_SetStatusCondition kube t1 (available_condition csms d) (su_Conditions (cr_Status csms))"
  have types: "cd_Type (available_condition csms d) = ''Available''" "cd_Type (progressing_condition csms d) = ''Progressing''"
    by (simp_all add: available_condition_def progressing_condition_def CSMSConditionAvailable_def CSMSConditionProgressing_def Let_def)
  obtain a where a: "condition_of ''Available'' ?cs = Some a" "same_condition a (available_condition csms d)"
    using condition_set [of "available_condition csms d" t1 "su_Conditions (cr_Status csms)"] types by auto
  obtain p where p: "condition_of ''Progressing'' (kc_SetStatusCondition kube t2 (progressing_condition csms d) ?cs) = Some p"
      "same_condition p (progressing_condition csms d)"
    using condition_set [of "progressing_condition csms d" t2 ?cs] types by auto
  have "condition_of ''Available'' (kc_SetStatusCondition kube t2 (progressing_condition csms d) ?cs) = Some a"
    using condition_other [of "''Available''" "progressing_condition csms d" t2 ?cs] a types by simp
  moreover have "cd_ObservedGeneration a = cr_Generation csms" "cd_Status a \<longleftrightarrow> 0 < ds_ReadyReplicas (dp_Status d)"
    using a(2) by (cases a, simp add: same_condition_def available_condition_def Let_def split: if_splits)+
  moreover have "cd_ObservedGeneration p = cr_Generation csms" "cd_Status p \<longleftrightarrow> ds_ReadyReplicas (dp_Status d) \<noteq> desired_replicas csms"
    using p(2) by (cases p, simp add: same_condition_def progressing_condition_def Let_def split: if_splits)+
  ultimately show ?thesis using p(1) by (simp add: reports_def observed_status_def)
qed

lemma observed_again:
  "observed_status kube t3 t4 (csms\<lparr>cr_Status := observed_status kube t1 t2 csms d\<rparr>) d = observed_status kube t1 t2 csms d"
proof -
  let ?av = "available_condition csms d" and ?pr = "progressing_condition csms d"
  let ?cs1 = "kc_SetStatusCondition kube t1 ?av (su_Conditions (cr_Status csms))"
  let ?cs2 = "kc_SetStatusCondition kube t2 ?pr ?cs1"
  have same: "available_condition (csms\<lparr>cr_Status := s\<rparr>) d = ?av" "progressing_condition (csms\<lparr>cr_Status := s\<rparr>) d = ?pr" for s
    by (simp_all add: available_condition_def progressing_condition_def desired_replicas_def Let_def)
  have types: "cd_Type ?av \<noteq> cd_Type ?pr"
    by (simp add: available_condition_def progressing_condition_def CSMSConditionAvailable_def CSMSConditionProgressing_def Let_def)
  obtain a where a: "condition_of (cd_Type ?av) ?cs1 = Some a" "same_condition a ?av" using condition_set by blast
  obtain p where p: "condition_of (cd_Type ?pr) ?cs2 = Some p" "same_condition p ?pr" using condition_set by blast
  have "condition_of (cd_Type ?av) ?cs2 = Some a" using condition_other [OF types, of t2 ?cs1] a(1) by simp
  then have "kc_SetStatusCondition kube t3 ?av ?cs2 = ?cs2" using a(2) by (rule condition_again)
  moreover have "kc_SetStatusCondition kube t4 ?pr ?cs2 = ?cs2" using p by (rule condition_again)
  ultimately show ?thesis by (simp add: observed_status_def same)
qed

lemma Reconcile_found_ok:
  assumes "Reconcile_found kube t1 t2 csms k = (None, k')"
  shows "\<exists>d c0. cv_Deployment (want csms (view k)) (key_of csms) = Some d \<and> cv_CSMS (view k) (key_of csms) = Some c0 \<and>
    view k' = (want csms (view k))\<lparr>cv_CSMS := (cv_CSMS (view k))(key_of csms \<mapsto> c0\<lparr>cr_Status := observed_status kube t1 t2 csms d\<rparr>)\<rparr>"
proof -
  let ?l = "runtime_labels csms"
  from assms obtain k1 k2 k3 k4 k5 d where steps: "reconcileConfigMap kube csms ?l k = (None, k1)" "reconcileService kube csms ?l k1 = (None, k2)"
    "reconcileDeployment kube csms ?l k2 = (Inr d, k3)" "reconcilePodDisruptionBudget kube csms ?l k3 = (None, k4)"
    "reconcileIngress kube csms ?l k4 = (None, k5)" "updateStatus kube t1 t2 csms d k5 = (None, k')"
    by (auto simp: Reconcile_found_def Let_def split: prod.splits option.splits sum.splits)
  have views: "view k1 = want_ConfigMap csms (view k)" "view k2 = want_Service csms (view k1)" "view k3 = want_Deployment csms (view k2)"
    "view k4 = want_PDB csms (view k3)" "view k5 = want_Ingress csms (view k4)"
    using ConfigMap_step [OF steps(1)] Service_step [OF steps(2)] Deployment_step [OF steps(3)] PDB_step [OF steps(4)]
      Ingress_step [OF steps(5)] by simp_all
  have d: "cv_Deployment (view k3) (key_of csms) = Some d" using Deployment_step [OF steps(3)] by blast
  have k5: "view k5 = want csms (view k)" by (simp add: want_def views)
  have "cv_Deployment (view k5) (key_of csms) = Some d" using d by (simp add: views(4,5) want_PDB_def want_Ingress_def)
  moreover have "key_of (csms\<lparr>cr_Status := s\<rparr>) = key_of csms" for s by (simp add: key_of_def)
  ultimately show ?thesis
    using status_ok [OF steps(6) [unfolded updateStatus_def]] k5 want_maps(1) by auto
qed

lemma Reconcile_found_confined:
  assumes "Reconcile_found kube t1 t2 csms k = (res, k')"
  shows "confined csms (view k) (view k')"
proof -
  let ?l = "runtime_labels csms"
  have cm: "confined csms (view k) (view k')" if "reconcileConfigMap kube csms ?l k = (r, k')" for r k k'
    using ConfigMap_step [OF that] confined_want(1) by auto
  have sv: "confined csms (view k) (view k')" if "reconcileService kube csms ?l k = (r, k')" for r k k'
    using Service_step [OF that] confined_want(2) by auto
  have dp: "confined csms (view k) (view k')" if "reconcileDeployment kube csms ?l k = (r, k')" for r k k'
    using Deployment_step [OF that] confined_want(3) by auto
  have pd: "confined csms (view k) (view k')" if "reconcilePodDisruptionBudget kube csms ?l k = (r, k')" for r k k'
    using PDB_step [OF that] confined_want(4) by auto
  have ig: "confined csms (view k) (view k')" if "reconcileIngress kube csms ?l k = (r, k')" for r k k'
    using Ingress_step [OF that] confined_want(5) by auto
  have st: "confined csms (view k) (view k')" if "updateStatus kube t1 t2 csms d k = (r, k')" for r k k' d
  proof -
    have key: "key_of (csms\<lparr>cr_Status := s\<rparr>) = key_of csms" for s by (simp add: key_of_def)
    have "view k' = view k \<or> (\<exists>c0 s. cv_CSMS (view k) (key_of csms) = Some c0 \<and>
        view k' = (view k)\<lparr>cv_CSMS := (cv_CSMS (view k))(key_of csms \<mapsto> c0\<lparr>cr_Status := s\<rparr>)\<rparr>)"
      using that status_ok [of "csms\<lparr>cr_Status := observed_status kube t1 t2 csms d\<rparr>" k k']
        status_failed [of "csms\<lparr>cr_Status := observed_status kube t1 t2 csms d\<rparr>" k _ k']
      unfolding updateStatus_def key by (cases r) blast+
    then show ?thesis
    proof (elim disjE exE conjE)
      fix c0 s assume "cv_CSMS (view k) (key_of csms) = Some c0"
        "view k' = (view k)\<lparr>cv_CSMS := (cv_CSMS (view k))(key_of csms \<mapsto> c0\<lparr>cr_Status := s\<rparr>)\<rparr>"
      then show ?thesis by (simp add: confined_def status_only_def) blast
    qed simp
  qed
  show ?thesis
    using assms by (auto simp: Reconcile_found_def Let_def split: prod.splits option.splits sum.splits
        dest!: cm sv dp pd ig st) (blast intro: confined_trans)+
qed

end

context kube_api
begin

lemma Reconcile_ok:
  assumes "Reconcile kube t1 t2 key k = (None, k')" "cv_CSMS (view k) key = Some csms"
  shows "\<exists>d. key_of csms = key \<and> cv_Deployment (want csms (view k)) key = Some d \<and>
    view k' = (want csms (view k))\<lparr>cv_CSMS := (cv_CSMS (view k))(key \<mapsto> csms\<lparr>cr_Status := observed_status kube t1 t2 csms d\<rparr>)\<rparr>"
proof (cases "kc_Get kube key k")
  case (Pair r k1)
  obtain c where r: "r = Inr c" using assms Pair get_failed [of key k _ k1] by (cases r) (auto simp: Reconcile_def split: if_splits)
  with Pair have c: "c = csms" "key_of csms = key" "view k1 = view k" using get_ok assms(2) by auto
  have "Reconcile_found kube t1 t2 csms k1 = (None, k')" using assms(1) Pair r c(1) by (simp add: Reconcile_def)
  from Reconcile_found_ok [OF this] c assms(2) show ?thesis by auto
qed

lemma Reconcile_absent:
  assumes "Reconcile kube t1 t2 key k = (res, k')" "cv_CSMS (view k) key = None"
  shows "view k' = view k"
  using assms get_ok [of key k _ _] get_failed [of key k _ _]
  by (cases "kc_Get kube key k"; cases "fst (kc_Get kube key k)") (auto simp: Reconcile_def split: if_splits)

lemma Reconcile_confined:
  assumes "Reconcile kube t1 t2 key k = (res, k')" "cv_CSMS (view k) key = Some csms" "key_of csms = key"
  shows "confined csms (view k) (view k')"
proof (cases "kc_Get kube key k")
  case (Pair r k1)
  show ?thesis
  proof (cases r)
    case (Inl err)
    then show ?thesis using Pair assms get_failed [of key k err k1] by (simp add: Reconcile_def)
  next
    case (Inr c)
    then have "c = csms" "view k1 = view k" using Pair assms get_ok [of key k c k1] by auto
    then show ?thesis
      using Pair Inr assms(1) Reconcile_found_confined [of t1 t2 csms k1 res k'] by (simp add: Reconcile_def)
  qed
qed

end

lemma meets_spec_CSMS: "meets_spec csms (c\<lparr>cv_CSMS := m\<rparr>) \<longleftrightarrow> meets_spec csms c"
  by (cases "sp_MinAvailable (cr_Spec csms)"; cases "sp_Ingress (cr_Spec csms)") (simp_all add: meets_spec_def)

lemma want_CSMS: "want csms (c\<lparr>cv_CSMS := m\<rparr>) = (want csms c)\<lparr>cv_CSMS := m\<rparr>"
  by (simp add: want_def want_defs)

text \<open>The status of a resource has no influence on what it asks for.\<close>

lemma status_free [simp]:
  "key_of (csms\<lparr>cr_Status := s\<rparr>) = key_of csms"
  "fresh_meta (csms\<lparr>cr_Status := s\<rparr>) = fresh_meta csms"
  "runtime_labels (csms\<lparr>cr_Status := s\<rparr>) = runtime_labels csms"
  "httpPort (csms\<lparr>cr_Status := s\<rparr>) = httpPort csms"
  "desired_replicas (csms\<lparr>cr_Status := s\<rparr>) = desired_replicas csms"
  "take_over (csms\<lparr>cr_Status := s\<rparr>) = take_over csms"
  by (simp_all add: key_of_def fresh_meta_def runtime_labels_def httpPort_def desired_replicas_def take_over_def fun_eq_iff)

lemma template_status_free [simp]: "runtime_template (csms\<lparr>cr_Status := s\<rparr>) = runtime_template csms"
  by (simp add: runtime_template_def runtime_container_def livenessPath_def readinessPath_def terminationGracePeriodSeconds_def
      probeScheme_def tlsVolumes_def runtime_resources_def envFrom_def)

lemma set_status_free [simp]:
  "set_ConfigMap (csms\<lparr>cr_Status := s\<rparr>) = set_ConfigMap csms"
  "set_Service (csms\<lparr>cr_Status := s\<rparr>) = set_Service csms"
  "set_Deployment (csms\<lparr>cr_Status := s\<rparr>) = set_Deployment csms"
  "set_PDB (csms\<lparr>cr_Status := s\<rparr>) = set_PDB csms"
  "set_Ingress (csms\<lparr>cr_Status := s\<rparr>) = set_Ingress csms"
  "fresh_Deployment (csms\<lparr>cr_Status := s\<rparr>) = fresh_Deployment csms"
  by (simp_all add: fun_eq_iff set_ConfigMap_def set_Service_def set_Deployment_def set_PDB_def set_Ingress_def fresh_Deployment_def)

lemma want_status_free [simp]: "want (csms\<lparr>cr_Status := s\<rparr>) c = want csms c"
  by (cases "sp_MinAvailable (cr_Spec csms)"; cases "sp_Ingress (cr_Spec csms)") (simp_all add: want_def want_defs)


text \<open>C8: the controller converges: after a reconciliation without error, another one without error, at
  any later time and with nobody else writing, leaves every object and the resource exactly as they are.\<close>

theorem reconcile_converges:
  assumes "kube_api kube view" "Reconcile kube t1 t2 key k = (None, k')" "Reconcile kube t3 t4 key k' = (None, k'')"
  shows "view k'' = view k'"
proof (cases "cv_CSMS (view k) key")
  case None
  then show ?thesis using assms kube_api.Reconcile_absent [OF assms(1)] by metis
next
  case (Some csms)
  obtain d where d: "key_of csms = key" "cv_Deployment (want csms (view k)) key = Some d"
    "view k' = (want csms (view k))\<lparr>cv_CSMS := (cv_CSMS (view k))(key \<mapsto> csms\<lparr>cr_Status := observed_status kube t1 t2 csms d\<rparr>)\<rparr>"
    using kube_api.Reconcile_ok [OF assms(1,2) Some] by blast
  let ?csms = "csms\<lparr>cr_Status := observed_status kube t1 t2 csms d\<rparr>"
  have k': "cv_CSMS (view k') key = Some ?csms" by (simp add: d(3))
  have again: "want csms (view k') = view k'" by (simp add: d(3) want_CSMS want_idem)
  then have dep: "cv_Deployment (view k') key = Some d" by (simp add: d(2,3))
  obtain d' where d': "cv_Deployment (want ?csms (view k')) key = Some d'"
    "view k'' = (want ?csms (view k'))\<lparr>cv_CSMS := (cv_CSMS (view k'))(key \<mapsto> ?csms\<lparr>cr_Status := observed_status kube t3 t4 ?csms d'\<rparr>)\<rparr>"
    using kube_api.Reconcile_ok [OF assms(1,3) k'] by blast
  have "d' = d" using d'(1) dep again by simp
  then have "view k'' = (view k')\<lparr>cv_CSMS := (cv_CSMS (view k'))(key \<mapsto> ?csms)\<rparr>"
    using d'(2) again kube_api.observed_again [OF assms(1)] by simp
  also have "(cv_CSMS (view k'))(key \<mapsto> ?csms) = cv_CSMS (view k')" using k' by auto
  finally show ?thesis by simp
qed

text \<open>C9: whatever fails and whenever, a reconciliation touches nothing but the objects under the
  resource's own namespace and name, of the resource itself only the status, and neither configuration,
  service nor deployment when another controller owns it.\<close>

theorem reconcile_confined:
  assumes "kube_api kube view" "cv_CSMS (view k) key = Some csms" "key_of csms = key" "Reconcile kube t1 t2 key k = (res, k')"
  shows "confined csms (view k) (view k')"
  using kube_api.Reconcile_confined [OF assms(1,4,2,3)] .

section \<open>A cluster that keeps the contract\<close>

definition NotFound :: error where
  "NotFound = errors_New ''not found''"

definition plain_resource :: "(kube_state \<Rightarrow> key \<rightharpoonup> 'o) \<Rightarrow> ((key \<rightharpoonup> 'o) \<Rightarrow> kube_state \<Rightarrow> kube_state) \<Rightarrow> (kube_state, 'o) resource_client" where
  "plain_resource get put =
     \<lparr>rc_CreateOrUpdate = (\<lambda>key fresh f c.
        case f (case get c key of None \<Rightarrow> fresh | Some ob \<Rightarrow> ob) of
          Inl err \<Rightarrow> (Inl err, c) | Inr ob \<Rightarrow> (Inr ob, put ((get c)(key \<mapsto> ob)) c)),
      rc_Delete = (\<lambda>key c. case get c key of None \<Rightarrow> (Some NotFound, c) | Some _ \<Rightarrow> (None, put ((get c)(key := None)) c))\<rparr>"

fun set_condition :: "time \<Rightarrow> Condition \<Rightarrow> Condition list \<Rightarrow> Condition list" where
  "set_condition t new [] = [new\<lparr>cd_LastTransitionTime := t\<rparr>]"
| "set_condition t new (c # cs) =
     (if cd_Type c = cd_Type new
      then new\<lparr>cd_LastTransitionTime := (if cd_Status c = cd_Status new then cd_LastTransitionTime c else t)\<rparr> # cs
      else c # set_condition t new cs)"

definition plain_kube :: "kube_state kube_client" where
  "plain_kube =
     \<lparr>kc_Get = (\<lambda>key c. case cv_CSMS c key of
         Some csms \<Rightarrow> if key_of csms = key then (Inr csms, c) else (Inl (errors_New ''corrupt''), c)
       | None \<Rightarrow> (Inl NotFound, c)),
      kc_IsNotFound = (\<lambda>err. err = NotFound),
      kc_ConfigMaps = plain_resource cv_ConfigMap (\<lambda>m. cv_ConfigMap_update (\<lambda>_. m)),
      kc_Services = plain_resource cv_Service (\<lambda>m. cv_Service_update (\<lambda>_. m)),
      kc_Deployments = plain_resource cv_Deployment (\<lambda>m. cv_Deployment_update (\<lambda>_. m)),
      kc_PDBs = plain_resource cv_PDB (\<lambda>m. cv_PDB_update (\<lambda>_. m)),
      kc_Ingresses = plain_resource cv_Ingress (\<lambda>m. cv_Ingress_update (\<lambda>_. m)),
      kc_SetControllerReference = (\<lambda>csms om.
        if free_for csms om then Inr (om\<lparr>om_Controller := Some (cr_UID csms)\<rparr>) else Inl (errors_New ''already owned'')),
      kc_SetStatusCondition = set_condition,
      kc_StatusUpdate = (\<lambda>csms c. case cv_CSMS c (key_of csms) of
         None \<Rightarrow> (Some NotFound, c)
       | Some c0 \<Rightarrow> (None, c\<lparr>cv_CSMS := (cv_CSMS c)(key_of csms \<mapsto> c0\<lparr>cr_Status := cr_Status csms\<rparr>)\<rparr>))\<rparr>"

lemma plain_resource_store:
  assumes "\<And>c. put (get c) c = c"
  shows "resource_store (plain_resource get put) (\<lambda>c. c) get put (\<lambda>err. err = NotFound)"
  by unfold_locales (auto simp: plain_resource_def assms split: option.splits sum.splits if_splits)

lemma set_condition_set: "\<exists>c. condition_of (cd_Type new) (set_condition t new cs) = Some c \<and> same_condition c new"
  by (induction cs) (auto simp: condition_of_def same_condition_def)

lemma set_condition_other: "u \<noteq> cd_Type new \<Longrightarrow> condition_of u (set_condition t new cs) = condition_of u cs"
  by (induction cs) (auto simp: condition_of_def)

lemma set_condition_again: "condition_of (cd_Type new) cs = Some c \<Longrightarrow> same_condition c new \<Longrightarrow> set_condition t new cs = cs"
proof (induction cs)
  case (Cons d cs)
  show ?case
  proof (cases "cd_Type d = cd_Type new")
    case True
    with Cons.prems have "same_condition d new" by (simp add: condition_of_def)
    then show ?thesis using True by (cases d; cases new) (simp add: same_condition_def)
  next
    case False
    with Cons show ?thesis by (simp add: condition_of_def)
  qed
qed (simp add: condition_of_def)

interpretation plain: kube_api plain_kube "\<lambda>c. c"
proof -
  note store = plain_resource_store
  have "resource_store (kc_ConfigMaps plain_kube) (\<lambda>c. c) cv_ConfigMap (\<lambda>m. cv_ConfigMap_update (\<lambda>_. m)) (kc_IsNotFound plain_kube)"
    "resource_store (kc_Services plain_kube) (\<lambda>c. c) cv_Service (\<lambda>m. cv_Service_update (\<lambda>_. m)) (kc_IsNotFound plain_kube)"
    "resource_store (kc_Deployments plain_kube) (\<lambda>c. c) cv_Deployment (\<lambda>m. cv_Deployment_update (\<lambda>_. m)) (kc_IsNotFound plain_kube)"
    "resource_store (kc_PDBs plain_kube) (\<lambda>c. c) cv_PDB (\<lambda>m. cv_PDB_update (\<lambda>_. m)) (kc_IsNotFound plain_kube)"
    "resource_store (kc_Ingresses plain_kube) (\<lambda>c. c) cv_Ingress (\<lambda>m. cv_Ingress_update (\<lambda>_. m)) (kc_IsNotFound plain_kube)"
    unfolding plain_kube_def kube_client.simps by (rule store; simp)+
  moreover have "kube_api_axioms plain_kube (\<lambda>c. c)"
    by unfold_locales (auto simp: plain_kube_def free_for_def set_condition_set set_condition_other set_condition_again
        NotFound_def errors_New_def split: option.splits if_splits)
  ultimately show "kube_api plain_kube (\<lambda>c. c)" by (rule kube_api.intro)
qed

text \<open>A resource with an ingress and without a disruption budget, alone in its cluster.\<close>

definition demo_spec :: CSMSSpec where
  "demo_spec = \<lparr>sp_Image = ''csms-runtime:0.1.0'', sp_Replicas = Some 2, sp_Port = 8080, sp_LivenessPath = ''/livez'',
     sp_ReadinessPath = ''/readyz'', sp_TerminationGracePeriodSeconds = None, sp_DatabaseSecretName = '''', sp_RedisSecretName = ''redis'',
     sp_APISecretName = '''', sp_Config = [''CSMS_LOG_LEVEL'' \<mapsto> ''debug''],
     sp_Resources = \<lparr>rr_Limits = None, rr_Requests = None, rr_Claims = []\<rparr>, sp_MinAvailable = None,
     sp_Ingress = Some \<lparr>ing_Host = ''csms.example'', ing_IngressClassName = '''', ing_TLSSecretName = '''', ing_Annotations = Map.empty\<rparr>,
     sp_TLS = None\<rparr>"

definition demo_csms :: CSMS where
  "demo_csms = \<lparr>cr_Name = ''csms'', cr_Namespace = ''default'', cr_UID = ''u1'', cr_Generation = 1, cr_Spec = demo_spec,
     cr_Status = \<lparr>su_Replicas = 0, su_ReadyReplicas = 0, su_ObservedGeneration = 0, su_Conditions = []\<rparr>\<rparr>"

definition demo_kube :: kube_state where
  "demo_kube = \<lparr>cv_CSMS = [(''default'', ''csms'') \<mapsto> demo_csms], cv_ConfigMap = Map.empty, cv_Service = Map.empty,
     cv_Deployment = Map.empty, cv_PDB = Map.empty, cv_Ingress = Map.empty\<rparr>"

definition all_free :: "CSMS \<Rightarrow> kube_state \<Rightarrow> bool" where
  "all_free csms c \<longleftrightarrow>
     (\<forall>x. cv_ConfigMap c (key_of csms) = Some x \<longrightarrow> free_for csms (cm_Meta x)) \<and>
     (\<forall>x. cv_Service c (key_of csms) = Some x \<longrightarrow> free_for csms (sv_Meta x)) \<and>
     (\<forall>x. cv_Deployment c (key_of csms) = Some x \<longrightarrow> free_for csms (dp_Meta x)) \<and>
     (\<forall>x. cv_PDB c (key_of csms) = Some x \<longrightarrow> free_for csms (pd_Meta x)) \<and>
     (\<forall>x. cv_Ingress c (key_of csms) = Some x \<longrightarrow> free_for csms (ig_Meta x))"

lemma free_fresh [simp]: "free_for csms (fresh_meta csms)" "free_for csms (om\<lparr>om_Labels := l\<rparr>) = free_for csms om"
    "free_for csms (om\<lparr>om_Annotations := m\<rparr>) = free_for csms om"
  by (simp_all add: free_for_def fresh_meta_def)

lemma plain_steps:
  "\<forall>x. cv_ConfigMap c (key_of csms) = Some x \<longrightarrow> free_for csms (cm_Meta x) \<Longrightarrow>
     reconcileConfigMap plain_kube csms (runtime_labels csms) c = (None, want_ConfigMap csms c)"
  "\<forall>x. cv_Service c (key_of csms) = Some x \<longrightarrow> free_for csms (sv_Meta x) \<Longrightarrow>
     reconcileService plain_kube csms (runtime_labels csms) c = (None, want_Service csms c)"
  "\<forall>x. cv_Deployment c (key_of csms) = Some x \<longrightarrow> free_for csms (dp_Meta x) \<Longrightarrow>
     \<exists>d. reconcileDeployment plain_kube csms (runtime_labels csms) c = (Inr d, want_Deployment csms c)"
  "\<forall>x. cv_PDB c (key_of csms) = Some x \<longrightarrow> free_for csms (pd_Meta x) \<Longrightarrow>
     reconcilePodDisruptionBudget plain_kube csms (runtime_labels csms) c = (None, want_PDB csms c)"
  "\<forall>x. cv_Ingress c (key_of csms) = Some x \<longrightarrow> free_for csms (ig_Meta x) \<Longrightarrow>
     reconcileIngress plain_kube csms (runtime_labels csms) c = (None, want_Ingress csms c)"
proof -
  let ?l = "runtime_labels csms"
  assume free: "\<forall>x. cv_ConfigMap c (key_of csms) = Some x \<longrightarrow> free_for csms (cm_Meta x)"
  then obtain c' where r: "reconcileConfigMap plain_kube csms ?l c = (None, c')"
    by (cases "cv_ConfigMap c (key_of csms)")
      (auto simp: reconcileConfigMap_def mutate_ConfigMap_def plain_kube_def plain_resource_def owned_def)
  with plain.ConfigMap_step [OF r] show "reconcileConfigMap plain_kube csms ?l c = (None, want_ConfigMap csms c)" by simp
next
  let ?l = "runtime_labels csms"
  assume free: "\<forall>x. cv_Service c (key_of csms) = Some x \<longrightarrow> free_for csms (sv_Meta x)"
  then obtain c' where r: "reconcileService plain_kube csms ?l c = (None, c')"
    by (cases "cv_Service c (key_of csms)")
      (auto simp: reconcileService_def mutate_Service_def plain_kube_def plain_resource_def owned_def)
  with plain.Service_step [OF r] show "reconcileService plain_kube csms ?l c = (None, want_Service csms c)" by simp
next
  let ?l = "runtime_labels csms"
  assume free: "\<forall>x. cv_Deployment c (key_of csms) = Some x \<longrightarrow> free_for csms (dp_Meta x)"
  then obtain d c' where r: "reconcileDeployment plain_kube csms ?l c = (Inr d, c')"
    by (cases "cv_Deployment c (key_of csms)")
      (auto simp: reconcileDeployment_def mutate_Deployment_def fresh_Deployment_def plain_kube_def plain_resource_def owned_def)
  with plain.Deployment_step [OF r] show "\<exists>d. reconcileDeployment plain_kube csms ?l c = (Inr d, want_Deployment csms c)" by auto
next
  let ?l = "runtime_labels csms"
  assume free: "\<forall>x. cv_PDB c (key_of csms) = Some x \<longrightarrow> free_for csms (pd_Meta x)"
  then obtain c' where r: "reconcilePodDisruptionBudget plain_kube csms ?l c = (None, c')"
    by (cases "cv_PDB c (key_of csms)"; cases "sp_MinAvailable (cr_Spec csms) = None")
      (auto simp: reconcilePodDisruptionBudget_def delete_if_present_def mutate_PDB_def plain_kube_def plain_resource_def owned_def)
  with plain.PDB_step [OF r] show "reconcilePodDisruptionBudget plain_kube csms ?l c = (None, want_PDB csms c)" by simp
next
  let ?l = "runtime_labels csms"
  assume free: "\<forall>x. cv_Ingress c (key_of csms) = Some x \<longrightarrow> free_for csms (ig_Meta x)"
  then obtain c' where r: "reconcileIngress plain_kube csms ?l c = (None, c')"
    by (cases "cv_Ingress c (key_of csms)"; cases "sp_Ingress (cr_Spec csms)")
      (auto simp: reconcileIngress_def delete_if_present_def mutate_Ingress_def plain_kube_def plain_resource_def owned_def)
  with plain.Ingress_step [OF r] show "reconcileIngress plain_kube csms ?l c = (None, want_Ingress csms c)" by simp
qed

text \<open>In this cluster nothing fails but the claim on an object with a foreign owner.\<close>

lemma plain_reconcile:
  assumes "cv_CSMS c key = Some csms" "key_of csms = key" "all_free csms c"
  shows "\<exists>c'. Reconcile plain_kube t1 t2 key c = (None, c')"
proof -
  let ?c1 = "want_ConfigMap csms c" let ?c2 = "want_Service csms ?c1" let ?c3 = "want_Deployment csms ?c2"
  let ?c4 = "want_PDB csms ?c3" let ?c5 = "want_Ingress csms ?c4"
  have get: "kc_Get plain_kube key c = (Inr csms, c)" using assms(1,2) by (simp add: plain_kube_def)
  have s1: "reconcileConfigMap plain_kube csms (runtime_labels csms) c = (None, ?c1)"
    by (rule plain_steps) (use assms(3) in \<open>simp add: all_free_def\<close>)
  have s2: "reconcileService plain_kube csms (runtime_labels csms) ?c1 = (None, ?c2)"
    by (rule plain_steps) (use assms(3) in \<open>simp add: all_free_def want_defs\<close>)
  obtain d where s3: "reconcileDeployment plain_kube csms (runtime_labels csms) ?c2 = (Inr d, ?c3)"
    using plain_steps(3) [of ?c2 csms] assms(3) by (auto simp: all_free_def want_defs)
  have s4: "reconcilePodDisruptionBudget plain_kube csms (runtime_labels csms) ?c3 = (None, ?c4)"
    by (rule plain_steps) (use assms(3) in \<open>simp add: all_free_def want_defs\<close>)
  have s5: "reconcileIngress plain_kube csms (runtime_labels csms) ?c4 = (None, ?c5)"
    by (rule plain_steps) (use assms(3) in \<open>simp add: all_free_def want_defs\<close>)
  have "cv_CSMS ?c5 key = Some csms" using assms(1) by (simp add: want_defs)
  then have "\<exists>c'. updateStatus plain_kube t1 t2 csms d ?c5 = (None, c')"
    using assms(2) by (simp add: updateStatus_def plain_kube_def)
  then show ?thesis
    using s1 s2 s3 s4 s5 get by (auto simp: Reconcile_def Reconcile_found_def)
qed

lemma demo_reconcile: "\<exists>c'. Reconcile plain_kube 1 2 (''default'', ''csms'') demo_kube = (None, c')"
  by (rule plain_reconcile [of _ _ demo_csms]) (simp_all add: demo_kube_def demo_csms_def key_of_def all_free_def)

lemma demo_present: "cv_CSMS demo_kube (''default'', ''csms'') = Some demo_csms" "key_of demo_csms = (''default'', ''csms'')"
  by (simp_all add: demo_kube_def demo_csms_def key_of_def)


lemma reconcile_confined_witness:
  "\<exists>c'. Reconcile plain_kube 1 2 (''default'', ''csms'') demo_kube = (None, c') \<and> confined demo_csms demo_kube c'"
proof -
  obtain c' where c': "Reconcile plain_kube 1 2 (''default'', ''csms'') demo_kube = (None, c')" using demo_reconcile by blast
  from reconcile_confined [OF plain.kube_api_axioms demo_present c'] c' show ?thesis by blast
qed

lemma reconcile_converges_witness:
  "\<exists>c' c''. Reconcile plain_kube 1 2 (''default'', ''csms'') demo_kube = (None, c') \<and> c' \<noteq> demo_kube \<and>
     Reconcile plain_kube 3 4 (''default'', ''csms'') c' = (None, c'') \<and> c'' = c'"
proof -
  obtain c' where c': "Reconcile plain_kube 1 2 (''default'', ''csms'') demo_kube = (None, c')" using demo_reconcile by blast
  from plain.Reconcile_ok [OF c' demo_present(1)] obtain d where
    v: "c' = (want demo_csms demo_kube)\<lparr>cv_CSMS := (cv_CSMS demo_kube)((''default'', ''csms'') \<mapsto>
          demo_csms\<lparr>cr_Status := observed_status plain_kube 1 2 demo_csms d\<rparr>)\<rparr>" by blast
  let ?csms = "demo_csms\<lparr>cr_Status := observed_status plain_kube 1 2 demo_csms d\<rparr>"
  have "all_free ?csms c'"
    by (cases "sp_Ingress (cr_Spec demo_csms)") (auto simp: v all_free_def want_maps set_defs free_for_def split: if_splits)
  moreover have "cv_CSMS c' (''default'', ''csms'') = Some ?csms" "key_of ?csms = (''default'', ''csms'')"
    using demo_present(2) by (simp_all add: v)
  ultimately obtain c'' where c'': "Reconcile plain_kube 3 4 (''default'', ''csms'') c' = (None, c'')"
    using plain_reconcile by blast
  have "cv_Service c' (''default'', ''csms'') \<noteq> None" "cv_Service demo_kube (''default'', ''csms'') = None"
    using demo_present(2) by (simp_all add: v want_maps) (simp add: demo_kube_def)
  then have "c' \<noteq> demo_kube" by auto
  with c' c'' reconcile_converges [OF plain.kube_api_axioms c' c''] show ?thesis by blast
qed

section \<open>Limits\<close>

text \<open>
  A disruption budget or an ingress that the resource does not ask for is deleted by name, whoever
  created and controls it.
\<close>

lemma deletes_foreign_ingress:
  assumes "kube_api kube view" "cv_CSMS (view k) key = Some csms" "sp_Ingress (cr_Spec csms) = None"
    and "cv_Ingress (view k) key = Some i" "foreign csms (ig_Meta i)"
    and "Reconcile kube t1 t2 key k = (None, k')"
  shows "cv_Ingress (view k') key = None"
  using kube_api.Reconcile_ok [OF assms(1,6,2)] assms(3) by (auto simp: want_maps)

text \<open>Every secret is referenced as optional: pods start without one that does not exist.\<close>

lemma secrets_are_optional: "SecretRef name opt \<in> set (envFrom csms) \<Longrightarrow> opt"
  by (auto simp: envFrom_def)

end
