(* ===== verification/Metrics.thy ===== *)
theory Metrics
  imports Command_API
begin

text \<open>
  Metrics and health endpoints of the runtime (internal/runtime/metrics.go and health.go). The
  Prometheus library is outside the repository: what the code does to it is the list of calls it
  makes. The labels an unauthenticated client can influence stay within a fixed set.
\<close>

section \<open>Metrics\<close>

datatype metric_call =
    Inc_command string
  | Observe_command duration
  | Inc_ocpp string string string string
  | Observe_ocpp string string string duration

text \<open>\<open>Status / 100\<close> on the integers of Go truncates; a recorded status is not negative.\<close>

definition statusClass :: "nat \<Rightarrow> string" where
  "statusClass status =
     (if status div 100 = 2 then ''2xx''
      else if status div 100 = 4 then ''4xx''
      else if status div 100 = 5 then ''5xx''
      else ''other'')"

text \<open>The wrapped handler, the calls it makes afterwards, with the time the handler took.\<close>

definition commandMiddleware ::
  "(http_request \<Rightarrow> 'w \<Rightarrow> http_response \<times> 'w) \<Rightarrow> duration \<Rightarrow> http_request \<Rightarrow> 'w \<Rightarrow> http_response \<times> 'w \<times> metric_call list" where
  "commandMiddleware handler elapsed request w =
     (case handler request w of (response, w') \<Rightarrow>
        (response, w', [Inc_command (statusClass (rs_Status response)), Observe_command elapsed]))"

definition knownOCPPActions :: "string list" where
  "knownOCPPActions = [''BootNotification'', ''Heartbeat'', ''StatusNotification'', resetAction]"

text \<open>The event types of the OCPP library; any other value is kept as a number.\<close>

datatype MetricEventType =
    MetricSessionConnected | MetricSessionDisconnected | MetricCallReceived | MetricCallCompleted | MetricCallRejected
  | MetricSendReceived | MetricSendCompleted | MetricSendDropped | MetricOutboundCallRejected | MetricOutboundCallSent
  | MetricOutboundCallCompleted | MetricOutboundCallFailed | MetricOutboundCallTimeout | MetricOutboundCallCanceled
  | Other_event int

record MetricEvent =
  me_Type :: MetricEventType
  me_Version :: string
  me_Action :: string
  me_ErrorCode :: string
  me_Duration :: duration

definition ocppEventLabel :: "MetricEventType \<Rightarrow> string" where
  "ocppEventLabel eventType =
     (case eventType of
        MetricSessionConnected \<Rightarrow> ''session_connected''
      | MetricSessionDisconnected \<Rightarrow> ''session_disconnected''
      | MetricCallReceived \<Rightarrow> ''call_received''
      | MetricCallCompleted \<Rightarrow> ''call_completed''
      | MetricCallRejected \<Rightarrow> ''call_rejected''
      | MetricSendReceived \<Rightarrow> ''send_received''
      | MetricSendCompleted \<Rightarrow> ''send_completed''
      | MetricSendDropped \<Rightarrow> ''send_dropped''
      | MetricOutboundCallRejected \<Rightarrow> ''outbound_call_rejected''
      | MetricOutboundCallSent \<Rightarrow> ''outbound_call_sent''
      | MetricOutboundCallCompleted \<Rightarrow> ''outbound_call_completed''
      | MetricOutboundCallFailed \<Rightarrow> ''outbound_call_failed''
      | MetricOutboundCallTimeout \<Rightarrow> ''outbound_call_timeout''
      | MetricOutboundCallCanceled \<Rightarrow> ''outbound_call_canceled''
      | Other_event _ \<Rightarrow> ''unknown'')"

definition recordOCPPEvent :: "MetricEvent \<Rightarrow> metric_call list" where
  "recordOCPPEvent event =
     (let eventType = ocppEventLabel (me_Type event);
          version = me_Version event;
          action = (if me_Action event \<in> set knownOCPPActions then me_Action event else ''unknown'')
      in Inc_ocpp eventType action version (me_ErrorCode event) #
         (if 0 < me_Duration event then [Observe_ocpp eventType action version (me_Duration event)] else []))"

section \<open>Health\<close>

definition live :: "bool \<Rightarrow> http_response" where
  "live ready = \<lparr>rs_Status = 200, rs_Headers = [], rs_Body = ''''\<rparr>"

text \<open>\<open>http.Error\<close> writes the text with a newline and its content type.\<close>

definition readiness :: "bool \<Rightarrow> http_response" where
  "readiness ready =
     (if \<not> ready
      then \<lparr>rs_Status = 503, rs_Headers = [(''Content-Type'', ''text/plain; charset=utf-8''), (''X-Content-Type-Options'', ''nosniff'')],
            rs_Body = ''not ready'' @ [CHR 0x0A]\<rparr>
      else \<lparr>rs_Status = 200, rs_Headers = [], rs_Body = ''''\<rparr>)"

section \<open>Bounded labels\<close>

definition event_labels :: "string list" where
  "event_labels = [''session_connected'', ''session_disconnected'', ''call_received'', ''call_completed'', ''call_rejected'',
     ''send_received'', ''send_completed'', ''send_dropped'', ''outbound_call_rejected'', ''outbound_call_sent'',
     ''outbound_call_completed'', ''outbound_call_failed'', ''outbound_call_timeout'', ''outbound_call_canceled'', ''unknown'']"

lemma ocppEventLabel_known: "ocppEventLabel t \<in> set event_labels"
  by (cases t) (simp_all add: ocppEventLabel_def event_labels_def)

definition ocpp_series :: "MetricEvent list \<Rightarrow> (string \<times> string \<times> string \<times> string) set" where
  "ocpp_series es = {(t, a, v, e). Inc_ocpp t a v e \<in> set (concat (map recordOCPPEvent es))}"

lemma ocpp_series_within:
  "ocpp_series es \<subseteq> set event_labels \<times> set (''unknown'' # knownOCPPActions) \<times> me_Version ` set es \<times> me_ErrorCode ` set es"
  by (auto simp: ocpp_series_def recordOCPPEvent_def Let_def ocppEventLabel_known split: if_splits)

lemma ocpp_series_bounded:
  "card (ocpp_series es) \<le> 75 * (card (me_Version ` set es) * card (me_ErrorCode ` set es))"
proof -
  have "card (set event_labels) \<le> 15" using card_length [of event_labels] by (simp add: event_labels_def)
  moreover have "card (set (''unknown'' # knownOCPPActions)) \<le> 5"
    using card_length [of "''unknown'' # knownOCPPActions"] by (simp add: knownOCPPActions_def)
  ultimately have labels: "card (set event_labels) * card (set (''unknown'' # knownOCPPActions)) \<le> 15 * 5" by (rule mult_le_mono)
  have "card (ocpp_series es) \<le> card (set event_labels \<times> set (''unknown'' # knownOCPPActions) \<times> me_Version ` set es \<times> me_ErrorCode ` set es)"
    using ocpp_series_within by (rule card_mono [rotated]) simp
  also have "\<dots> = (card (set event_labels) * card (set (''unknown'' # knownOCPPActions))) * (card (me_Version ` set es) * card (me_ErrorCode ` set es))"
    by (simp only: card_cartesian_product mult.assoc)
  also have "\<dots> \<le> 15 * 5 * (card (me_Version ` set es) * card (me_ErrorCode ` set es))"
    using labels by (rule mult_le_mono1)
  finally show ?thesis by simp
qed

section \<open>Collectors\<close>

text \<open>
  The collectors that are registered, by name and labels (the gauge and the command histogram have
  none). The library panics on a call whose number of label values is not that of the collector.
\<close>

definition newRuntimeMetrics :: "(string \<times> string list) list" where
  "newRuntimeMetrics =
     [(''csms_sessions_active'', []),
      (''csms_command_http_requests_total'', [''class'']),
      (''csms_command_duration_seconds'', []),
      (''csms_ocpp_events_total'', [''type'', ''action'', ''version'', ''error_code'']),
      (''csms_ocpp_event_duration_seconds'', [''type'', ''action'', ''version''])]"

text \<open>The value of the gauge; \<open>None\<close> is the nil function.\<close>

definition sessions_active :: "int option \<Rightarrow> int" where
  "sessions_active sessionCount = (case sessionCount of None \<Rightarrow> 0 | Some n \<Rightarrow> n)"

fun label_values :: "metric_call \<Rightarrow> string \<times> string list" where
  "label_values (Inc_command class) = (''csms_command_http_requests_total'', [class])"
| "label_values (Observe_command d) = (''csms_command_duration_seconds'', [])"
| "label_values (Inc_ocpp t a v e) = (''csms_ocpp_events_total'', [t, a, v, e])"
| "label_values (Observe_ocpp t a v d) = (''csms_ocpp_event_duration_seconds'', [t, a, v])"

lemma metric_calls_fit:
  "\<exists>labels. map_of newRuntimeMetrics (fst (label_values c)) = Some labels \<and> length labels = length (snd (label_values c))"
  "distinct (map fst newRuntimeMetrics)"
  by (cases c) (simp_all add: newRuntimeMetrics_def)

end
