(* ===== verification/Server.thy ===== *)
theory Server
  imports Config Metrics Mysql_Store Handlers
begin

text \<open>
  The runtime's life (internal/runtime/server.go and cmd/csms-server): building the server from its
  configuration, serving, supervising the command consumer, and shutting down. What the outside world
  answers (files, database, Redis, the OCPP library) is the record \<open>outside\<close>; the resources that must
  be released are tracked in \<open>process\<close>. A failed start leaks nothing, and a loaded configuration
  starts whenever the outside works.
\<close>

section \<open>The outside world\<close>

text \<open>\<open>Stat\<close> gives whether the path is a directory, if it exists; \<open>CertPool\<close> gives the pool of the PEM text, if any.\<close>

record 'd outside =
  ou_Stat :: "string \<Rightarrow> bool option"
  ou_LoadX509KeyPair :: "string \<Rightarrow> string \<Rightarrow> error + string"
  ou_ReadFile :: "string \<Rightarrow> error + string"
  ou_CertPool :: "string \<Rightarrow> string option"
  ou_sqlOpen :: "string \<Rightarrow> error option"
  ou_dbPing :: "error option"
  ou_migrationFile :: "error + string"
  ou_dbExec :: "string \<Rightarrow> 'd \<Rightarrow> error option \<times> 'd"
  ou_registrations :: "error option list"
  ou_redisParseURL :: "string \<Rightarrow> error option"
  ou_redisPing :: "error option"
  ou_Hostname :: "error + string"
  ou_NewIPRateLimiter :: "int \<Rightarrow> duration \<Rightarrow> error option"
  ou_csmsNew :: "error option"

text \<open>Open handles of the process, and the content of the database.\<close>

record 'd process =
  ps_database :: bool
  ps_redis :: bool
  ps_data :: 'd

definition close_database :: "bool \<Rightarrow> 'd process \<Rightarrow> 'd process" where
  "close_database not_nil p = (if not_nil then p\<lparr>ps_database := False\<rparr> else p)"

definition close_redis :: "bool \<Rightarrow> 'd process \<Rightarrow> 'd process" where
  "close_redis not_nil p = (if not_nil then p\<lparr>ps_redis := False\<rparr> else p)"

section \<open>TLS\<close>

record tls_config =
  tc_Certificate :: string
  tc_MinVersion :: nat
  tc_ClientCAs :: "string option"
  tc_VerifyClientCertIfGiven :: bool

definition VersionTLS12 :: nat where
  "VersionTLS12 = 771"

definition fileExists :: "'d outside \<Rightarrow> string \<Rightarrow> bool" where
  "fileExists ou path = (path \<noteq> '''' \<and> ou_Stat ou path = Some False)"

definition bool_text :: "bool \<Rightarrow> string" where
  "bool_text b = (if b then ''true'' else ''false'')"

definition buildTLSConfig :: "'d outside \<Rightarrow> Config \<Rightarrow> error + tls_config option" where
  "buildTLSConfig ou config =
     (let certExists = fileExists ou (cf_TLSCertFile config);
          keyExists = fileExists ou (cf_TLSKeyFile config)
      in if \<not> certExists \<and> \<not> keyExists then Inr None
         else if certExists \<noteq> keyExists then Inl (errors_New (''TLS requires both a certificate and a key file: cert='' @ cf_TLSCertFile config @
             '' (exists='' @ bool_text certExists @ '') key='' @ cf_TLSKeyFile config @ '' (exists='' @ bool_text keyExists @ '')''))
         else
           (case ou_LoadX509KeyPair ou (cf_TLSCertFile config) (cf_TLSKeyFile config) of
              Inl err \<Rightarrow> Inl (errors_Wrap ''load TLS certificate: '' err)
            | Inr certificate \<Rightarrow>
                (let tls = \<lparr>tc_Certificate = certificate, tc_MinVersion = VersionTLS12, tc_ClientCAs = None,
                       tc_VerifyClientCertIfGiven = False\<rparr>
                 in if fileExists ou (cf_TLSClientCAFile config) then
                      (case ou_ReadFile ou (cf_TLSClientCAFile config) of
                         Inl err \<Rightarrow> Inl (errors_Wrap ''read TLS client CA file: '' err)
                       | Inr caBytes \<Rightarrow>
                           (case ou_CertPool ou caBytes of
                              None \<Rightarrow> Inl (errors_New (''no valid certificates found in TLS client CA file '' @ cf_TLSClientCAFile config))
                            | Some pool \<Rightarrow> Inr (Some (tls\<lparr>tc_ClientCAs := Some pool, tc_VerifyClientCertIfGiven := True\<rparr>))))
                    else Inr (Some tls))))"

text \<open>
  The authenticator installed with a client CA: the common names of the presented certificates
  (\<open>None\<close> without TLS), and the identity the station claims; \<open>fmt_q\<close> is the quoting of \<open>%q\<close>.
\<close>

definition authenticate_station :: "(string \<Rightarrow> string) \<Rightarrow> string list option \<Rightarrow> string \<Rightarrow> error + string" where
  "authenticate_station fmt_q peers identity =
     (case peers of
        None \<Rightarrow> Inl (errors_New ''client certificate is required'')
      | Some [] \<Rightarrow> Inl (errors_New ''client certificate is required'')
      | Some (commonName # _) \<Rightarrow>
          if commonName \<noteq> identity
          then Inl (errors_New (''client certificate CN '' @ fmt_q commonName @ '' does not match station identity '' @ fmt_q identity))
          else Inr identity)"

section \<open>Building the server\<close>

datatype route = Livez | Readyz | Metrics_page | Command_endpoint | OCPP_endpoint

record Server =
  sr_config :: Config
  sr_tls :: "tls_config option"
  sr_memoryStore :: bool
  sr_database :: bool
  sr_redis :: bool
  sr_ownership :: "ownershipManager option"
  sr_commandBus :: "Bus option"
  sr_rateLimiter :: "redisCommandRateLimiter option"
  sr_registryPrefix :: "string option"
  sr_handshakeLimit :: int
  sr_resolver :: trustedProxyResolver
  sr_authenticates :: bool
  sr_routes :: "(string \<times> route) list"

text \<open>The database part: whether there is one. Without it the in-process store is used.\<close>

definition open_database :: "'d outside \<Rightarrow> Config \<Rightarrow> 'd process \<Rightarrow> (error + bool) \<times> 'd process" where
  "open_database ou config p =
     (if cf_MySQLDSN config = '''' then (Inr False, p)
      else
        (case ou_sqlOpen ou (cf_MySQLDSN config) of
           Some err \<Rightarrow> (Inl (errors_Wrap ''open mysql: '' err), p)
         | None \<Rightarrow>
             (let p1 = p\<lparr>ps_database := True\<rparr> in
              case ou_dbPing ou of
                Some err \<Rightarrow> (Inl (errors_Wrap ''ping mysql: '' err), close_database True p1)
              | None \<Rightarrow>
                  (case Migrate (ou_dbExec ou) (ou_migrationFile ou) (Some (ps_data p1)) of
                     (res, d) \<Rightarrow>
                       (let p2 = p1\<lparr>ps_data := (case d of Some d' \<Rightarrow> d' | None \<Rightarrow> ps_data p1)\<rparr> in
                        case res of
                          Some err \<Rightarrow> (Inl err, close_database True p2)
                        | None \<Rightarrow>
                            (case mysqlstore_New (Some (ps_data p2)) of
                               Inl err \<Rightarrow> (Inl err, close_database True p2)
                             | Inr _ \<Rightarrow> (Inr True, p2)))))))"

record redis_parts =
  rp_prefix :: string
  rp_ownership :: ownershipManager
  rp_bus :: Bus
  rp_limiter :: redisCommandRateLimiter

text \<open>The Redis part, if there is one; \<open>db\<close> says whether a database must be closed on failure.\<close>

definition open_redis :: "'d outside \<Rightarrow> Config \<Rightarrow> bool \<Rightarrow> 'd process \<Rightarrow> (error + redis_parts option) \<times> 'd process" where
  "open_redis ou config db p =
     (if cf_RedisURL config = '''' then (Inr None, p)
      else
        (case ou_redisParseURL ou (cf_RedisURL config) of
           Some err \<Rightarrow> (Inl (errors_Wrap ''parse redis URL: '' err), close_database db p)
         | None \<Rightarrow>
             (let p1 = p\<lparr>ps_redis := True\<rparr>; closed = close_database db (close_redis True p1) in
              case ou_redisPing ou of
                Some err \<Rightarrow> (Inl (errors_Wrap ''ping redis: '' err), closed)
              | None \<Rightarrow>
                  (case redisstore_New False ''csms'' of
                     Inl err \<Rightarrow> (Inl err, closed)
                   | Inr registry \<Rightarrow>
                       (case (if cf_InstanceID config = '''' then ou_Hostname ou else Inr (cf_InstanceID config)) of
                          Inl err \<Rightarrow> (Inl (errors_Wrap ''resolve runtime instance ID: '' err), closed)
                        | Inr instanceID \<Rightarrow>
                            (case redisbus_New False ''csms'' (5 * minute) of
                               Inl err \<Rightarrow> (Inl err, closed)
                             | Inr commands \<Rightarrow>
                                 (Inr (Some \<lparr>rp_prefix = registry,
                                    rp_ownership = newOwnershipManager instanceID (cf_SessionLeaseTTL config) (cf_SessionRenew config),
                                    rp_bus = commands,
                                    rp_limiter = \<lparr>rl_prefix = ''csms'', rl_limit = cf_CommandRateLimit config, rl_window = minute\<rparr>\<rparr>), p1)))))))"

definition handshake_limit :: "Config \<Rightarrow> int" where
  "handshake_limit config =
     (if cf_HandshakeRateLimit config \<le> 0 then defaultHandshakeRateLimit else cf_HandshakeRateLimit config)"

definition routes :: "(string \<times> route) list" where
  "routes = [(''/livez'', Livez), (''/readyz'', Readyz), (''/metrics'', Metrics_page),
     (''/api/v1/stations/'', Command_endpoint), (''/'', OCPP_endpoint)]"

text \<open>The last part: limiter, resolver, authenticator and the OCPP server; failures close what is open.\<close>

definition assemble ::
  "'d outside \<Rightarrow> Config \<Rightarrow> tls_config option \<Rightarrow> bool \<Rightarrow> redis_parts option \<Rightarrow> 'd process \<Rightarrow> (error + Server) \<times> 'd process" where
  "assemble ou config tls db redis p =
     (let closed = close_database db (close_redis (redis \<noteq> None) p) in
      case ou_NewIPRateLimiter ou (handshake_limit config) minute of
        Some err \<Rightarrow> (Inl (errors_Wrap ''create handshake rate limiter: '' err), closed)
      | None \<Rightarrow>
          (case newTrustedProxyResolver (cf_TrustedProxyCIDRs config) of
             Inl err \<Rightarrow> (Inl (errors_Wrap ''create trusted proxy resolver: '' err), closed)
           | Inr resolver \<Rightarrow>
               (case ou_csmsNew ou of
                  Some err \<Rightarrow> (Inl err, closed)
                | None \<Rightarrow>
                    (Inr \<lparr>sr_config = config, sr_tls = tls, sr_memoryStore = (\<not> db), sr_database = db, sr_redis = (redis \<noteq> None),
                       sr_ownership = map_option rp_ownership redis, sr_commandBus = map_option rp_bus redis,
                       sr_rateLimiter = map_option rp_limiter redis, sr_registryPrefix = map_option rp_prefix redis,
                       sr_handshakeLimit = handshake_limit config, sr_resolver = resolver,
                       sr_authenticates = (case tls of None \<Rightarrow> False | Some t \<Rightarrow> tc_VerifyClientCertIfGiven t),
                       sr_routes = routes\<rparr>, p))))"

definition New :: "'d outside \<Rightarrow> Config \<Rightarrow> 'd process \<Rightarrow> (error + Server) \<times> 'd process" where
  "New ou config p =
     (case buildTLSConfig ou config of
        Inl err \<Rightarrow> (Inl err, p)
      | Inr tls \<Rightarrow>
          (case open_database ou config p of
             (Inl err, p1) \<Rightarrow> (Inl err, p1)
           | (Inr db, p1) \<Rightarrow>
               (case Register False False (ou_registrations ou) of
                  Some err \<Rightarrow> (Inl err, close_database db p1)
                | None \<Rightarrow>
                    (case open_redis ou config db p1 of
                       (Inl err, p2) \<Rightarrow> (Inl err, p2)
                     | (Inr redis, p2) \<Rightarrow> assemble ou config tls db redis p2))))"

datatype ocpp_level = LogDebug | LogInfo | LogWarn | LogError | LogOther

definition ocppLogLevel :: "ocpp_level \<Rightarrow> level" where
  "ocppLogLevel l =
     (case l of LogDebug \<Rightarrow> LevelDebug | LogWarn \<Rightarrow> LevelWarn | LogError \<Rightarrow> LevelError | _ \<Rightarrow> LevelInfo)"

section \<open>Serving and shutting down\<close>

text \<open>
  A joined error is the list of its parts, nil the empty list. How serving ended: the HTTP server
  returned an error, or the context was cancelled and the four shutdown calls answered.
\<close>

datatype ended =
    Http_returned error
  | Cancelled "error option" "error option" "error option" "error option"

definition errors_Join :: "error option list \<Rightarrow> error list" where
  "errors_Join es = map the (filter (\<lambda>e. e \<noteq> None) es)"

definition ErrServerClosed :: error where
  "ErrServerClosed = errors_New ''http: Server closed''"

definition serve :: "Server \<Rightarrow> ended \<Rightarrow> 'd process \<Rightarrow> error list \<times> 'd process" where
  "serve s e p =
     (case e of
        Http_returned err \<Rightarrow> (if errors_Is err ErrServerClosed then [] else [err], p)
      | Cancelled ocppErr httpErr databaseErr redisErr \<Rightarrow>
          (errors_Join [ocppErr, httpErr, if sr_database s then databaseErr else None, if sr_redis s then redisErr else None],
           close_redis (sr_redis s) (close_database (sr_database s) p)))"

definition Run :: "Server \<Rightarrow> error option \<Rightarrow> ended \<Rightarrow> 'd process \<Rightarrow> error list \<times> 'd process" where
  "Run s listenErr e p =
     (case listenErr of
        Some err \<Rightarrow> ([err], close_redis (sr_redis s) (close_database (sr_database s) p))
      | None \<Rightarrow> serve s e p)"

text \<open>The exit code of the program.\<close>

definition csms_server_main :: "environment \<Rightarrow> 'd outside \<Rightarrow> error option \<Rightarrow> ended \<Rightarrow> 'd process \<Rightarrow> nat \<times> 'd process" where
  "csms_server_main env ou listenErr e p =
     (case loadConfig env of
        Inl _ \<Rightarrow> (2, p)
      | Inr config \<Rightarrow>
          (case New ou config p of
             (Inl _, p1) \<Rightarrow> (1, p1)
           | (Inr server, p1) \<Rightarrow>
               (case Run server listenErr e p1 of
                  (errs, p2) \<Rightarrow>
                    (if errs \<noteq> [] \<and> \<not> list_ex (\<lambda>err. errors_Is err context_Canceled) errs then 1 else 0, p2))))"

end
