(* ===== verification/Server_Proofs.thy ===== *)
theory Server_Proofs
  imports Server
begin

text \<open>
  The runtime's start, its supervision of the command consumer and its end: handles are released on
  every failed start and on shutdown, a loaded configuration starts in a working environment, and
  readiness is withdrawn while commands are not consumed.
\<close>

section \<open>Starting\<close>

lemma close_fields [simp]:
  "ps_database (close_database b p) \<longleftrightarrow> ps_database p \<and> \<not> b" "ps_redis (close_database b p) = ps_redis p"
  "ps_redis (close_redis b p) \<longleftrightarrow> ps_redis p \<and> \<not> b" "ps_database (close_redis b p) = ps_database p"
  by (auto simp: close_database_def close_redis_def)

lemma open_database_handles:
  assumes "open_database ou config p = (res, p')" "\<not> ps_database p" "\<not> ps_redis p"
  shows "\<not> ps_redis p' \<and> (case res of Inl _ \<Rightarrow> \<not> ps_database p' | Inr db \<Rightarrow> ps_database p' = db \<and> db = (cf_MySQLDSN config \<noteq> ''''))"
  using assms by (auto simp: open_database_def Let_def mysqlstore_New_def split: if_splits option.splits prod.splits sum.splits)

lemma open_redis_handles:
  assumes "open_redis ou config db p = (res, p')" "ps_database p = db" "\<not> ps_redis p"
  shows "case res of Inl _ \<Rightarrow> \<not> ps_database p' \<and> \<not> ps_redis p'
    | Inr redis \<Rightarrow> ps_database p' = db \<and> ps_redis p' = (redis \<noteq> None) \<and> (redis \<noteq> None) = (cf_RedisURL config \<noteq> '''')"
  using assms by (auto simp: open_redis_def Let_def split: if_splits option.splits prod.splits sum.splits)

lemma assemble_handles:
  assumes "assemble ou config tls db redis p = (res, p')" "ps_database p = db" "ps_redis p = (redis \<noteq> None)"
  shows "case res of Inl _ \<Rightarrow> \<not> ps_database p' \<and> \<not> ps_redis p'
    | Inr s \<Rightarrow> p' = p \<and> sr_database s = db \<and> sr_redis s = (redis \<noteq> None) \<and> sr_config s = config \<and> sr_memoryStore s = (\<not> db) \<and>
        sr_ownership s = map_option rp_ownership redis \<and> sr_commandBus s = map_option rp_bus redis \<and> sr_rateLimiter s = map_option rp_limiter redis"
  using assms by (auto simp: assemble_def Let_def split: if_splits option.splits prod.splits sum.splits)

text \<open>C10: building the server from a process without open handles either fails and leaves no database
  or Redis connection open, or gives a server that has exactly the connections its configuration asks
  for open, with ownership, command bus and rate limiter present together exactly when Redis is
  configured, and the in-process store exactly when MySQL is not.\<close>

theorem new_leaks_nothing:
  assumes "New ou config p = (res, p')" "\<not> ps_database p" "\<not> ps_redis p"
  shows "case res of
      Inl _ \<Rightarrow> \<not> ps_database p' \<and> \<not> ps_redis p'
    | Inr s \<Rightarrow> ps_database p' = (cf_MySQLDSN config \<noteq> '''') \<and> ps_redis p' = (cf_RedisURL config \<noteq> '''') \<and>
        sr_database s = ps_database p' \<and> sr_redis s = ps_redis p' \<and> sr_memoryStore s = (\<not> ps_database p') \<and>
        (sr_ownership s \<noteq> None) = ps_redis p' \<and> (sr_commandBus s \<noteq> None) = ps_redis p' \<and> (sr_rateLimiter s \<noteq> None) = ps_redis p'"
proof (cases "buildTLSConfig ou config")
  case (Inl err)
  then show ?thesis using assms by (auto simp: New_def)
next
  case tls: (Inr tls)
  obtain r1 p1 where db: "open_database ou config p = (r1, p1)" by fastforce
  note db' = open_database_handles [OF db assms(2,3)]
  show ?thesis
  proof (cases r1)
    case (Inl err)
    then show ?thesis using assms(1) tls db db' by (auto simp: New_def)
  next
    case (Inr b)
    with db' have b: "ps_database p1 = b" "\<not> ps_redis p1" "b = (cf_MySQLDSN config \<noteq> '''')" by auto
    show ?thesis
    proof (cases "Register False False (ou_registrations ou)")
      case (Some err)
      then show ?thesis using assms(1) tls db Inr b by (auto simp: New_def)
    next
      case reg: None
      obtain r2 p2 where rd: "open_redis ou config b p1 = (r2, p2)" by fastforce
      note rd' = open_redis_handles [OF rd b(1,2)]
      show ?thesis
      proof (cases r2)
        case (Inl err)
        then show ?thesis using assms(1) tls db \<open>r1 = Inr b\<close> reg rd rd' by (auto simp: New_def)
      next
        case (Inr redis)
        with rd' have r: "ps_database p2 = b" "ps_redis p2 = (redis \<noteq> None)" "(redis \<noteq> None) = (cf_RedisURL config \<noteq> '''')" by auto
        have "assemble ou config tls b redis p2 = (res, p')"
          using assms(1) tls db \<open>r1 = Inr b\<close> reg rd Inr by (simp add: New_def)
        from assemble_handles [OF this r(1,2)] show ?thesis using r b by (cases res) auto
      qed
    qed
  qed
qed

text \<open>An outside world in which nothing fails; a rate limiter with positive parameters is created.\<close>

definition outside_works :: "'d outside \<Rightarrow> Config \<Rightarrow> bool" where
  "outside_works ou config \<longleftrightarrow>
     fileExists ou (cf_TLSCertFile config) = fileExists ou (cf_TLSKeyFile config) \<and>
     (\<exists>cert. ou_LoadX509KeyPair ou (cf_TLSCertFile config) (cf_TLSKeyFile config) = Inr cert) \<and>
     (\<exists>ca pool. ou_ReadFile ou (cf_TLSClientCAFile config) = Inr ca \<and> ou_CertPool ou ca = Some pool) \<and>
     ou_sqlOpen ou (cf_MySQLDSN config) = None \<and> ou_dbPing ou = None \<and> (\<exists>sql. ou_migrationFile ou = Inr sql) \<and>
     (\<forall>stmt d. fst (ou_dbExec ou stmt d) = None) \<and> list_all (\<lambda>r. r = None) (ou_registrations ou) \<and>
     ou_redisParseURL ou (cf_RedisURL config) = None \<and> ou_redisPing ou = None \<and> (\<exists>h. ou_Hostname ou = Inr h) \<and>
     (\<forall>n w. 0 < n \<longrightarrow> 0 < w \<longrightarrow> ou_NewIPRateLimiter ou n w = None) \<and> ou_csmsNew ou = None"

lemma migrate_loop_ok: "\<forall>stmt d. fst (exec stmt d) = None \<Longrightarrow> fst (migrate_loop exec ss d) = None"
proof (induction ss arbitrary: d)
  case (Cons stmt ss)
  obtain d' where "exec (TrimSpace stmt) d = (None, d')" using Cons.prems by (metis prod.collapse)
  with Cons show ?case by (simp add: Let_def)
qed simp

lemma buildTLSConfig_ok: "outside_works ou config \<Longrightarrow> \<exists>tls. buildTLSConfig ou config = Inr tls"
  by (auto simp: outside_works_def buildTLSConfig_def Let_def)

lemma open_database_ok:
  assumes "outside_works ou config"
  shows "\<exists>db p'. open_database ou config p = (Inr db, p')"
proof (cases "cf_MySQLDSN config = ''''")
  case True
  then have "open_database ou config p = (Inr False, p)" by (simp add: open_database_def)
  then show ?thesis by blast
next
  case False
  from assms obtain sql where w: "ou_sqlOpen ou (cf_MySQLDSN config) = None" "ou_dbPing ou = None" "ou_migrationFile ou = Inr sql"
    "\<forall>stmt d. fst (ou_dbExec ou stmt d) = None" by (auto simp: outside_works_def)
  obtain d' where "migrate_loop (ou_dbExec ou) (Split CHR '';'' sql) (ps_data p) = (None, d')"
    using migrate_loop_ok [OF w(4)] by (metis prod.collapse)
  then show ?thesis using False w
    by (intro exI [of _ True]) (simp add: open_database_def Migrate_def mysqlstore_New_def Let_def)
qed

lemma open_redis_ok:
  assumes "outside_works ou config" "config_ok config"
  shows "\<exists>redis p'. open_redis ou config db p = (Inr redis, p') \<and> (case redis of None \<Rightarrow> cf_RedisURL config = ''''
    | Some r \<Rightarrow> cf_RedisURL config \<noteq> '''' \<and>
        (cf_InstanceID config \<noteq> '''' \<longrightarrow> om_ownerID (rp_ownership r) = cf_InstanceID config) \<and>
        0 < om_renewInterval (rp_ownership r) \<and> om_renewInterval (rp_ownership r) < om_ttl (rp_ownership r) \<and>
        0 < rl_limit (rp_limiter r) \<and> rl_prefix (rp_limiter r) = bus_prefix (rp_bus r))"
  using assms
  by (auto simp: outside_works_def open_redis_def Let_def redisstore_New_def redisbus_New_def newOwnershipManager_def
      config_ok_def settings_ok_def positive64_def)


section \<open>Stopping\<close>

text \<open>After a cancelled context, and after a failed listen, no connection is left open.\<close>

lemma stop_releases:
  assumes "sr_database s = ps_database p" "sr_redis s = ps_redis p" "listenErr \<noteq> None \<or> (\<exists>a b c d. e = Cancelled a b c d)"
    and "Run s listenErr e p = (errs, p')"
  shows "\<not> ps_database p' \<and> \<not> ps_redis p'"
  using assms by (auto simp: Run_def serve_def split: option.splits)

text \<open>When the HTTP server itself fails, \<open>serve\<close> returns without closing anything.\<close>

lemma http_failure_leaks: "serve s (Http_returned err) p = (errs, p') \<Longrightarrow> p' = p"
  by (simp add: serve_def)

section \<open>Supervising the command consumer\<close>

text \<open>
  The two goroutines of a serving runtime with a command bus, cut where they interleave. The
  supervisor consumes, has seen the consumer return, waits for Redis, has seen a ping succeed, or
  has exited; the main goroutine serves or has withdrawn readiness for good. \<open>sv_done\<close> is the
  cancelled context.
\<close>

datatype supervisor = Consuming | Failing | Waiting | Recovered | Exited

record serving =
  sv_ready :: bool
  sv_done :: bool
  sv_draining :: bool
  sv_phase :: supervisor

definition serving_start :: serving where
  "serving_start = \<lparr>sv_ready = True, sv_done = False, sv_draining = False, sv_phase = Consuming\<rparr>"

inductive serving_step :: "serving \<Rightarrow> serving \<Rightarrow> bool" where
  consumer_stopped: "sv_phase s = Consuming \<Longrightarrow> sv_done s \<Longrightarrow> serving_step s (s\<lparr>sv_phase := Exited\<rparr>)"
| consumer_failed: "sv_phase s = Consuming \<Longrightarrow> \<not> sv_done s \<Longrightarrow> serving_step s (s\<lparr>sv_phase := Failing\<rparr>)"
| withdraw: "sv_phase s = Failing \<Longrightarrow> serving_step s (s\<lparr>sv_phase := Waiting, sv_ready := False\<rparr>)"
| waiting_stopped: "sv_phase s = Waiting \<Longrightarrow> sv_done s \<Longrightarrow> serving_step s (s\<lparr>sv_phase := Exited\<rparr>)"
| ping_failed: "sv_phase s = Waiting \<Longrightarrow> serving_step s s"
| ping_ok: "sv_phase s = Waiting \<Longrightarrow> serving_step s (s\<lparr>sv_phase := Recovered\<rparr>)"
| announce: "sv_phase s = Recovered \<Longrightarrow> serving_step s (s\<lparr>sv_phase := Consuming, sv_ready := True\<rparr>)"
| cancel: "\<not> sv_done s \<Longrightarrow> serving_step s (s\<lparr>sv_done := True\<rparr>)"
| drain: "sv_done s \<Longrightarrow> \<not> sv_draining s \<Longrightarrow> serving_step s (s\<lparr>sv_draining := True, sv_ready := False\<rparr>)"
| http_failed: "\<not> sv_draining s \<Longrightarrow> serving_step s (s\<lparr>sv_draining := True, sv_ready := False\<rparr>)"

inductive serving_reachable :: "serving \<Rightarrow> bool" where
  start: "serving_reachable serving_start"
| step: "serving_reachable s \<Longrightarrow> serving_step s s' \<Longrightarrow> serving_reachable s'"

definition serving_ok :: "serving \<Rightarrow> bool" where
  "serving_ok s \<longleftrightarrow>
     (case sv_phase s of
        Consuming \<Rightarrow> sv_done s \<or> sv_draining s \<or> sv_ready s
      | Failing \<Rightarrow> sv_done s \<or> sv_draining s \<or> sv_ready s
      | Waiting \<Rightarrow> \<not> sv_ready s
      | Recovered \<Rightarrow> \<not> sv_ready s
      | Exited \<Rightarrow> sv_done s)"

lemma serving_step_ok: "serving_step s s' \<Longrightarrow> serving_ok s \<Longrightarrow> serving_ok s'"
  by (induction rule: serving_step.induct) (simp_all add: serving_ok_def split: supervisor.splits)

lemma serving_reachable_ok: "serving_reachable s \<Longrightarrow> serving_ok s"
  by (induction rule: serving_reachable.induct) (simp add: serving_ok_def serving_start_def, rule serving_step_ok)

text \<open>C40: in every reachable state of a serving runtime, the readiness endpoint answers 503 from the moment
  a failed consumer is noticed until Redis answers again, and it answers 200 before any shutdown in
  every other state but the moment between the consumer's return and its being noticed.\<close>

theorem unready_while_not_consuming:
  assumes "serving_reachable s"
  shows "(sv_phase s = Waiting \<or> sv_phase s = Recovered \<longrightarrow> rs_Status (readiness (sv_ready s)) = 503) \<and>
    (\<not> sv_done s \<and> \<not> sv_draining s \<and> sv_phase s \<in> {Consuming, Failing} \<longrightarrow> rs_Status (readiness (sv_ready s)) = 200) \<and>
    (sv_phase s = Exited \<longrightarrow> sv_done s)"
  using serving_reachable_ok [OF assms] by (cases "sv_phase s") (auto simp: serving_ok_def readiness_def)

lemma recovering_reachable:
  "serving_reachable \<lparr>sv_ready = False, sv_done = False, sv_draining = False, sv_phase = Recovered\<rparr>"
proof -
  have "serving_step serving_start (serving_start\<lparr>sv_phase := Failing\<rparr>)" by (rule consumer_failed) (simp_all add: serving_start_def)
  then have 1: "serving_reachable (serving_start\<lparr>sv_phase := Failing\<rparr>)" by (rule serving_reachable.step [OF serving_reachable.start])
  have 2: "serving_reachable (serving_start\<lparr>sv_phase := Waiting, sv_ready := False\<rparr>)"
    using serving_reachable.step [OF 1 withdraw] by simp
  show ?thesis using serving_reachable.step [OF 2 ping_ok] by (simp add: serving_start_def)
qed

lemma unready_while_not_consuming_witness:
  "rs_Status (readiness (sv_ready \<lparr>sv_ready = False, sv_done = False, sv_draining = False, sv_phase = Recovered\<rparr>)) = 503"
  using unready_while_not_consuming [OF recovering_reachable] by simp

text \<open>The supervisor's late announcement can undo the withdrawal of readiness at shutdown.\<close>

lemma ready_while_draining:
  "serving_reachable \<lparr>sv_ready = True, sv_done = True, sv_draining = True, sv_phase = Consuming\<rparr>"
proof -
  let ?s = "\<lparr>sv_ready = False, sv_done = False, sv_draining = False, sv_phase = Recovered\<rparr>"
  have 1: "serving_reachable (?s\<lparr>sv_done := True\<rparr>)" using serving_reachable.step [OF recovering_reachable cancel] by simp
  have 2: "serving_reachable (?s\<lparr>sv_done := True, sv_draining := True, sv_ready := False\<rparr>)"
    using serving_reachable.step [OF 1 drain] by simp
  show ?thesis using serving_reachable.step [OF 2 announce] by simp
qed

section \<open>A working environment\<close>

definition demo_outside :: "unit outside" where
  "demo_outside = \<lparr>ou_Stat = (\<lambda>_. None), ou_LoadX509KeyPair = (\<lambda>_ _. Inr ''cert''), ou_ReadFile = (\<lambda>_. Inr ''''),
     ou_CertPool = Some, ou_sqlOpen = (\<lambda>_. None), ou_dbPing = None, ou_migrationFile = Inr '''', ou_dbExec = (\<lambda>_ d. (None, d)),
     ou_registrations = [None], ou_redisParseURL = (\<lambda>_. None), ou_redisPing = Some (errors_New ''refused''), ou_Hostname = Inr ''host'',
     ou_NewIPRateLimiter = (\<lambda>n w. if 0 < n \<and> 0 < w then None else Some (errors_New ''limit'')), ou_csmsNew = None\<rparr>"

definition runtime_env :: environment where
  "runtime_env = [''CSMS_REDIS_URL'' \<mapsto> ''redis://redis:6379'', ''CSMS_INSTANCE_ID'' \<mapsto> ''csms-0'']"

definition demo_config :: Config where
  "demo_config = default_Config\<lparr>cf_RedisURL := ''redis://redis:6379'', cf_InstanceID := ''csms-0''\<rparr>"

lemma demo_loads: "loadConfig runtime_env = Inr demo_config"
  by (simp add: loadConfig_def timing_stages_def file_stages_def load_HTTPAddr_def load_positive_def load_duration_def load_LogLevel_def
      load_trimmed_def load_APIKeys_def check_renewal_def load_TrustedProxyCIDRs_def runtime_env_def demo_config_def TrimSpace_visible visible_def)
    (simp add: default_Config_def defaultSessionLeaseTTL_def defaultSessionRenew_def)

definition demo_process :: "unit process" where
  "demo_process = \<lparr>ps_database = False, ps_redis = False, ps_data = ()\<rparr>"

lemma new_leaks_nothing_witness:
  "\<exists>err p'. New demo_outside demo_config demo_process = (Inl err, p') \<and> \<not> ps_database p' \<and> \<not> ps_redis p'"
proof -
  have tls: "buildTLSConfig demo_outside demo_config = Inr None"
    by (simp add: buildTLSConfig_def fileExists_def demo_outside_def)
  have db: "open_database demo_outside demo_config demo_process = (Inr False, demo_process)"
    by (simp add: open_database_def demo_config_def default_Config_def)
  have reg: "Register False False (ou_registrations demo_outside) = None" by (simp add: Register_def demo_outside_def)
  have "\<exists>err p'. open_redis demo_outside demo_config False demo_process = (Inl err, p')"
    by (simp add: open_redis_def demo_outside_def demo_config_def Let_def)
  then obtain err p' where run: "New demo_outside demo_config demo_process = (Inl err, p')"
    using tls db reg by (auto simp: New_def)
  have "\<not> ps_database demo_process" "\<not> ps_redis demo_process" by (simp_all add: demo_process_def)
  from new_leaks_nothing [OF run this] run show ?thesis by simp
qed


end
