(* ===== verification/Probe.thy ===== *)
theory Probe
  imports Handlers Commands
begin

text \<open>
  The probe station (cmd/csms-probe): it boots, reports a connector and then answers the server's calls.
  The WebSocket library is outside the repository: a connection is what its reads and writes return,
  an argument of the definitions. A read gives the elements of the array it received, or an error
  and whether that is a timeout; when nothing more comes, the read deadline passes. \<open>fmt_q\<close> is the
  quoting of \<open>%q\<close>; the texts of the errors about unexpected frames end before the printed frame.
\<close>

datatype incoming = Frame "json list" | Read_error error bool

record connection =
  cn_incoming :: "incoming list"
  cn_write_errors :: "error option list"
  cn_sent :: "string list"

definition array_text :: "string list \<Rightarrow> string" where
  "array_text ts = ''['' @ commas ts @ '']''"

text \<open>\<open>WriteJSON\<close> of the array with the given texts; the encoder ends it with a newline.\<close>

definition WriteJSON :: "string list \<Rightarrow> connection \<Rightarrow> error option \<times> connection" where
  "WriteJSON ts c =
     (case cn_write_errors c of
        Some err # rest \<Rightarrow> (Some err, c\<lparr>cn_write_errors := rest\<rparr>)
      | None # rest \<Rightarrow> (None, c\<lparr>cn_write_errors := rest, cn_sent := cn_sent c @ [array_text ts @ [CHR 0x0A]]\<rparr>)
      | [] \<Rightarrow> (None, c\<lparr>cn_sent := cn_sent c @ [array_text ts @ [CHR 0x0A]]\<rparr>))"

text \<open>\<open>json.Unmarshal\<close> into a string: null leaves it empty.\<close>

definition unmarshal_string :: "json \<Rightarrow> error + string" where
  "unmarshal_string v =
     (case v of
        JStr t \<Rightarrow> Inr (unquote t)
      | JNull \<Rightarrow> Inr ''''
      | _ \<Rightarrow> Inl (errors_New ''json: cannot unmarshal into Go value of type string''))"

definition probePayloads :: "(string \<Rightarrow> string) \<Rightarrow> time \<Rightarrow> string \<Rightarrow> error + string \<times> string" where
  "probePayloads fmt_q now version =
     (if version = ''ocpp1.6'' then
        Inr (object_text [(''chargePointModel'', quote ''Probe''), (''chargePointVendor'', quote ''CSMS'')],
             object_text [(''connectorId'', ''1''), (''errorCode'', quote ''NoError''), (''status'', quote ''Available'')])
      else if version = ''ocpp2.0.1'' \<or> version = ''ocpp2.1'' then
        Inr (object_text [(''chargingStation'', object_text [(''model'', quote ''Probe''), (''vendorName'', quote ''CSMS'')]),
               (''reason'', quote ''PowerUp'')],
             object_text [(''connectorId'', ''1''), (''connectorStatus'', quote ''Available''), (''evseId'', ''1''),
               (''timestamp'', quote (now_text now))])
      else Inl (errors_New (''unsupported OCPP subprotocol '' @ fmt_q version)))"

definition probe_call :: "string \<Rightarrow> string \<Rightarrow> string \<Rightarrow> connection \<Rightarrow> error option \<times> connection" where
  "probe_call i action payload c =
     (case WriteJSON [''2'', quote i, quote action, payload] c of
        (Some err, c1) \<Rightarrow> (Some err, c1)
      | (None, c1) \<Rightarrow>
          (case cn_incoming c1 of
             [] \<Rightarrow> (Some (errors_New ''i/o timeout''), c1)
           | Read_error err _ # rest \<Rightarrow> (Some err, c1\<lparr>cn_incoming := rest\<rparr>)
           | Frame response # rest \<Rightarrow>
               (if length response \<noteq> 3 \<or> response ! 0 \<noteq> JNum ''3'' \<or> response ! 1 \<noteq> JStr i
                then Some (errors_New (''unexpected '' @ action @ '' response'')) else None, c1\<lparr>cn_incoming := rest\<rparr>)))"

text \<open>What the loop does with one frame: refuse it, or the identifier and action it answers.\<close>

definition server_call :: "json list \<Rightarrow> error + string \<times> string" where
  "server_call frame =
     (if length frame \<noteq> 4 \<or> frame ! 0 \<noteq> JNum ''2'' then Inl (errors_New ''unexpected server frame'')
      else
        (case unmarshal_string (frame ! 1) of
           Inl err \<Rightarrow> Inl err
         | Inr i \<Rightarrow> (case unmarshal_string (frame ! 2) of Inl err \<Rightarrow> Inl err | Inr action \<Rightarrow> Inr (i, action))))"

definition answer :: "string \<Rightarrow> string \<Rightarrow> string list" where
  "answer i action =
     (if action \<noteq> ''Reset''
      then [''4'', quote i, quote ''NotImplemented'', quote ''unsupported action'', ''{}'']
      else [''3'', quote i, object_text [(''status'', quote ''Accepted'')]])"

fun answer_loop :: "incoming list \<Rightarrow> connection \<Rightarrow> error option \<times> connection" where
  "answer_loop [] c = (None, c\<lparr>cn_incoming := []\<rparr>)"
| "answer_loop (Read_error err timeout # rest) c = (if timeout then None else Some err, c\<lparr>cn_incoming := rest\<rparr>)"
| "answer_loop (Frame frame # rest) c =
     (case server_call frame of
        Inl err \<Rightarrow> (Some err, c\<lparr>cn_incoming := rest\<rparr>)
      | Inr (i, action) \<Rightarrow>
          (case WriteJSON (answer i action) c of
             (Some err, c1) \<Rightarrow> (Some err, c1\<lparr>cn_incoming := rest\<rparr>)
           | (None, c1) \<Rightarrow> answer_loop rest c1))"

definition answerServerCalls :: "error option \<Rightarrow> connection \<Rightarrow> error option \<times> connection" where
  "answerServerCalls deadlineErr c =
     (case deadlineErr of Some err \<Rightarrow> (Some err, c) | None \<Rightarrow> answer_loop (cn_incoming c) c)"

text \<open>The program: the fatal error, if any. The dialler returns the connection and its subprotocol.\<close>

definition probe_main ::
  "(string \<Rightarrow> string) \<Rightarrow> string \<Rightarrow> string \<Rightarrow> duration \<Rightarrow> time \<Rightarrow> error + connection \<times> string \<Rightarrow> error option \<Rightarrow> error option" where
  "probe_main fmt_q endpoint version hold now dialled deadlineErr =
     (if endpoint = '''' then Some (errors_New ''-url is required'')
      else
        (case probePayloads fmt_q now version of
           Inl err \<Rightarrow> Some err
         | Inr (boot, status) \<Rightarrow>
             (case dialled of
                Inl err \<Rightarrow> Some err
              | Inr (c, subprotocol) \<Rightarrow>
                  if subprotocol \<noteq> version then Some (errors_New (''server selected subprotocol '' @ fmt_q subprotocol @ '', want '' @ fmt_q version))
                  else
                    (case probe_call ''probe-boot'' ''BootNotification'' boot c of
                       (Some err, c1) \<Rightarrow> Some err
                     | (None, c1) \<Rightarrow>
                         (case probe_call ''probe-status'' ''StatusNotification'' status c1 of
                            (Some err, c2) \<Rightarrow> Some err
                          | (None, c2) \<Rightarrow> if 0 < hold then fst (answerServerCalls deadlineErr c2) else None)))))"

section \<open>Answers\<close>

text \<open>
  Over a connection that takes its writes, well-formed calls are answered one by one and in order, each
  under its own identifier, resets accepted and anything else refused; then the probe ends well.
\<close>

lemma answers_in_order:
  assumes "list_all (\<lambda>f. \<exists>ia. server_call f = Inr ia) frames" "cn_write_errors c = []"
  shows "answer_loop (map Frame frames) c =
    (None, c\<lparr>cn_incoming := [], cn_sent := cn_sent c @
       map (\<lambda>f. case server_call f of Inr (i, action) \<Rightarrow> array_text (answer i action) @ [CHR 0x0A] | _ \<Rightarrow> '''') frames\<rparr>)"
  using assms
proof (induction frames arbitrary: c)
  case (Cons f frames)
  then obtain i action where "server_call f = Inr (i, action)" by auto
  moreover have "WriteJSON (answer i action) c = (None, c\<lparr>cn_sent := cn_sent c @ [array_text (answer i action) @ [CHR 0x0A]]\<rparr>)"
    using Cons.prems(2) by (simp add: WriteJSON_def)
  ultimately show ?case using Cons by simp
qed simp

text \<open>An answer to a Reset is read back as the result of the call with the same identifier.\<close>

lemma reset_answer_parses:
  "json_parse (array_text (answer i ''Reset'')) =
     Some (JArr [JNum ''3'', JStr (quote_body i), JObj [(''status'', quote ''Accepted'', JStr (quote_body ''Accepted''))]])"
proof -
  have num: "parses_to ''3'' (JNum ''3'')"
    using parses_to_showInt [of 3] by (simp add: showInt_def showNat.simps digit_char_def char_of_def bit_0)
  have tok: "token ''status''" by (rule plain_name_token) (simp add: plain_name_def)
  have "parses_to (object_text [(''status'', quote ''Accepted'')]) (JObj (members_of [(''status'', quote ''Accepted'')] [JStr (quote_body ''Accepted'')]))"
    using tok parses_to_quote [of "''Accepted''"]
    by (intro parses_to_object) (simp add: members_to_def del: quote_body.simps)
  then have "parses_to (array_text (answer i ''Reset''))
      (JArr [JNum ''3'', JStr (quote_body i), JObj [(''status'', quote ''Accepted'', JStr (quote_body ''Accepted''))]])"
    unfolding array_text_def answer_def using num parses_to_quote
    by (intro parses_to_array) (simp add: members_of_def del: quote_body.simps)
  then show ?thesis by (rule parses_to_json_parse)
qed

end
