(* ===== verification/Deep_Copy.thy ===== *)
theory Deep_Copy
  imports CSMS_API "HOL-Library.AList"
begin

text \<open>
  The copy functions of the custom resource (api/v1alpha1/zz_generated.deepcopy.go) over an explicit
  heap: pointers, maps and slices are addresses, and a struct is a record that holds them. The
  structs of the Kubernetes libraries have copy functions of their own; their representation \<open>'l\<close> and
  those functions are parameters. A copy has the value of the original and shares no memory with it.
\<close>

section \<open>Structs and heap\<close>

type_synonym addr = nat

record ingress_obj =
  oi_Host :: string
  oi_IngressClassName :: string
  oi_TLSSecretName :: string
  oi_Annotations :: "addr option"

record 'l spec_obj =
  os_Image :: string
  os_Replicas :: "addr option"
  os_Port :: int
  os_LivenessPath :: string
  os_ReadinessPath :: string
  os_TerminationGracePeriodSeconds :: "addr option"
  os_DatabaseSecretName :: string
  os_RedisSecretName :: string
  os_APISecretName :: string
  os_Config :: "addr option"
  os_Resources :: 'l
  os_MinAvailable :: "addr option"
  os_Ingress :: "addr option"
  os_TLS :: "addr option"

record status_obj =
  ot_Replicas :: int
  ot_ReadyReplicas :: int
  ot_ObservedGeneration :: int
  ot_Conditions :: "addr option"

record 'l csms_obj =
  oc_TypeMeta :: "string \<times> string"
  oc_ObjectMeta :: 'l
  oc_Spec :: "'l spec_obj"
  oc_Status :: status_obj

record 'l list_obj =
  ol_TypeMeta :: "string \<times> string"
  ol_ListMeta :: 'l
  ol_Items :: "addr option"

text \<open>What an address holds. A map is the list of its entries in the order a range loop visits them.\<close>

datatype 'l cell =
    Int_cell int
  | Map_cell "(string \<times> string) list"
  | IntOrString_cell IntOrString
  | Ingress_cell ingress_obj
  | TLS_cell CSMSTLS
  | Conditions_cell "'l list"
  | Items_cell "'l csms_obj list"
  | Spec_cell "'l spec_obj"
  | Status_cell status_obj
  | CSMS_cell "'l csms_obj"
  | List_cell "'l list_obj"
  | Lib_cell 'l

fun int_at where "int_at (Int_cell n) = Some n" | "int_at _ = None"
fun map_at where "map_at (Map_cell es) = Some es" | "map_at _ = None"
fun int_or_string_at where "int_or_string_at (IntOrString_cell v) = Some v" | "int_or_string_at _ = None"
fun ingress_at where "ingress_at (Ingress_cell v) = Some v" | "ingress_at _ = None"
fun tls_at where "tls_at (TLS_cell v) = Some v" | "tls_at _ = None"
fun conditions_at where "conditions_at (Conditions_cell v) = Some v" | "conditions_at _ = None"
fun items_at where "items_at (Items_cell v) = Some v" | "items_at _ = None"
fun spec_at where "spec_at (Spec_cell v) = Some v" | "spec_at _ = None"
fun status_at where "status_at (Status_cell v) = Some v" | "status_at _ = None"
fun csms_at where "csms_at (CSMS_cell v) = Some v" | "csms_at _ = None"
fun list_at where "list_at (List_cell v) = Some v" | "list_at _ = None"

record 'l heap =
  hp_cells :: "addr \<rightharpoonup> 'l cell"
  hp_next :: addr

definition alloc :: "'l cell \<Rightarrow> 'l heap \<Rightarrow> addr \<times> 'l heap" where
  "alloc c h = (hp_next h, h\<lparr>hp_cells := (hp_cells h)(hp_next h \<mapsto> c), hp_next := Suc (hp_next h)\<rparr>)"

definition store_at :: "addr \<Rightarrow> 'l cell \<Rightarrow> 'l heap \<Rightarrow> 'l heap" where
  "store_at a c h = h\<lparr>hp_cells := (hp_cells h)(a \<mapsto> c)\<rparr>"

section \<open>The copy functions\<close>

type_synonym ('o, 'l) copier = "'o \<Rightarrow> 'l heap \<Rightarrow> 'o \<times> 'l heap"

text \<open>
  The pattern the generator uses for every reference: nothing for nil; otherwise new memory with an
  initial value, which is then overwritten by the copy of what the original refers to. Following an
  address that holds nothing of the type does not happen in Go; the model then keeps the address.
\<close>

definition copy_ref ::
  "('o \<Rightarrow> 'o) \<Rightarrow> ('o \<Rightarrow> 'l cell) \<Rightarrow> ('l cell \<Rightarrow> 'o option) \<Rightarrow> ('o, 'l) copier \<Rightarrow> (addr option, 'l) copier" where
  "copy_ref init mk at copy p h =
     (case p of
        None \<Rightarrow> (None, h)
      | Some a \<Rightarrow>
          (case Option.bind (hp_cells h a) at of
             None \<Rightarrow> (Some a, h)
           | Some x \<Rightarrow>
               (let (b, h1) = alloc (mk (init x)) h; (y, h2) = copy x h1
                in (Some b, store_at b (mk y) h2))))"

text \<open>A struct without references is copied by the assignment alone.\<close>

definition assign :: "('o, 'l) copier" where
  "assign x h = (x, h)"

text \<open>The loops over the entries of a map and over the elements of a slice.\<close>

definition copy_entries :: "((string \<times> string) list, 'l) copier" where
  "copy_entries es h = (fold (\<lambda>(key, val) out. AList.update key val out) es [], h)"

fun copy_elements :: "('o, 'l) copier \<Rightarrow> ('o list, 'l) copier" where
  "copy_elements copy [] h = ([], h)"
| "copy_elements copy (x # xs) h =
     (let (y, h1) = copy x h; (ys, h2) = copy_elements copy xs h1 in (y # ys, h2))"

definition copy_map :: "(addr option, 'l) copier" where
  "copy_map = copy_ref (\<lambda>_. []) Map_cell map_at copy_entries"

definition TLS_DeepCopyInto :: "(CSMSTLS, 'l) copier" where
  "TLS_DeepCopyInto = assign"

definition Ingress_DeepCopyInto :: "(ingress_obj, 'l) copier" where
  "Ingress_DeepCopyInto i h =
     (let (annotations, h1) = copy_map (oi_Annotations i) h
      in (i\<lparr>oi_Annotations := annotations\<rparr>, h1))"

text \<open>The copy functions of the libraries' structs.\<close>

record 'l library =
  lib_ObjectMeta :: "('l, 'l) copier"
  lib_ListMeta :: "('l, 'l) copier"
  lib_ResourceRequirements :: "('l, 'l) copier"
  lib_Condition :: "('l, 'l) copier"

definition Spec_DeepCopyInto :: "'l library \<Rightarrow> ('l spec_obj, 'l) copier" where
  "Spec_DeepCopyInto lib s h =
     (let (replicas, h1) = copy_ref (\<lambda>_. 0) Int_cell int_at assign (os_Replicas s) h;
          (grace, h2) = copy_ref (\<lambda>_. 0) Int_cell int_at assign (os_TerminationGracePeriodSeconds s) h1;
          (config, h3) = copy_map (os_Config s) h2;
          (resources, h4) = lib_ResourceRequirements lib (os_Resources s) h3;
          (minAvailable, h5) = copy_ref (\<lambda>_. FromInt 0) IntOrString_cell int_or_string_at assign (os_MinAvailable s) h4;
          (ingress, h6) = copy_ref (\<lambda>i. i) Ingress_cell ingress_at Ingress_DeepCopyInto (os_Ingress s) h5;
          (tls, h7) = copy_ref (\<lambda>t. t) TLS_cell tls_at TLS_DeepCopyInto (os_TLS s) h6
      in (s\<lparr>os_Replicas := replicas, os_TerminationGracePeriodSeconds := grace, os_Config := config, os_Resources := resources,
            os_MinAvailable := minAvailable, os_Ingress := ingress, os_TLS := tls\<rparr>, h7))"

definition Status_DeepCopyInto :: "'l library \<Rightarrow> (status_obj, 'l) copier" where
  "Status_DeepCopyInto lib s h =
     (let (conditions, h1) = copy_ref (\<lambda>cs. cs) Conditions_cell conditions_at (copy_elements (lib_Condition lib)) (ot_Conditions s) h
      in (s\<lparr>ot_Conditions := conditions\<rparr>, h1))"

definition CSMS_DeepCopyInto :: "'l library \<Rightarrow> ('l csms_obj, 'l) copier" where
  "CSMS_DeepCopyInto lib o_in h =
     (let (meta, h1) = lib_ObjectMeta lib (oc_ObjectMeta o_in) h;
          (spec, h2) = Spec_DeepCopyInto lib (oc_Spec o_in) h1;
          (status, h3) = Status_DeepCopyInto lib (oc_Status o_in) h2
      in (o_in\<lparr>oc_TypeMeta := oc_TypeMeta o_in, oc_ObjectMeta := meta, oc_Spec := spec, oc_Status := status\<rparr>, h3))"

definition List_DeepCopyInto :: "'l library \<Rightarrow> ('l list_obj, 'l) copier" where
  "List_DeepCopyInto lib l h =
     (let (meta, h1) = lib_ListMeta lib (ol_ListMeta l) h;
          (items, h2) = copy_ref (\<lambda>xs. xs) Items_cell items_at (copy_elements (CSMS_DeepCopyInto lib)) (ol_Items l) h1
      in (l\<lparr>ol_TypeMeta := ol_TypeMeta l, ol_ListMeta := meta, ol_Items := items\<rparr>, h2))"

text \<open>The methods on pointers: nil for nil, otherwise a new struct filled by \<open>DeepCopyInto\<close>.\<close>

definition Ingress_DeepCopy :: "(addr option, 'l) copier" where
  "Ingress_DeepCopy = copy_ref (\<lambda>x. x) Ingress_cell ingress_at Ingress_DeepCopyInto"

definition TLS_DeepCopy :: "(addr option, 'l) copier" where
  "TLS_DeepCopy = copy_ref (\<lambda>x. x) TLS_cell tls_at TLS_DeepCopyInto"

definition Spec_DeepCopy :: "'l library \<Rightarrow> (addr option, 'l) copier" where
  "Spec_DeepCopy lib = copy_ref (\<lambda>x. x) Spec_cell spec_at (Spec_DeepCopyInto lib)"

definition Status_DeepCopy :: "'l library \<Rightarrow> (addr option, 'l) copier" where
  "Status_DeepCopy lib = copy_ref (\<lambda>x. x) Status_cell status_at (Status_DeepCopyInto lib)"

definition CSMS_DeepCopy :: "'l library \<Rightarrow> (addr option, 'l) copier" where
  "CSMS_DeepCopy lib = copy_ref (\<lambda>x. x) CSMS_cell csms_at (CSMS_DeepCopyInto lib)"

definition List_DeepCopy :: "'l library \<Rightarrow> (addr option, 'l) copier" where
  "List_DeepCopy lib = copy_ref (\<lambda>x. x) List_cell list_at (List_DeepCopyInto lib)"

text \<open>An object is a typed pointer in an interface, or the nil interface.\<close>

datatype runtime_object = CSMS_object addr | CSMSList_object addr

definition CSMS_DeepCopyObject :: "'l library \<Rightarrow> addr option \<Rightarrow> 'l heap \<Rightarrow> runtime_object option \<times> 'l heap" where
  "CSMS_DeepCopyObject lib p h =
     (case CSMS_DeepCopy lib p h of (Some c, h1) \<Rightarrow> (Some (CSMS_object c), h1) | (None, h1) \<Rightarrow> (None, h1))"

definition List_DeepCopyObject :: "'l library \<Rightarrow> addr option \<Rightarrow> 'l heap \<Rightarrow> runtime_object option \<times> 'l heap" where
  "List_DeepCopyObject lib p h =
     (case List_DeepCopy lib p h of (Some c, h1) \<Rightarrow> (Some (CSMSList_object c), h1) | (None, h1) \<Rightarrow> (None, h1))"

section \<open>What a copy function promises\<close>

text \<open>
  \<open>read\<close> is the value a struct stands for in a heap, if all its references are good; \<open>foot\<close> is the
  memory it consists of. A value depends on that memory only; a copy has the value of the original,
  consists of new memory only and leaves the old memory as it was.
\<close>

definition heap_ok :: "'l heap \<Rightarrow> bool" where
  "heap_ok h \<longleftrightarrow> (\<forall>a. hp_next h \<le> a \<longrightarrow> hp_cells h a = None)"

definition grows :: "'l heap \<Rightarrow> 'l heap \<Rightarrow> bool" where
  "grows h h' \<longleftrightarrow> heap_ok h' \<and> hp_next h \<le> hp_next h' \<and> (\<forall>a < hp_next h. hp_cells h' a = hp_cells h a)"

definition same_on :: "addr set \<Rightarrow> 'l heap \<Rightarrow> 'l heap \<Rightarrow> bool" where
  "same_on A h h' \<longleftrightarrow> (\<forall>a \<in> A. hp_cells h' a = hp_cells h a)"

lemma same_on_simps [simp]:
  "same_on {} h h'" "same_on (A \<union> B) h h' \<longleftrightarrow> same_on A h h' \<and> same_on B h h'"
  "same_on (insert a A) h h' \<longleftrightarrow> hp_cells h' a = hp_cells h a \<and> same_on A h h'"
  by (auto simp: same_on_def)

lemma grows_refl: "heap_ok h \<Longrightarrow> grows h h"
  by (simp add: grows_def)

lemma grows_trans [trans]: "grows h h1 \<Longrightarrow> grows h1 h2 \<Longrightarrow> grows h h2"
  by (auto simp: grows_def)

lemma grows_same_on: "grows h h' \<Longrightarrow> A \<subseteq> {..<hp_next h} \<Longrightarrow> same_on A h h'"
  by (auto simp: grows_def same_on_def)

locale deep_copier =
  fixes copy :: "('o, 'l) copier"
    and read :: "'l heap \<Rightarrow> 'o \<Rightarrow> 'v option"
    and foot :: "'l heap \<Rightarrow> 'o \<Rightarrow> addr set"
  assumes local: "same_on (foot h x) h h' \<Longrightarrow> read h' x = read h x \<and> foot h' x = foot h x"
    and bounded: "heap_ok h \<Longrightarrow> read h x = Some v \<Longrightarrow> foot h x \<subseteq> {..<hp_next h}"
    and copies: "heap_ok h \<Longrightarrow> read h x = Some v \<Longrightarrow> copy x h = (y, h') \<Longrightarrow>
      grows h h' \<and> read h' y = Some v \<and> foot h' y \<subseteq> {hp_next h..<hp_next h'}"
begin

lemma kept:
  assumes "heap_ok h" "read h x = Some v" "grows h h'"
  shows "read h' x = Some v" "foot h' x = foot h x"
  using local [OF grows_same_on [OF assms(3) bounded [OF assms(1,2)]]] assms(2) by simp_all

text \<open>Whatever happens to the memory that was there before, the copy keeps its value, and the other way round.\<close>

lemma independent:
  assumes "heap_ok h" "read h x = Some v" "copy x h = (y, h')"
  shows "same_on {hp_next h..<hp_next h'} h' h'' \<Longrightarrow> read h'' y = Some v"
    and "same_on {..<hp_next h} h' h'' \<Longrightarrow> read h'' x = Some v"
proof -
  note c = copies [OF assms]
  show "read h'' y = Some v" if "same_on {hp_next h..<hp_next h'} h' h''"
    using local [of h' y h''] that c by (auto simp: same_on_def)
  show "read h'' x = Some v" if "same_on {..<hp_next h} h' h''"
  proof -
    have k: "read h' x = Some v" "foot h' x = foot h x" using kept [OF assms(1,2)] c by blast+
    have "same_on (foot h' x) h' h''" using that bounded [OF assms(1,2)] unfolding k(2) same_on_def by blast
    from local [OF this] k(1) show ?thesis by simp
  qed
qed

end

section \<open>Building blocks\<close>

definition read_all :: "('l heap \<Rightarrow> 'o \<Rightarrow> 'v option) \<Rightarrow> 'l heap \<Rightarrow> 'o list \<Rightarrow> 'v list option" where
  "read_all read h xs = those (map (read h) xs)"

definition foot_all :: "('l heap \<Rightarrow> 'o \<Rightarrow> addr set) \<Rightarrow> 'l heap \<Rightarrow> 'o list \<Rightarrow> addr set" where
  "foot_all foot h xs = (\<Union>x \<in> set xs. foot h x)"

definition read_ref :: "('l cell \<Rightarrow> 'o option) \<Rightarrow> ('l heap \<Rightarrow> 'o \<Rightarrow> 'v option) \<Rightarrow> 'l heap \<Rightarrow> addr option \<Rightarrow> 'v option option" where
  "read_ref at read h p =
     (case p of None \<Rightarrow> Some None | Some a \<Rightarrow> map_option Some (Option.bind (Option.bind (hp_cells h a) at) (read h)))"

definition foot_ref :: "('l cell \<Rightarrow> 'o option) \<Rightarrow> ('l heap \<Rightarrow> 'o \<Rightarrow> addr set) \<Rightarrow> 'l heap \<Rightarrow> addr option \<Rightarrow> addr set" where
  "foot_ref at foot h p =
     (case p of None \<Rightarrow> {} | Some a \<Rightarrow> insert a (case Option.bind (hp_cells h a) at of None \<Rightarrow> {} | Some x \<Rightarrow> foot h x))"

definition read_entries :: "'l heap \<Rightarrow> (string \<times> string) list \<Rightarrow> (string \<rightharpoonup> string) option" where
  "read_entries h es = (if distinct (map fst es) then Some (map_of es) else None)"

interpretation plain_struct: deep_copier assign "\<lambda>_. Some" "\<lambda>_ _. {}"
  by unfold_locales (auto simp: assign_def grows_refl)

lemma fold_update_entries:
  "distinct (map fst es) \<Longrightarrow> distinct (map fst out) \<Longrightarrow> out_new = fold (\<lambda>(key, val) o1. AList.update key val o1) es out \<Longrightarrow>
   distinct (map fst out_new) \<and> map_of out_new = map_of out ++ map_of es"
proof (induction es arbitrary: out)
  case (Cons e es)
  obtain k v where e: "e = (k, v)" by force
  have "distinct (map fst (AList.update k v out))" using Cons.prems(2) by (rule distinct_update)
  then have "distinct (map fst out_new) \<and> map_of out_new = map_of (AList.update k v out) ++ map_of es"
    using Cons.IH [of "AList.update k v out"] Cons.prems(1,3) e by simp
  moreover have "(map_of out)(k \<mapsto> v) ++ map_of es = map_of out ++ (map_of es)(k \<mapsto> v)"
  proof -
    have "map_of es k = None" using Cons.prems(1) e by (simp add: map_of_eq_None_iff)
    then show ?thesis by (intro ext) (simp add: map_add_def split: option.split)
  qed
  moreover have "map_of (e # es) = (map_of es)(k \<mapsto> v)" by (simp add: e)
  ultimately show ?case by (simp only: update_conv')
qed simp

interpretation map_entries: deep_copier copy_entries read_entries "\<lambda>_ _. {}"
  using fold_update_entries [of _ "[]"]
  by unfold_locales (auto simp: copy_entries_def read_entries_def grows_refl split: if_splits)

text \<open>References.\<close>

lemma alloc_grows:
  assumes "heap_ok h" "alloc c h = (b, h1)"
  shows "b = hp_next h" "grows h h1" "hp_next h1 = Suc (hp_next h)"
  using assms by (auto simp: alloc_def grows_def heap_ok_def)

lemma store_new:
  assumes "heap_ok h" "b = hp_next h" "grows h h2" "hp_next h < hp_next h2"
  shows "grows h (store_at b c h2)" "hp_next (store_at b c h2) = hp_next h2"
    "same_on {hp_next h + 1..<hp_next h2} h2 (store_at b c h2)"
  using assms by (auto simp: store_at_def grows_def heap_ok_def same_on_def)

lemma ref_copier:
  assumes "deep_copier copy read foot" "\<And>x. at (mk x) = Some x"
  shows "deep_copier (copy_ref init mk at copy) (read_ref at read) (foot_ref at foot)"
proof -
  note local = deep_copier.local [OF assms(1)] and bounded = deep_copier.bounded [OF assms(1)]
    and copies = deep_copier.copies [OF assms(1)] and kept = deep_copier.kept [OF assms(1)]
  show ?thesis
  proof
    fix h h' :: "'b heap" and p
    assume "same_on (foot_ref at foot h p) h h'"
    then show "read_ref at read h' p = read_ref at read h p \<and> foot_ref at foot h' p = foot_ref at foot h p"
      using local [where h = h and h' = h']
      by (cases p; cases "Option.bind (hp_cells h (the p)) at") (auto simp: read_ref_def foot_ref_def)
  next
    fix h :: "'b heap" and p v
    assume ok: "heap_ok h" and r: "read_ref at read h p = Some v"
    show "foot_ref at foot h p \<subseteq> {..<hp_next h}"
    proof (cases p)
      case (Some a)
      with r obtain c x w where x: "hp_cells h a = Some c" "at c = Some x" "read h x = Some w"
        by (auto simp: read_ref_def bind_eq_Some_conv)
      have "a < hp_next h" using ok x(1) by (metis heap_ok_def leI option.distinct(1))
      then show ?thesis using Some x bounded [OF ok x(3)] by (simp add: foot_ref_def)
    qed (simp add: foot_ref_def)
  next
    fix h h' :: "'b heap" and p q v
    assume ok: "heap_ok h" and r: "read_ref at read h p = Some v" and run: "copy_ref init mk at copy p h = (q, h')"
    show "grows h h' \<and> read_ref at read h' q = Some v \<and> foot_ref at foot h' q \<subseteq> {hp_next h..<hp_next h'}"
    proof (cases p)
      case None
      then show ?thesis using ok r run by (auto simp: copy_ref_def read_ref_def foot_ref_def grows_refl)
    next
      case (Some a)
      with r obtain c x w where x: "hp_cells h a = Some c" "at c = Some x" "read h x = Some w" "v = Some w"
        by (auto simp: read_ref_def bind_eq_Some_conv)
      obtain b h1 where al: "alloc (mk (init x)) h = (b, h1)" by force
      obtain y h2 where cp: "copy x h1 = (y, h2)" by force
      have out: "q = Some b" "h' = store_at b (mk y) h2" using run Some x al cp by (simp_all add: copy_ref_def)
      note g1 = alloc_grows [OF ok al]
      have ok1: "heap_ok h1" using g1(2) by (simp add: grows_def)
      note c2 = copies [OF ok1 kept(1) [OF ok x(3) g1(2)] cp]
      have g2: "grows h h2" "hp_next h < hp_next h2" using c2 g1 grows_trans by (auto simp: grows_def)
      note st = store_new [OF ok g1(1) g2, of "mk y", folded out(2)]
      have "same_on (foot h2 y) h2 h'" using st(3) c2 g1(3) by (auto simp: same_on_def)
      from local [OF this] have y: "read h' y = Some w" "foot h' y = foot h2 y" using c2 by simp_all
      have b: "Option.bind (hp_cells h' b) at = Some y" using assms(2) by (simp add: out(2) store_at_def)
      then have "read_ref at read h' q = Some v" using y x(4) out(1) by (simp add: read_ref_def)
      moreover have "foot_ref at foot h' q \<subseteq> {hp_next h..<hp_next h'}"
        using b y c2 g1 g2(2) st(2) out(1) by (auto simp: foot_ref_def)
      ultimately show ?thesis using st(1) by blast
    qed
  qed
qed

text \<open>Slices.\<close>

lemma read_all_simps [simp]:
  "read_all read h [] = Some []"
  "read_all read h (x # xs) = Option.bind (read h x) (\<lambda>v. map_option ((#) v) (read_all read h xs))"
  by (simp_all add: read_all_def split: option.split)

lemma foot_all_simps [simp]: "foot_all foot h [] = {}" "foot_all foot h (x # xs) = foot h x \<union> foot_all foot h xs"
  by (simp_all add: foot_all_def)

lemma elements_copier:
  assumes "deep_copier copy read foot"
  shows "deep_copier (copy_elements copy) (read_all read) (foot_all foot)"
proof -
  note local = deep_copier.local [OF assms] and bounded = deep_copier.bounded [OF assms]
    and copies = deep_copier.copies [OF assms] and kept = deep_copier.kept [OF assms]
  have l: "same_on (foot_all foot h xs) h h' \<Longrightarrow> read_all read h' xs = read_all read h xs \<and> foot_all foot h' xs = foot_all foot h xs" for h h' xs
    using local [of h _ h'] by (induction xs) simp_all
  have b: "heap_ok h \<Longrightarrow> read_all read h xs = Some vs \<Longrightarrow> foot_all foot h xs \<subseteq> {..<hp_next h}" for h xs vs
  proof (induction xs arbitrary: vs)
    case (Cons x xs)
    then obtain v ws where "read h x = Some v" "read_all read h xs = Some ws" by (auto simp: bind_eq_Some_conv)
    then show ?case using bounded [OF Cons.prems(1)] Cons.IH [OF Cons.prems(1)] by simp
  qed simp
  have k: "read_all read h1 xs = Some vs" if "heap_ok h" "read_all read h xs = Some vs" "grows h h1" for h h1 xs vs
    using l [OF grows_same_on [OF that(3) b [OF that(1,2)]]] that(2) by simp
  have c: "grows h h' \<and> read_all read h' ys = Some vs \<and> foot_all foot h' ys \<subseteq> {hp_next h..<hp_next h'}"
    if "heap_ok h" "read_all read h xs = Some vs" "copy_elements copy xs h = (ys, h')" for h h' xs ys vs
    using that
  proof (induction xs arbitrary: h vs ys)
    case Nil
    then show ?case by (simp add: grows_refl)
  next
    case (Cons x xs)
    obtain y h1 where y: "copy x h = (y, h1)" by force
    obtain zs where zs: "copy_elements copy xs h1 = (zs, h')" "ys = y # zs" using Cons.prems(3) y by (auto split: prod.splits)
    obtain v ws where v: "read h x = Some v" "read_all read h xs = Some ws" "vs = v # ws"
      using Cons.prems(2) by (auto simp: bind_eq_Some_conv)
    note c = copies [OF Cons.prems(1) v(1) y]
    have ok1: "heap_ok h1" using c by (simp add: grows_def)
    have rest: "grows h1 h'" "read_all read h' zs = Some ws" "foot_all foot h' zs \<subseteq> {hp_next h1..<hp_next h'}"
      using Cons.IH [OF ok1 k [OF Cons.prems(1) v(2)] zs(1)] c by simp_all
    have y': "read h' y = Some v" "foot h' y = foot h1 y" using kept [OF ok1 _ rest(1)] c by blast+
    have "grows h h'" using c rest(1) grows_trans by blast
    moreover have "hp_next h \<le> hp_next h1" "hp_next h1 \<le> hp_next h'" using c rest(1) by (auto simp: grows_def)
    then have "foot_all foot h' ys \<subseteq> {hp_next h..<hp_next h'}"
      using c rest(3) y'(2) zs(2) by (fastforce simp: subset_iff)
    ultimately show ?case using rest(2) y'(1) v(3) zs(2) by simp
  qed
  show ?thesis by (rule deep_copier.intro) (erule l, erule (1) b, erule (2) c)
qed

text \<open>One field after another, and a struct by the fields that are copied.\<close>

definition copy_both :: "('a, 'l) copier \<Rightarrow> ('b, 'l) copier \<Rightarrow> ('a \<times> 'b, 'l) copier" where
  "copy_both ca cb xy h = (let (x, h1) = ca (fst xy) h; (y, h2) = cb (snd xy) h1 in ((x, y), h2))"

definition read_both :: "('l heap \<Rightarrow> 'a \<Rightarrow> 'v option) \<Rightarrow> ('l heap \<Rightarrow> 'b \<Rightarrow> 'w option) \<Rightarrow> 'l heap \<Rightarrow> 'a \<times> 'b \<Rightarrow> ('v \<times> 'w) option" where
  "read_both ra rb h xy = Option.bind (ra h (fst xy)) (\<lambda>v. map_option (Pair v) (rb h (snd xy)))"

definition foot_both :: "('l heap \<Rightarrow> 'a \<Rightarrow> addr set) \<Rightarrow> ('l heap \<Rightarrow> 'b \<Rightarrow> addr set) \<Rightarrow> 'l heap \<Rightarrow> 'a \<times> 'b \<Rightarrow> addr set" where
  "foot_both fa fb h xy = fa h (fst xy) \<union> fb h (snd xy)"

lemma both_copier:
  assumes "deep_copier ca ra fa" "deep_copier cb rb fb"
  shows "deep_copier (copy_both ca cb) (read_both ra rb) (foot_both fa fb)"
proof
  show "read_both ra rb h' xy = read_both ra rb h xy \<and> foot_both fa fb h' xy = foot_both fa fb h xy"
    if "same_on (foot_both fa fb h xy) h h'" for h h' xy
    using that deep_copier.local [OF assms(1), of h "fst xy" h'] deep_copier.local [OF assms(2), of h "snd xy" h']
    by (simp add: foot_both_def read_both_def)
  show "foot_both fa fb h xy \<subseteq> {..<hp_next h}" if "heap_ok h" "read_both ra rb h xy = Some v" for h xy v
  proof -
    have "\<exists>a b. ra h (fst xy) = Some a \<and> rb h (snd xy) = Some b" using that(2) by (auto simp: read_both_def bind_eq_Some_conv)
    then show ?thesis using deep_copier.bounded [OF assms(1) that(1)] deep_copier.bounded [OF assms(2) that(1)]
      unfolding foot_both_def by blast
  qed
  show "grows h h' \<and> read_both ra rb h' xy' = Some vw \<and> foot_both fa fb h' xy' \<subseteq> {hp_next h..<hp_next h'}"
    if ok: "heap_ok h" and r: "read_both ra rb h xy = Some vw" and run: "copy_both ca cb xy h = (xy', h')" for h h' xy xy' vw
  proof -
    obtain v w where v: "ra h (fst xy) = Some v" "rb h (snd xy) = Some w" "vw = (v, w)"
      using r by (auto simp: read_both_def bind_eq_Some_conv)
    obtain x h1 where x: "ca (fst xy) h = (x, h1)" by force
    obtain y where y: "cb (snd xy) h1 = (y, h')" "xy' = (x, y)" using run x by (auto simp: copy_both_def split: prod.splits)
    note c1 = deep_copier.copies [OF assms(1) ok v(1) x]
    have ok1: "heap_ok h1" using c1 by (simp add: grows_def)
    have w1: "rb h1 (snd xy) = Some w" using deep_copier.kept(1) [OF assms(2) ok v(2)] c1 by blast
    note c2 = deep_copier.copies [OF assms(2) ok1 w1 y(1)]
    have x': "ra h' x = Some v" "fa h' x = fa h1 x" using deep_copier.kept [OF assms(1) ok1] c1 c2 by blast+
    have le: "hp_next h \<le> hp_next h1" "hp_next h1 \<le> hp_next h'" using c1 c2 by (auto simp: grows_def)
    have "grows h h'" using c1 c2 grows_trans by blast
    moreover have "fa h' x \<union> fb h' y \<subseteq> {hp_next h..<hp_next h'}" using c1 c2 x'(2) le by (fastforce simp: subset_iff)
    ultimately show ?thesis using c2 x'(1) v(3) y(2) by (simp add: read_both_def foot_both_def)
  qed
qed

lemma struct_copier:
  assumes "deep_copier copy_fields read_fields foot_fields"
    and "\<And>x h. copy x h = (case copy_fields (get x) h of (p, h') \<Rightarrow> (put x p, h'))"
    and "\<And>x p. get (put x p) = p" "\<And>x p. build (put x p) = build x"
  shows "deep_copier copy (\<lambda>h x. map_option (build x) (read_fields h (get x))) (\<lambda>h x. foot_fields h (get x))"
proof
  show "map_option (build x) (read_fields h' (get x)) = map_option (build x) (read_fields h (get x)) \<and>
      foot_fields h' (get x) = foot_fields h (get x)" if "same_on (foot_fields h (get x)) h h'" for h h' x
    using deep_copier.local [OF assms(1) that] by simp
  show "foot_fields h (get x) \<subseteq> {..<hp_next h}" if "heap_ok h" "map_option (build x) (read_fields h (get x)) = Some v" for h x v
    using deep_copier.bounded [OF assms(1) that(1)] that(2) by auto
  show "grows h h' \<and> map_option (build y) (read_fields h' (get y)) = Some v \<and> foot_fields h' (get y) \<subseteq> {hp_next h..<hp_next h'}"
    if ok: "heap_ok h" and r: "map_option (build x) (read_fields h (get x)) = Some v" and run: "copy x h = (y, h')" for h h' x y v
  proof -
    obtain w where w: "read_fields h (get x) = Some w" "v = build x w" using r by auto
    obtain p where p: "copy_fields (get x) h = (p, h')" "y = put x p" using run assms(2) by (auto split: prod.splits)
    from deep_copier.copies [OF assms(1) ok w(1) p(1)] show ?thesis using assms(3,4) w(2) p(2) by simp
  qed
qed

section \<open>The values of the resource's structs\<close>

text \<open>The value and the memory of the libraries' structs, and that their copy functions copy.\<close>

record ('l, 'm) meaning =
  mn_ObjectMeta :: "'l heap \<Rightarrow> 'l \<Rightarrow> (string \<times> string \<times> string \<times> int) option"
  mn_ListMeta :: "'l heap \<Rightarrow> 'l \<Rightarrow> 'm option"
  mn_ResourceRequirements :: "'l heap \<Rightarrow> 'l \<Rightarrow> ResourceRequirements option"
  mn_Condition :: "'l heap \<Rightarrow> 'l \<Rightarrow> Condition option"
  ft_ObjectMeta :: "'l heap \<Rightarrow> 'l \<Rightarrow> addr set"
  ft_ListMeta :: "'l heap \<Rightarrow> 'l \<Rightarrow> addr set"
  ft_ResourceRequirements :: "'l heap \<Rightarrow> 'l \<Rightarrow> addr set"
  ft_Condition :: "'l heap \<Rightarrow> 'l \<Rightarrow> addr set"

definition library_copies :: "'l library \<Rightarrow> ('l, 'm) meaning \<Rightarrow> bool" where
  "library_copies lib mn \<longleftrightarrow>
     deep_copier (lib_ObjectMeta lib) (mn_ObjectMeta mn) (ft_ObjectMeta mn) \<and>
     deep_copier (lib_ListMeta lib) (mn_ListMeta mn) (ft_ListMeta mn) \<and>
     deep_copier (lib_ResourceRequirements lib) (mn_ResourceRequirements mn) (ft_ResourceRequirements mn) \<and>
     deep_copier (lib_Condition lib) (mn_Condition mn) (ft_Condition mn)"

text \<open>A nil map or slice has the value of an empty one.\<close>

definition map_value :: "(string \<rightharpoonup> string) option \<Rightarrow> string \<rightharpoonup> string" where
  "map_value m = (case m of None \<Rightarrow> Map.empty | Some f \<Rightarrow> f)"

abbreviation read_map :: "'l heap \<Rightarrow> addr option \<Rightarrow> (string \<rightharpoonup> string) option option" where
  "read_map \<equiv> read_ref map_at read_entries"

abbreviation foot_leaf :: "('l cell \<Rightarrow> 'o option) \<Rightarrow> 'l heap \<Rightarrow> addr option \<Rightarrow> addr set" where
  "foot_leaf at \<equiv> foot_ref at (\<lambda>_ _. {})"

abbreviation read_leaf :: "('l cell \<Rightarrow> 'o option) \<Rightarrow> 'l heap \<Rightarrow> addr option \<Rightarrow> 'o option option" where
  "read_leaf at \<equiv> read_ref at (\<lambda>_. Some)"

definition build_Ingress :: "ingress_obj \<Rightarrow> (string \<rightharpoonup> string) option \<Rightarrow> CSMSIngress" where
  "build_Ingress i annotations =
     \<lparr>ing_Host = oi_Host i, ing_IngressClassName = oi_IngressClassName i, ing_TLSSecretName = oi_TLSSecretName i,
      ing_Annotations = map_value annotations\<rparr>"

definition read_Ingress :: "'l heap \<Rightarrow> ingress_obj \<Rightarrow> CSMSIngress option" where
  "read_Ingress h i = map_option (build_Ingress i) (read_map h (oi_Annotations i))"

definition foot_Ingress :: "'l heap \<Rightarrow> ingress_obj \<Rightarrow> addr set" where
  "foot_Ingress h i = foot_leaf map_at h (oi_Annotations i)"

definition spec_fields where
  "spec_fields s = (os_Replicas s, os_TerminationGracePeriodSeconds s, os_Config s, os_Resources s, os_MinAvailable s, os_Ingress s, os_TLS s)"

definition set_spec_fields where
  "set_spec_fields s = (\<lambda>(replicas, grace, config, resources, minAvailable, ingress, tls).
     s\<lparr>os_Replicas := replicas, os_TerminationGracePeriodSeconds := grace, os_Config := config, os_Resources := resources,
       os_MinAvailable := minAvailable, os_Ingress := ingress, os_TLS := tls\<rparr>)"

definition build_Spec where
  "build_Spec s = (\<lambda>(replicas, grace, config, resources, minAvailable, ingress, tls).
     \<lparr>sp_Image = os_Image s, sp_Replicas = replicas, sp_Port = os_Port s, sp_LivenessPath = os_LivenessPath s,
      sp_ReadinessPath = os_ReadinessPath s, sp_TerminationGracePeriodSeconds = grace,
      sp_DatabaseSecretName = os_DatabaseSecretName s, sp_RedisSecretName = os_RedisSecretName s,
      sp_APISecretName = os_APISecretName s, sp_Config = map_value config, sp_Resources = resources,
      sp_MinAvailable = minAvailable, sp_Ingress = ingress, sp_TLS = tls\<rparr>)"

definition read_Spec :: "('l, 'm) meaning \<Rightarrow> 'l heap \<Rightarrow> 'l spec_obj \<Rightarrow> CSMSSpec option" where
  "read_Spec mn h s = map_option (build_Spec s)
     (read_both (read_leaf int_at) (read_both (read_leaf int_at) (read_both read_map (read_both (mn_ResourceRequirements mn)
       (read_both (read_leaf int_or_string_at) (read_both (read_ref ingress_at read_Ingress) (read_leaf tls_at)))))) h (spec_fields s))"

definition foot_Spec :: "('l, 'm) meaning \<Rightarrow> 'l heap \<Rightarrow> 'l spec_obj \<Rightarrow> addr set" where
  "foot_Spec mn h s =
     foot_both (foot_leaf int_at) (foot_both (foot_leaf int_at) (foot_both (foot_leaf map_at) (foot_both (ft_ResourceRequirements mn)
       (foot_both (foot_leaf int_or_string_at) (foot_both (foot_ref ingress_at foot_Ingress) (foot_leaf tls_at)))))) h (spec_fields s)"

definition build_Status :: "status_obj \<Rightarrow> Condition list option \<Rightarrow> CSMSStatus" where
  "build_Status s conditions =
     \<lparr>su_Replicas = ot_Replicas s, su_ReadyReplicas = ot_ReadyReplicas s, su_ObservedGeneration = ot_ObservedGeneration s,
      su_Conditions = (case conditions of None \<Rightarrow> [] | Some cs \<Rightarrow> cs)\<rparr>"

definition read_Status :: "('l, 'm) meaning \<Rightarrow> 'l heap \<Rightarrow> status_obj \<Rightarrow> CSMSStatus option" where
  "read_Status mn h s = map_option (build_Status s) (read_ref conditions_at (read_all (mn_Condition mn)) h (ot_Conditions s))"

definition foot_Status :: "('l, 'm) meaning \<Rightarrow> 'l heap \<Rightarrow> status_obj \<Rightarrow> addr set" where
  "foot_Status mn h s = foot_ref conditions_at (foot_all (ft_Condition mn)) h (ot_Conditions s)"

text \<open>The value of a resource: its type and the resource.\<close>

definition build_CSMS where
  "build_CSMS x = (\<lambda>((name, namespace, uid, generation), spec, status).
     (oc_TypeMeta x, \<lparr>cr_Name = name, cr_Namespace = namespace, cr_UID = uid, cr_Generation = generation, cr_Spec = spec, cr_Status = status\<rparr>))"

definition read_CSMS :: "('l, 'm) meaning \<Rightarrow> 'l heap \<Rightarrow> 'l csms_obj \<Rightarrow> ((string \<times> string) \<times> CSMS) option" where
  "read_CSMS mn h x = map_option (build_CSMS x)
     (read_both (mn_ObjectMeta mn) (read_both (read_Spec mn) (read_Status mn)) h (oc_ObjectMeta x, oc_Spec x, oc_Status x))"

definition foot_CSMS :: "('l, 'm) meaning \<Rightarrow> 'l heap \<Rightarrow> 'l csms_obj \<Rightarrow> addr set" where
  "foot_CSMS mn h x = foot_both (ft_ObjectMeta mn) (foot_both (foot_Spec mn) (foot_Status mn)) h (oc_ObjectMeta x, oc_Spec x, oc_Status x)"

definition read_List :: "('l, 'm) meaning \<Rightarrow> 'l heap \<Rightarrow> 'l list_obj \<Rightarrow> ((string \<times> string) \<times> 'm \<times> ((string \<times> string) \<times> CSMS) list option) option" where
  "read_List mn h x = map_option (Pair (ol_TypeMeta x))
     (read_both (mn_ListMeta mn) (read_ref items_at (read_all (read_CSMS mn))) h (ol_ListMeta x, ol_Items x))"

definition foot_List :: "('l, 'm) meaning \<Rightarrow> 'l heap \<Rightarrow> 'l list_obj \<Rightarrow> addr set" where
  "foot_List mn h x = foot_both (ft_ListMeta mn) (foot_ref items_at (foot_all (foot_CSMS mn))) h (ol_ListMeta x, ol_Items x)"

section \<open>The copy functions copy\<close>

interpretation entries_ref: deep_copier copy_map read_map "foot_leaf map_at"
  unfolding copy_map_def by (rule ref_copier [OF map_entries.deep_copier_axioms]) simp

interpretation tls: deep_copier TLS_DeepCopyInto "\<lambda>_. Some" "\<lambda>_ _. {}"
  unfolding TLS_DeepCopyInto_def by (rule plain_struct.deep_copier_axioms)

interpretation ingress: deep_copier Ingress_DeepCopyInto read_Ingress foot_Ingress
  unfolding read_Ingress_def [abs_def] foot_Ingress_def [abs_def]
  by (rule struct_copier [OF entries_ref.deep_copier_axioms, where put = "\<lambda>i p. i\<lparr>oi_Annotations := p\<rparr>"])
    (simp_all add: Ingress_DeepCopyInto_def build_Ingress_def [abs_def])

lemmas leaf_copier = ref_copier [OF plain_struct.deep_copier_axioms]

lemma spec_copier:
  assumes "library_copies lib mn"
  shows "deep_copier (Spec_DeepCopyInto lib) (read_Spec mn) (foot_Spec mn)"
proof -
  have res: "deep_copier (lib_ResourceRequirements lib) (mn_ResourceRequirements mn) (ft_ResourceRequirements mn)"
    using assms by (simp add: library_copies_def)
  note fields = both_copier [OF leaf_copier [of int_at Int_cell "\<lambda>_. 0"] both_copier [OF leaf_copier [of int_at Int_cell "\<lambda>_. 0"]
    both_copier [OF entries_ref.deep_copier_axioms both_copier [OF res
    both_copier [OF leaf_copier [of int_or_string_at IntOrString_cell "\<lambda>_. FromInt 0"]
    both_copier [OF ref_copier [OF ingress.deep_copier_axioms, of ingress_at Ingress_cell "\<lambda>i. i"]
      ref_copier [OF tls.deep_copier_axioms, of tls_at TLS_cell "\<lambda>t. t"]]]]]], simplified]
  show ?thesis
    unfolding read_Spec_def [abs_def] foot_Spec_def [abs_def]
    by (rule struct_copier [OF fields, where put = set_spec_fields])
      (auto simp: Spec_DeepCopyInto_def copy_both_def Let_def spec_fields_def set_spec_fields_def build_Spec_def [abs_def] split: prod.splits)
qed

lemma status_copier:
  assumes "library_copies lib mn"
  shows "deep_copier (Status_DeepCopyInto lib) (read_Status mn) (foot_Status mn)"
proof -
  have "deep_copier (lib_Condition lib) (mn_Condition mn) (ft_Condition mn)" using assms by (simp add: library_copies_def)
  note conditions = ref_copier [OF elements_copier [OF this], of conditions_at Conditions_cell "\<lambda>cs. cs", simplified]
  show ?thesis
    unfolding read_Status_def [abs_def] foot_Status_def [abs_def]
    by (rule struct_copier [OF conditions, where put = "\<lambda>s p. s\<lparr>ot_Conditions := p\<rparr>"])
      (simp_all add: Status_DeepCopyInto_def build_Status_def [abs_def])
qed

lemma csms_copier:
  assumes "library_copies lib mn"
  shows "deep_copier (CSMS_DeepCopyInto lib) (read_CSMS mn) (foot_CSMS mn)"
proof -
  have "deep_copier (lib_ObjectMeta lib) (mn_ObjectMeta mn) (ft_ObjectMeta mn)" using assms by (simp add: library_copies_def)
  note fields = both_copier [OF this both_copier [OF spec_copier [OF assms] status_copier [OF assms]]]
  show ?thesis
    unfolding read_CSMS_def [abs_def] foot_CSMS_def [abs_def]
    by (rule struct_copier [OF fields, where put = "\<lambda>x (meta, spec, status). x\<lparr>oc_ObjectMeta := meta, oc_Spec := spec, oc_Status := status\<rparr>"])
      (auto simp: CSMS_DeepCopyInto_def copy_both_def build_CSMS_def [abs_def] split: prod.splits)
qed

lemma list_copier:
  assumes "library_copies lib mn"
  shows "deep_copier (List_DeepCopyInto lib) (read_List mn) (foot_List mn)"
proof -
  have "deep_copier (lib_ListMeta lib) (mn_ListMeta mn) (ft_ListMeta mn)" using assms by (simp add: library_copies_def)
  note fields = both_copier [OF this ref_copier [OF elements_copier [OF csms_copier [OF assms]], of items_at Items_cell "\<lambda>xs. xs", simplified]]
  show ?thesis
    unfolding read_List_def [abs_def] foot_List_def [abs_def]
    by (rule struct_copier [OF fields, where put = "\<lambda>x (meta, items). x\<lparr>ol_ListMeta := meta, ol_Items := items\<rparr>"])
      (auto simp: List_DeepCopyInto_def copy_both_def split: prod.splits)
qed

text \<open>C38: the copy of a resource has the value of the original and stands alone: whatever is later
  written to memory that existed before the copy, the copy keeps that value, and whatever is written to
  new memory, the original keeps it. The copy of nil is the nil interface.\<close>

theorem deep_copy_independent:
  assumes "library_copies lib mn" "heap_ok h" "read_ref csms_at (read_CSMS mn) h p = Some v"
    and "CSMS_DeepCopyObject lib p h = (obj, h')"
  shows "\<exists>q. obj = map_option CSMS_object q \<and> (q = None \<longleftrightarrow> p = None) \<and>
    (\<forall>h''. same_on {hp_next h..<hp_next h'} h' h'' \<longrightarrow> read_ref csms_at (read_CSMS mn) h'' q = Some v) \<and>
    (\<forall>h''. same_on {..<hp_next h} h' h'' \<longrightarrow> read_ref csms_at (read_CSMS mn) h'' p = Some v)"
proof -
  obtain q where q: "CSMS_DeepCopy lib p h = (q, h')" "obj = map_option CSMS_object q"
    using assms(4) by (cases "CSMS_DeepCopy lib p h"; cases "fst (CSMS_DeepCopy lib p h)") (auto simp: CSMS_DeepCopyObject_def)
  have "deep_copier (CSMS_DeepCopy lib) (read_ref csms_at (read_CSMS mn)) (foot_ref csms_at (foot_CSMS mn))"
    unfolding CSMS_DeepCopy_def by (rule ref_copier [OF csms_copier [OF assms(1)]]) simp
  note alone = deep_copier.independent [OF this assms(2,3) q(1)]
  have "q = None \<longleftrightarrow> p = None"
    using q(1) by (auto simp: CSMS_DeepCopy_def copy_ref_def split: option.splits prod.splits)
  with alone q(2) show ?thesis by blast
qed

text \<open>The same for lists of resources.\<close>

lemma list_copy_independent:
  assumes "library_copies lib mn" "heap_ok h" "read_ref list_at (read_List mn) h p = Some v"
    and "List_DeepCopy lib p h = (q, h')" "same_on {hp_next h..<hp_next h'} h' h''"
  shows "read_ref list_at (read_List mn) h'' q = Some v"
proof -
  have "deep_copier (List_DeepCopy lib) (read_ref list_at (read_List mn)) (foot_ref list_at (foot_List mn))"
    unfolding List_DeepCopy_def by (rule ref_copier [OF list_copier [OF assms(1)]]) simp
  from deep_copier.independent(1) [OF this assms(2-5)] show ?thesis .
qed

text \<open>Libraries whose structs hold one map each, and a resource with two replicas.\<close>

definition demo_library :: "addr option library" where
  "demo_library = \<lparr>lib_ObjectMeta = copy_map, lib_ListMeta = copy_map, lib_ResourceRequirements = copy_map, lib_Condition = copy_map\<rparr>"

definition demo_meaning :: "(addr option, unit) meaning" where
  "demo_meaning =
     \<lparr>mn_ObjectMeta = \<lambda>h x. map_option (\<lambda>m. (case map_value m ''name'' of Some s \<Rightarrow> s | None \<Rightarrow> '''', '''', '''', 0)) (read_map h x),
      mn_ListMeta = \<lambda>h x. map_option (\<lambda>_. ()) (read_map h x),
      mn_ResourceRequirements = \<lambda>h x. map_option (\<lambda>m. \<lparr>rr_Limits = m, rr_Requests = None, rr_Claims = []\<rparr>) (read_map h x),
      mn_Condition = \<lambda>h x. map_option (\<lambda>m. \<lparr>cd_Type = '''', cd_Status = True, cd_Reason = '''', cd_Message = '''',
        cd_ObservedGeneration = 0, cd_LastTransitionTime = 0\<rparr>) (read_map h x),
      ft_ObjectMeta = foot_leaf map_at, ft_ListMeta = foot_leaf map_at, ft_ResourceRequirements = foot_leaf map_at,
      ft_Condition = foot_leaf map_at\<rparr>"

lemma map_view_copier: "deep_copier copy_map (\<lambda>h x. map_option f (read_map h x)) (foot_leaf map_at)"
  by (rule struct_copier [OF entries_ref.deep_copier_axioms, where get = "\<lambda>x. x" and put = "\<lambda>_ p. p" and build = "\<lambda>_. f"]) simp_all

lemma demo_library_copies: "library_copies demo_library demo_meaning"
  by (simp add: library_copies_def demo_library_def demo_meaning_def map_view_copier)

definition demo_object :: "addr option csms_obj" where
  "demo_object =
     \<lparr>oc_TypeMeta = (''CSMS'', ''v1alpha1''), oc_ObjectMeta = Some 1,
      oc_Spec = \<lparr>os_Image = ''csms'', os_Replicas = Some 0, os_Port = 8080, os_LivenessPath = '''', os_ReadinessPath = '''',
        os_TerminationGracePeriodSeconds = None, os_DatabaseSecretName = '''', os_RedisSecretName = '''', os_APISecretName = '''',
        os_Config = Some 1, os_Resources = None, os_MinAvailable = None, os_Ingress = Some 2, os_TLS = None\<rparr>,
      oc_Status = \<lparr>ot_Replicas = 0, ot_ReadyReplicas = 0, ot_ObservedGeneration = 0, ot_Conditions = Some 3\<rparr>\<rparr>"

definition demo_heap :: "addr option heap" where
  "demo_heap = \<lparr>hp_cells = [0 \<mapsto> Int_cell 2, 1 \<mapsto> Map_cell [(''name'', ''cs'')],
     2 \<mapsto> Ingress_cell \<lparr>oi_Host = ''cs.example'', oi_IngressClassName = '''', oi_TLSSecretName = '''', oi_Annotations = Some 1\<rparr>,
     3 \<mapsto> Conditions_cell [Some 1], 4 \<mapsto> CSMS_cell demo_object], hp_next = 5\<rparr>"

lemmas read_defs = read_ref_def read_CSMS_def read_both_def read_Spec_def read_Status_def read_Ingress_def read_entries_def spec_fields_def
  build_CSMS_def build_Spec_def

lemma deep_copy_independent_witness:
  "\<exists>q h' v. CSMS_DeepCopyObject demo_library (Some 4) demo_heap = (Some (CSMS_object q), h') \<and>
     read_ref csms_at (read_CSMS demo_meaning) (store_at 0 (Int_cell 9) h') (Some q) = Some (Some v) \<and>
     cr_Name (snd v) = ''cs'' \<and> sp_Replicas (cr_Spec (snd v)) = Some 2"
proof -
  have ok: "heap_ok demo_heap" by (simp add: heap_ok_def demo_heap_def)
  obtain v where v: "read_ref csms_at (read_CSMS demo_meaning) demo_heap (Some 4) = Some (Some v)"
    "cr_Name (snd v) = ''cs''" "sp_Replicas (cr_Spec (snd v)) = Some 2"
    by (simp add: read_defs demo_heap_def demo_object_def demo_meaning_def map_value_def)
  obtain obj h' where run: "CSMS_DeepCopyObject demo_library (Some 4) demo_heap = (obj, h')" by force
  from deep_copy_independent [OF demo_library_copies ok v(1) run] obtain q where q: "obj = map_option CSMS_object q" "q \<noteq> None"
    "\<And>h''. same_on {5..<hp_next h'} h' h'' \<Longrightarrow> read_ref csms_at (read_CSMS demo_meaning) h'' q = Some (Some v)"
    by (auto simp: demo_heap_def)
  then obtain a where a: "q = Some a" by blast
  have "same_on {5..<hp_next h'} h' (store_at 0 (Int_cell 9) h')" by (simp add: same_on_def store_at_def)
  from q(3) [OF this] run q(1) a v(2,3) show ?thesis by (intro exI [of _ a] exI [of _ h'] exI [of _ v]) simp
qed

end
