(* ===== verification/Operator.thy ===== *)
theory Operator
  imports Controller
begin

text \<open>
  The operator program (cmd/operator) and the registration of the reconciler (SetupWithManager). The
  manager belongs to the controller library: what its calls return is the record \<open>manager\<close>, and what
  the program does is the sequence of calls it makes.
\<close>

datatype watch = For string | Owns string

record manager_options =
  mg_MetricsAddress :: string
  mg_HealthAddress :: string
  mg_LeaderElection :: bool
  mg_LeaderElectionID :: string

datatype manager_call =
    AddToScheme
  | NewManager manager_options
  | AddHealthzCheck string
  | AddReadyzCheck string
  | Complete "watch list"
  | Start

record manager =
  mg_addToScheme :: "error option"
  mg_new :: "manager_options \<Rightarrow> error option"
  mg_healthz :: "string \<Rightarrow> error option"
  mg_readyz :: "string \<Rightarrow> error option"
  mg_complete :: "watch list \<Rightarrow> error option"
  mg_start :: "error option"

definition healthzCheck :: "error option" where
  "healthzCheck = None"

definition SetupWithManager :: "manager \<Rightarrow> error option \<times> manager_call" where
  "SetupWithManager mgr =
     (let watches = [For ''CSMS'', Owns ''Deployment'', Owns ''Service'', Owns ''ConfigMap'', Owns ''PodDisruptionBudget'', Owns ''Ingress'']
      in (mg_complete mgr watches, Complete watches))"

definition operator_options :: manager_options where
  "operator_options = \<lparr>mg_MetricsAddress = '':8080'', mg_HealthAddress = '':8081'', mg_LeaderElection = True,
     mg_LeaderElectionID = ''csms-operator.csms.seanlee0923.dev''\<rparr>"

text \<open>How the program ends: by a panic of \<open>Must\<close>, or with an exit code.\<close>

datatype program_end = Panics | Exits nat

definition operator_main :: "manager \<Rightarrow> program_end \<times> manager_call list" where
  "operator_main mgr =
     (if mg_addToScheme mgr \<noteq> None then (Panics, [AddToScheme])
      else if mg_new mgr operator_options \<noteq> None then (Exits 1, [AddToScheme, NewManager operator_options])
      else if mg_healthz mgr ''healthz'' \<noteq> None
      then (Exits 1, [AddToScheme, NewManager operator_options, AddHealthzCheck ''healthz''])
      else if mg_readyz mgr ''readyz'' \<noteq> None
      then (Exits 1, [AddToScheme, NewManager operator_options, AddHealthzCheck ''healthz'', AddReadyzCheck ''readyz''])
      else
        (case SetupWithManager mgr of
           (setupErr, setup) \<Rightarrow>
             (let calls = [AddToScheme, NewManager operator_options, AddHealthzCheck ''healthz'', AddReadyzCheck ''readyz'', setup]
              in if setupErr \<noteq> None then (Exits 1, calls)
                 else (if mg_start mgr \<noteq> None then Exits 1 else Exits 0, calls @ [Start]))))"

text \<open>The kinds of the objects that a reconciliation writes, with the resource itself.\<close>

definition reconciled_kinds :: "string list" where
  "reconciled_kinds = [''ConfigMap'', ''Service'', ''Deployment'', ''PodDisruptionBudget'', ''Ingress'']"

text \<open>
  The manager runs only with leader election and with the reconciler registered for the resource and
  for every kind of object it writes, so that a change to any of them leads to a reconciliation.
\<close>

lemma started_watching_everything:
  assumes "Start \<in> set (snd (operator_main mgr))"
  shows "\<exists>watches. snd (operator_main mgr) =
      [AddToScheme, NewManager operator_options, AddHealthzCheck ''healthz'', AddReadyzCheck ''readyz'', Complete watches, Start] \<and>
    mg_LeaderElection operator_options \<and> For ''CSMS'' \<in> set watches \<and> (\<forall>kind \<in> set reconciled_kinds. Owns kind \<in> set watches)"
  using assms
  by (auto simp: operator_main_def SetupWithManager_def Let_def operator_options_def reconciled_kinds_def split: if_splits)

lemma operator_exit:
  "fst (operator_main mgr) = Exits 0 \<longleftrightarrow>
     mg_addToScheme mgr = None \<and> mg_new mgr operator_options = None \<and> mg_healthz mgr ''healthz'' = None \<and> mg_readyz mgr ''readyz'' = None \<and>
     fst (SetupWithManager mgr) = None \<and> mg_start mgr = None"
  by (simp add: operator_main_def Let_def split: prod.split)

end
